(* ===== verification/Prelude.thy ===== *)
theory Prelude
  imports Main "HOL-Library.Word" "HOL-Library.Char_ord" "HOL-Library.List_Lexorder"
    "HOL-Library.Multiset"
begin

text \<open>
  Shared vocabulary of the development: the Go types the program works with, the lookup and
  list operations every component uses, and the generic lemmas about them.

  A Go \<open>string\<close> and a Go \<open>[]byte\<close> are both byte sequences; Isabelle's \<open>char\<close>
  has 256 values, so both are \<open>char list\<close> and \<open>length\<close> is Go's \<open>len\<close>.
  Times and durations are nanoseconds (\<open>int\<close>); the zero \<open>time.Time\<close>, where the code
  tests \<open>IsZero\<close>, is \<open>None\<close> of an option.  A nil pointer is \<open>None\<close> as well.
\<close>

type_synonym bytes = "char list"
type_synonym u32 = "32 word"
type_synonym u64 = "64 word"
type_synonym gotime = int
type_synonym duration = int

named_theorems go_simps
  \<open>unfolding rules of the model's small helper operations\<close>

named_theorems inv_intros
  \<open>an operation keeps its component's invariant\<close>

abbreviation second :: duration where
  "second \<equiv> 1000000000"

abbreviation millisecond :: duration where
  "millisecond \<equiv> 1000000"

subsection \<open>Maps\<close>

text \<open>Go reads an absent map key as the zero value of the element type.\<close>

definition mget :: "('k \<rightharpoonup> 'v::zero) \<Rightarrow> 'k \<Rightarrow> 'v" where
  "mget m k = (case m k of None \<Rightarrow> 0 | Some v \<Rightarrow> v)"

definition mdelete :: "('k \<rightharpoonup> 'v) \<Rightarrow> 'k \<Rightarrow> ('k \<rightharpoonup> 'v)" where
  "mdelete m k = m(k := None)"

lemma mget_empty [simp]: "mget Map.empty k = 0"
  by (simp add: mget_def)

lemma mget_upd [simp]: "mget (m(k \<mapsto> v)) k' = (if k' = k then v else mget m k')"
  by (simp add: mget_def)

lemma mget_delete [simp]: "mget (mdelete m k) k' = (if k' = k then 0 else mget m k')"
  by (simp add: mget_def mdelete_def)

lemma dom_mdelete [simp]: "dom (mdelete m k) = dom m - {k}"
  by (auto simp: mdelete_def)

lemma mdelete_apply [simp]: "mdelete m k k' = (if k' = k then None else m k')"
  by (simp add: mdelete_def)

lemma ran_mdelete: "ran (mdelete m k) \<subseteq> ran m"
  by (auto simp: mdelete_def ran_def)

subsection \<open>Lists\<close>

lemma take_append_drop_mid: "i \<le> j \<Longrightarrow> take i xs @ take (j - i) (drop i xs) @ drop j xs = xs"
  by (metis append_assoc append_take_drop_id le_add_diff_inverse take_add)

lemma drop_take_append: "i \<le> j \<Longrightarrow> take (j - i) (drop i xs) @ drop j xs = drop i xs"
  by (metis append_take_drop_id drop_drop le_add_diff_inverse2)

lemma sum_list_filter_le: "sum_list (map f (filter P xs)) \<le> sum_list (map (f :: 'a \<Rightarrow> nat) xs)"
  by (induction xs) auto

text \<open>A list in strictly increasing key order is determined by its elements.\<close>

lemma sorted_distinct_unique:
  fixes xs ys :: "'a::linorder list"
  assumes "set xs = set ys" "distinct xs" "distinct ys"
  shows "sort xs = sort ys"
proof -
  have "mset xs = mset ys"
    using assms by (simp add: set_eq_iff_mset_eq_distinct)
  then show ?thesis by (metis properties_for_sort sorted_sort mset_sort)
qed

subsection \<open>Multisets\<close>

lemma count_le_size_nat: "count M x \<le> size M"
  by (metis count_le_replicate_mset_subset_eq order_refl size_mset_mono size_replicate_mset)

lemma card_set_mset_le: "card (set_mset M) \<le> size M"
  by (induction M) (auto simp: card_insert_if)

subsection \<open>Words used as counters\<close>

lemma unat_word64_Suc:
  fixes w :: u64
  shows "Suc (unat w) < 2 ^ 64 \<Longrightarrow> unat (w + 1) = Suc (unat w)"
  by (simp add: unat_word_ariths)

lemma unat_word64_pred:
  fixes w :: u64
  shows "w \<noteq> 0 \<Longrightarrow> unat (w - 1) = unat w - 1"
  by (simp add: unat_minus_one)

lemma word_gt_0_iff: "(0 < (w :: 'a::len word)) = (w \<noteq> 0)"
  by (rule word_neq_0_conv [symmetric])

end
