(* ===== verification/GoStrings.thy ===== *)
theory GoStrings
  imports Prelude
begin

text \<open>
  The part of Go's standard library for strings that the program calls: \<open>strings.HasPrefix\<close>,
  \<open>Contains\<close>, \<open>Index\<close>, \<open>LastIndex\<close>, \<open>Split\<close>, \<open>Join\<close>, \<open>TrimSpace\<close>,
  \<open>TrimLeft\<close>/\<open>TrimRight\<close>, \<open>Fields\<close>, \<open>ToLower\<close>, \<open>strconv.Itoa\<close> and
  \<open>ParseUint\<close>, on byte sequences.  White space is \<open>unicode.IsSpace\<close>, written as the
  UTF-8 encodings of the white-space runes: a lead byte never occurs inside another rune, so
  matching the encodings on bytes is matching the runes.
\<close>

definition nl :: char where "nl = CHR 0x0A"

definition backslash :: char where "backslash = CHR 0x5C"

subsection \<open>Prefixes, suffixes, substrings\<close>

fun has_prefix :: "bytes \<Rightarrow> bytes \<Rightarrow> bool" where
  "has_prefix [] s = True"
| "has_prefix (p # ps) [] = False"
| "has_prefix (p # ps) (c # cs) = (p = c \<and> has_prefix ps cs)"

definition has_suffix :: "bytes \<Rightarrow> bytes \<Rightarrow> bool" where
  "has_suffix p s = has_prefix (rev p) (rev s)"

fun index_of :: "bytes \<Rightarrow> bytes \<Rightarrow> nat option" where
  "index_of p [] = (if p = [] then Some 0 else None)"
| "index_of p (c # cs) = (if has_prefix p (c # cs) then Some 0 else map_option Suc (index_of p cs))"

definition contains :: "bytes \<Rightarrow> bytes \<Rightarrow> bool" where
  "contains p s = (index_of p s \<noteq> None)"

fun index_byte :: "char \<Rightarrow> bytes \<Rightarrow> nat option" where
  "index_byte c [] = None"
| "index_byte c (x # xs) = (if x = c then Some 0 else map_option Suc (index_byte c xs))"

fun last_index_byte :: "char \<Rightarrow> bytes \<Rightarrow> nat option" where
  "last_index_byte c [] = None"
| "last_index_byte c (x # xs) =
     (case last_index_byte c xs of
        Some i \<Rightarrow> Some (Suc i)
      | None \<Rightarrow> if x = c then Some 0 else None)"

definition contains_any :: "bytes \<Rightarrow> bytes \<Rightarrow> bool" where
  "contains_any cs s = list_ex (\<lambda>c. List.member cs c) s"

definition trim_prefix :: "bytes \<Rightarrow> bytes \<Rightarrow> bytes" where
  "trim_prefix p s = (if has_prefix p s then drop (length p) s else s)"

definition trim_suffix :: "bytes \<Rightarrow> bytes \<Rightarrow> bytes" where
  "trim_suffix p s = (if has_suffix p s then take (length s - length p) s else s)"

lemma has_prefix_iff: "has_prefix p s \<longleftrightarrow> (\<exists>t. s = p @ t)"
  by (induction p s rule: has_prefix.induct) auto

lemma has_prefix_append [simp]: "has_prefix p (p @ t)"
  by (auto simp: has_prefix_iff)

lemma has_prefix_length: "has_prefix p s \<Longrightarrow> length p \<le> length s"
  by (auto simp: has_prefix_iff)

lemma has_suffix_iff: "has_suffix p s \<longleftrightarrow> (\<exists>t. s = t @ p)"
proof
  assume "has_suffix p s"
  then obtain t where "rev s = rev p @ t" by (auto simp: has_suffix_def has_prefix_iff)
  then have "s = rev t @ p" by (metis rev_append rev_rev_ident)
  then show "\<exists>t. s = t @ p" ..
qed (auto simp: has_suffix_def has_prefix_iff)

lemma index_of_Some: "index_of p s = Some i \<Longrightarrow> \<exists>t. s = take i s @ p @ t \<and> i \<le> length s"
proof (induction p s arbitrary: i rule: index_of.induct)
  case (2 p c cs)
  then show ?case
    by (cases "has_prefix p (c # cs)") (auto simp: has_prefix_iff)
qed (auto split: if_splits)

lemma index_of_infix: "index_of p (a @ p @ b) \<noteq> None"
proof (induction a)
  case Nil
  have "has_prefix p (p @ b)" by simp
  then show ?case by (cases "p @ b") (auto simp: has_prefix_iff)
next
  case (Cons x a)
  then show ?case by auto
qed

lemma contains_iff: "contains p s \<longleftrightarrow> (\<exists>a b. s = a @ p @ b)"
proof
  assume "contains p s"
  then obtain i where "index_of p s = Some i" by (auto simp: contains_def)
  then show "\<exists>a b. s = a @ p @ b" by (blast dest: index_of_Some)
next
  assume "\<exists>a b. s = a @ p @ b"
  then show "contains p s" using index_of_infix by (auto simp: contains_def)
qed

lemma contains_append: "contains p s \<Longrightarrow> contains p (a @ s @ b)"
  by (auto simp: contains_iff) (metis append_assoc)

lemma index_byte_None: "index_byte c s = None \<longleftrightarrow> c \<notin> set s"
  by (induction s) auto

lemma index_byte_Some:
  "index_byte c s = Some i \<Longrightarrow> i < length s \<and> s ! i = c \<and> c \<notin> set (take i s)"
  by (induction s arbitrary: i) (auto split: if_splits)

lemma index_byte_split: "index_byte c s = Some i \<Longrightarrow> s = take i s @ c # drop (Suc i) s"
  using id_take_nth_drop [of i s] index_byte_Some [of c s i] by simp

lemma last_index_byte_None: "last_index_byte c s = None \<longleftrightarrow> c \<notin> set s"
  by (induction s) (auto split: option.splits)

lemma last_index_byte_Some:
  "last_index_byte c s = Some i \<Longrightarrow> i < length s \<and> s ! i = c \<and> c \<notin> set (drop (Suc i) s)"
  by (induction s arbitrary: i)
    (auto split: option.splits if_splits simp: last_index_byte_None)

subsection \<open>Splitting and joining\<close>

text \<open>\<open>strings.Split(s, sep)\<close> for a one-byte separator: always at least one piece.\<close>

fun split_byte :: "char \<Rightarrow> bytes \<Rightarrow> bytes list" where
  "split_byte c [] = [[]]"
| "split_byte c (x # xs) =
     (if x = c then [] # split_byte c xs
      else (case split_byte c xs of [] \<Rightarrow> [[x]] | y # ys \<Rightarrow> (x # y) # ys))"

fun join :: "bytes \<Rightarrow> bytes list \<Rightarrow> bytes" where
  "join sep [] = []"
| "join sep [x] = x"
| "join sep (x # y # ys) = x @ sep @ join sep (y # ys)"

abbreviation split_lines :: "bytes \<Rightarrow> bytes list" where
  "split_lines \<equiv> split_byte nl"

abbreviation join_lines :: "bytes list \<Rightarrow> bytes" where
  "join_lines \<equiv> join [nl]"

lemma split_byte_not_Nil [simp]: "split_byte c s \<noteq> []"
  by (cases s) (auto split: list.splits)

lemma join_Cons: "ys \<noteq> [] \<Longrightarrow> join sep (x # ys) = x @ sep @ join sep ys"
  by (cases ys) auto

lemma join_Cons_head: "join sep ((c # x) # ys) = c # join sep (x # ys)"
  by (cases ys) auto

lemma join_split: "join [c] (split_byte c s) = s"
proof (induction s)
  case (Cons x xs)
  then show ?case
    by (cases "split_byte c xs") (auto simp: join_Cons join_Cons_head)
qed simp

lemma length_split_byte: "length (split_byte c s) = Suc (count_list s c)"
  by (induction s) (auto split: list.splits)

lemma split_byte_no_sep: "x \<in> set (split_byte c s) \<Longrightarrow> c \<notin> set x"
proof (induction s arbitrary: x)
  case (Cons y ys)
  then show ?case
    by (cases "split_byte c ys") (auto split: if_splits)
qed simp

lemma split_byte_append_sep: "c \<notin> set x \<Longrightarrow> split_byte c (x @ c # s) = x # split_byte c s"
  by (induction x) auto

lemma split_byte_none: "c \<notin> set x \<Longrightarrow> split_byte c x = [x]"
  by (induction x) auto

lemma split_join:
  "xs \<noteq> [] \<Longrightarrow> (\<And>x. x \<in> set xs \<Longrightarrow> c \<notin> set x) \<Longrightarrow> split_byte c (join [c] xs) = xs"
proof (induction "[c]" xs rule: join.induct)
  case (3 x y ys)
  then show ?case by (simp add: split_byte_append_sep)
qed (auto simp: split_byte_none)

lemma length_join: "length (join sep xs) = sum_list (map length xs) + length sep * (length xs - 1)"
  by (induction sep xs rule: join.induct) auto

text \<open>\<open>strings.Split(s, sep)\<close> for a separator of several bytes.\<close>

function split_str :: "bytes \<Rightarrow> bytes \<Rightarrow> bytes list" where
  "split_str sep s =
     (case index_of sep s of
        None \<Rightarrow> [s]
      | Some i \<Rightarrow> if sep = [] then [s] else take i s # split_str sep (drop (i + length sep) s))"
  by pat_completeness auto
termination
  by (relation "measure (\<lambda>(sep, s). length s)") (auto dest!: index_of_Some, (metis Nat.add_diff_assoc append_Nil2 diff_less length_append length_greater_0_conv le_add1 add_gr_0)+)

declare split_str.simps [simp del]

subsection \<open>White space\<close>

definition ascii_space :: "char \<Rightarrow> bool" where
  "ascii_space c = (c = CHR 0x20 \<or> c = CHR 0x09 \<or> c = CHR 0x0A \<or> c = CHR 0x0B
     \<or> c = CHR 0x0C \<or> c = CHR 0x0D)"

text \<open>The UTF-8 encodings of the white-space runes outside ASCII.\<close>

definition wide_spaces :: "bytes list" where
  "wide_spaces =
     [[CHR 0xC2, CHR 0x85], [CHR 0xC2, CHR 0xA0], [CHR 0xE1, CHR 0x9A, CHR 0x80],
      [CHR 0xE2, CHR 0x80, CHR 0x80], [CHR 0xE2, CHR 0x80, CHR 0x81],
      [CHR 0xE2, CHR 0x80, CHR 0x82], [CHR 0xE2, CHR 0x80, CHR 0x83],
      [CHR 0xE2, CHR 0x80, CHR 0x84], [CHR 0xE2, CHR 0x80, CHR 0x85],
      [CHR 0xE2, CHR 0x80, CHR 0x86], [CHR 0xE2, CHR 0x80, CHR 0x87],
      [CHR 0xE2, CHR 0x80, CHR 0x88], [CHR 0xE2, CHR 0x80, CHR 0x89],
      [CHR 0xE2, CHR 0x80, CHR 0x8A], [CHR 0xE2, CHR 0x80, CHR 0xA8],
      [CHR 0xE2, CHR 0x80, CHR 0xA9], [CHR 0xE2, CHR 0x80, CHR 0xAF],
      [CHR 0xE2, CHR 0x81, CHR 0x9F], [CHR 0xE3, CHR 0x80, CHR 0x80]]"

text \<open>Bytes of the white-space rune at the head of a sequence (0: none), given the encodings.\<close>

fun space_width :: "bytes list \<Rightarrow> bytes \<Rightarrow> nat" where
  "space_width ws [] = 0"
| "space_width ws (c # cs) =
     (if ascii_space c then 1
      else if c < CHR 0x80 then 0
      else (case find (\<lambda>e. has_prefix e (c # cs)) ws of None \<Rightarrow> 0 | Some e \<Rightarrow> length e))"

function trim_lead :: "bytes list \<Rightarrow> bytes \<Rightarrow> bytes" where
  "trim_lead ws s = (if space_width ws s = 0 then s else trim_lead ws (drop (space_width ws s) s))"
  by pat_completeness auto
termination
  by (relation "measure (\<lambda>(ws, s). length s)") (auto intro!: diff_less split: list.splits elim: space_width.elims)

declare trim_lead.simps [simp del]

definition trim_space_left :: "bytes \<Rightarrow> bytes" where
  "trim_space_left s = trim_lead wide_spaces s"

definition trim_space_right :: "bytes \<Rightarrow> bytes" where
  "trim_space_right s = rev (trim_lead (map rev wide_spaces) (rev s))"

text \<open>\<open>strings.TrimSpace\<close>.\<close>

definition trim_space :: "bytes \<Rightarrow> bytes" where
  "trim_space s = trim_space_right (trim_space_left s)"

text \<open>\<open>strings.TrimRight\<close> and \<open>strings.TrimLeft\<close> for a cutset of ASCII bytes.\<close>

definition trim_right_set :: "bytes \<Rightarrow> bytes \<Rightarrow> bytes" where
  "trim_right_set cs s = rev (dropWhile (\<lambda>c. List.member cs c) (rev s))"

definition trim_left_set :: "bytes \<Rightarrow> bytes \<Rightarrow> bytes" where
  "trim_left_set cs s = dropWhile (\<lambda>c. List.member cs c) s"

lemma trim_lead_suffix: "\<exists>p. s = p @ trim_lead ws s"
proof (induction ws s rule: trim_lead.induct)
  case (1 ws s)
  show ?case
  proof (cases "space_width ws s = 0")
    case True
    then show ?thesis by (simp add: trim_lead.simps [of ws s])
  next
    case False
    with 1 obtain p where "drop (space_width ws s) s = p @ trim_lead ws (drop (space_width ws s) s)"
      by blast
    then have "s = (take (space_width ws s) s @ p) @ trim_lead ws (drop (space_width ws s) s)"
      by (metis append_assoc append_take_drop_id)
    moreover have "trim_lead ws s = trim_lead ws (drop (space_width ws s) s)"
      using False by (simp add: trim_lead.simps [of ws s])
    ultimately show ?thesis by metis
  qed
qed

lemma trim_space_infix: "\<exists>p q. s = p @ trim_space s @ q"
proof -
  obtain p where p: "s = p @ trim_space_left s"
    using trim_lead_suffix unfolding trim_space_left_def by blast
  obtain q where "rev (trim_space_left s) = q @ trim_lead (map rev wide_spaces) (rev (trim_space_left s))"
    using trim_lead_suffix by blast
  then have "trim_space_left s = trim_space s @ rev q"
    unfolding trim_space_def trim_space_right_def by (metis rev_append rev_rev_ident)
  with p show ?thesis by metis
qed

lemma length_trim_space: "length (trim_space s) \<le> length s"
  using trim_space_infix [of s] by (metis le_add1 le_add2 length_append order_trans)

lemma length_trim_right_set: "length (trim_right_set cs s) \<le> length s"
  using length_dropWhile_le [of _ "rev s"] by (simp add: trim_right_set_def)

text \<open>\<open>strings.Fields\<close>: the maximal runs of bytes that are not white space.\<close>

function fields_from :: "bytes \<Rightarrow> bytes \<Rightarrow> bytes list" where
  "fields_from cur [] = (if cur = [] then [] else [rev cur])"
| "fields_from cur (c # cs) =
     (if space_width wide_spaces (c # cs) = 0 then fields_from (c # cur) cs
      else (if cur = [] then [] else [rev cur])
        @ fields_from [] (drop (space_width wide_spaces (c # cs)) (c # cs)))"
  by pat_completeness auto
termination
  by (relation "measure (\<lambda>(cur, s). length s)") auto

declare fields_from.simps(2) [simp del]

definition fields :: "bytes \<Rightarrow> bytes list" where
  "fields s = fields_from [] s"

subsection \<open>Case and numbers\<close>

text \<open>
  \<open>strings.ToLower\<close> as far as a test against an ASCII prefix can see it: ASCII letters are
  lowered, the two runes whose lower case is ASCII (U+0130 and U+212A) become that letter, and
  every other byte outside ASCII stays outside ASCII.
\<close>

definition lower_byte :: "char \<Rightarrow> char" where
  "lower_byte c = (if CHR ''A'' \<le> c \<and> c \<le> CHR ''Z'' then char_of (of_char c + 32 :: nat) else c)"

fun to_lower :: "bytes \<Rightarrow> bytes" where
  "to_lower [] = []"
| "to_lower (c # cs) =
     (if c = CHR 0xC4 \<and> has_prefix [CHR 0xB0] cs then CHR ''i'' # to_lower (drop 1 cs)
      else if c = CHR 0xE2 \<and> has_prefix [CHR 0x84, CHR 0xAA] cs then CHR ''k'' # to_lower (drop 2 cs)
      else lower_byte c # to_lower cs)"

definition is_digit :: "char \<Rightarrow> bool" where
  "is_digit c = (CHR ''0'' \<le> c \<and> c \<le> CHR ''9'')"

definition digit_char :: "nat \<Rightarrow> char" where
  "digit_char d = ''0123456789'' ! d"

definition digit_val :: "char \<Rightarrow> nat" where
  "digit_val c = of_char c - 48"

text \<open>\<open>%d\<close> of a non-negative integer.\<close>

fun show_nat :: "nat \<Rightarrow> bytes" where
  "show_nat n = (if n < 10 then [digit_char n] else show_nat (n div 10) @ [digit_char (n mod 10)])"

declare show_nat.simps [simp del]

definition show_int :: "int \<Rightarrow> bytes" where
  "show_int i = (if i < 0 then CHR ''-'' # show_nat (nat (- i)) else show_nat (nat i))"

definition digits_val :: "bytes \<Rightarrow> nat" where
  "digits_val s = foldl (\<lambda>n c. 10 * n + digit_val c) 0 s"

text \<open>\<open>strconv.ParseUint(s, 10, 64)\<close> and \<open>strconv.ParseInt(s, 10, 64)\<close>; \<open>None\<close> is an error.\<close>

definition parse_uint :: "bytes \<Rightarrow> nat option" where
  "parse_uint s =
     (if s = [] \<or> \<not> list_all is_digit s then None
      else if digits_val s < 2 ^ 64 then Some (digits_val s) else None)"

definition parse_int :: "bytes \<Rightarrow> int option" where
  "parse_int s =
     (let neg = has_prefix [CHR ''-''] s;
          body = (if neg \<or> has_prefix [CHR ''+''] s then drop 1 s else s)
      in case parse_uint body of
           None \<Rightarrow> None
         | Some n \<Rightarrow>
             if neg then (if n \<le> 2 ^ 63 then Some (- int n) else None)
             else (if n < 2 ^ 63 then Some (int n) else None))"

lemma is_digit_digit_char: "d < 10 \<Longrightarrow> is_digit (digit_char d)"
proof -
  assume "d < 10"
  then have "d \<in> {0, 1, 2, 3, 4, 5, 6, 7, 8, 9}" by auto
  then show ?thesis by (auto simp: digit_char_def is_digit_def less_eq_char_def)
qed

lemma digit_val_digit_char: "d < 10 \<Longrightarrow> digit_val (digit_char d) = d"
proof -
  assume "d < 10"
  then have "d \<in> {0, 1, 2, 3, 4, 5, 6, 7, 8, 9}" by auto
  then show ?thesis by (auto simp: digit_char_def digit_val_def)
qed

lemma show_nat_not_Nil [simp]: "show_nat n \<noteq> []"
  by (subst show_nat.simps) simp

lemma show_nat_digits: "list_all is_digit (show_nat n)"
proof (induction n rule: show_nat.induct)
  case (1 n)
  then show ?case
    by (subst show_nat.simps) (auto simp: is_digit_digit_char)
qed

lemma digits_val_snoc: "digits_val (s @ [c]) = 10 * digits_val s + digit_val c"
  by (simp add: digits_val_def)

lemma digits_val_show_nat: "digits_val (show_nat n) = n"
proof (induction n rule: show_nat.induct)
  case (1 n)
  show ?case
  proof (cases "n < 10")
    case True
    then show ?thesis
      by (subst show_nat.simps) (simp add: digits_val_def digit_val_digit_char)
  next
    case False
    with 1 show ?thesis
      by (subst show_nat.simps) (simp add: digits_val_snoc digit_val_digit_char)
  qed
qed

lemma parse_uint_show_nat: "n < 2 ^ 64 \<Longrightarrow> parse_uint (show_nat n) = Some n"
  by (simp add: parse_uint_def show_nat_digits digits_val_show_nat)

lemma show_nat_inj: "show_nat m = show_nat n \<longleftrightarrow> m = n"
  by (metis digits_val_show_nat)

lemma nl_not_in_show_nat [simp]: "nl \<notin> set (show_nat n)"
proof -
  have "\<forall>c \<in> set (show_nat n). is_digit c"
    using show_nat_digits by (simp add: list_all_iff)
  then show ?thesis by (auto simp: nl_def is_digit_def less_eq_char_def)
qed

end
