(* ===== verification/GoRegexp.thy ===== *)
theory GoRegexp
  imports GoStrings
begin

text \<open>
  Go's \<open>regexp\<close> package, for the expressions the program compiles.  An expression is a
  syntax tree, matched by backtracking in preference order, which is Go's leftmost-first
  semantics.  The repeated sub-expressions of the program are single character classes, so
  \<open>Star\<close>, \<open>Plus\<close> and \<open>Rep\<close> repeat a class and the matcher is total.  Classes read
  bytes: every class of the program that a rune outside ASCII can match is repeated without
  an upper bound, where matching its bytes accepts what matching its runes accepts.
\<close>

datatype rx =
    Eps
  | Lit bytes                     \<comment> \<open>a literal byte sequence\<close>
  | Cls "char \<Rightarrow> bool"            \<comment> \<open>one byte of a class\<close>
  | Star "char \<Rightarrow> bool"           \<comment> \<open>greedy \<open>[...]*\<close>\<close>
  | Rep "char \<Rightarrow> bool" nat nat    \<comment> \<open>greedy \<open>[...]{lo,hi}\<close>\<close>
  | Seq rx rx
  | Alt rx rx
  | Grp rx                        \<comment> \<open>a capturing group\<close>
  | LineStart                     \<comment> \<open>\<open>^\<close> under \<open>(?m)\<close>\<close>
  | LineEnd                       \<comment> \<open>\<open>$\<close> under \<open>(?m)\<close>\<close>
  | TextStart                     \<comment> \<open>\<open>^\<close> without \<open>(?m)\<close>\<close>
  | TextEnd                       \<comment> \<open>\<open>$\<close> without \<open>(?m)\<close>\<close>

text \<open>A matcher state: the byte before the position, the rest of the text, the groups so far.\<close>

type_synonym mstate = "char option \<times> bytes \<times> bytes list"

fun star_match :: "(char \<Rightarrow> bool) \<Rightarrow> char option \<Rightarrow> bytes \<Rightarrow> bytes list \<Rightarrow> (mstate \<Rightarrow> 'r option) \<Rightarrow> 'r option" where
  "star_match P prev [] gs k = k (prev, [], gs)"
| "star_match P prev (c # cs) gs k =
     (if P c
      then (case star_match P (Some c) cs gs k of
              Some r \<Rightarrow> Some r
            | None \<Rightarrow> k (prev, c # cs, gs))
      else k (prev, c # cs, gs))"

text \<open>\<open>rep_match P lo hi\<close>: at least \<open>lo\<close>, at most \<open>hi\<close> bytes of the class, more preferred.\<close>

fun rep_match :: "(char \<Rightarrow> bool) \<Rightarrow> nat \<Rightarrow> nat \<Rightarrow> char option \<Rightarrow> bytes \<Rightarrow> bytes list \<Rightarrow> (mstate \<Rightarrow> 'r option) \<Rightarrow> 'r option" where
  "rep_match P lo hi prev [] gs k = (if lo = 0 then k (prev, [], gs) else None)"
| "rep_match P lo hi prev (c # cs) gs k =
     (if 0 < hi \<and> P c
      then (case rep_match P (lo - 1) (hi - 1) (Some c) cs gs k of
              Some r \<Rightarrow> Some r
            | None \<Rightarrow> if lo = 0 then k (prev, c # cs, gs) else None)
      else if lo = 0 then k (prev, c # cs, gs) else None)"

fun lit_match :: "bytes \<Rightarrow> char option \<Rightarrow> bytes \<Rightarrow> bytes list \<Rightarrow> (mstate \<Rightarrow> 'r option) \<Rightarrow> 'r option" where
  "lit_match [] prev s gs k = k (prev, s, gs)"
| "lit_match (l # ls) prev [] gs k = None"
| "lit_match (l # ls) prev (c # cs) gs k = (if l = c then lit_match ls (Some c) cs gs k else None)"

primrec rx_match :: "rx \<Rightarrow> mstate \<Rightarrow> (mstate \<Rightarrow> 'r option) \<Rightarrow> 'r option" where
  "rx_match Eps st k = k st"
| "rx_match (Lit l) st k = (case st of (prev, s, gs) \<Rightarrow> lit_match l prev s gs k)"
| "rx_match (Cls P) st k =
     (case st of (prev, s, gs) \<Rightarrow>
        (case s of [] \<Rightarrow> None | c # cs \<Rightarrow> if P c then k (Some c, cs, gs) else None))"
| "rx_match (Star P) st k = (case st of (prev, s, gs) \<Rightarrow> star_match P prev s gs k)"
| "rx_match (Rep P lo hi) st k = (case st of (prev, s, gs) \<Rightarrow> rep_match P lo hi prev s gs k)"
| "rx_match (Seq r1 r2) st k = rx_match r1 st (\<lambda>st'. rx_match r2 st' k)"
| "rx_match (Alt r1 r2) st k =
     (case rx_match r1 st k of Some r \<Rightarrow> Some r | None \<Rightarrow> rx_match r2 st k)"
| "rx_match (Grp r) st k =
     (case st of (prev, s, gs) \<Rightarrow>
        rx_match r st (\<lambda>(prev', s', gs'). k (prev', s', gs' @ [take (length s - length s') s])))"
| "rx_match LineStart st k =
     (case st of (prev, s, gs) \<Rightarrow> if prev = None \<or> prev = Some nl then k st else None)"
| "rx_match LineEnd st k =
     (case st of (prev, s, gs) \<Rightarrow> if s = [] \<or> has_prefix [nl] s then k st else None)"
| "rx_match TextStart st k = (case st of (prev, s, gs) \<Rightarrow> if prev = None then k st else None)"
| "rx_match TextEnd st k = (case st of (prev, s, gs) \<Rightarrow> if s = [] then k st else None)"

text \<open>The first position with a match: its offset, the text left after it, and its groups.\<close>

fun rx_find_from :: "rx \<Rightarrow> nat \<Rightarrow> char option \<Rightarrow> bytes \<Rightarrow> (nat \<times> bytes \<times> bytes list) option" where
  "rx_find_from r i prev [] =
     rx_match r (prev, [], []) (\<lambda>(_, s', gs). Some (i, s', gs))"
| "rx_find_from r i prev (c # cs) =
     (case rx_match r (prev, c # cs, []) (\<lambda>(_, s', gs). Some (i, s', gs)) of
        Some m \<Rightarrow> Some m
      | None \<Rightarrow> rx_find_from r (Suc i) (Some c) cs)"

text \<open>\<open>MatchString\<close>\<close>

definition rx_matches :: "rx \<Rightarrow> bytes \<Rightarrow> bool" where
  "rx_matches r s = (rx_find_from r 0 None s \<noteq> None)"

text \<open>\<open>FindStringSubmatch\<close>, without the whole match: the groups, \<open>None\<close> for no match.\<close>

definition rx_submatch :: "rx \<Rightarrow> bytes \<Rightarrow> bytes list option" where
  "rx_submatch r s = map_option (\<lambda>(_, _, gs). gs) (rx_find_from r 0 None s)"

text \<open>\<open>FindStringIndex\<close>: start and end offsets of the leftmost match.\<close>

definition rx_index :: "rx \<Rightarrow> bytes \<Rightarrow> (nat \<times> nat) option" where
  "rx_index r s = map_option (\<lambda>(i, s', _). (i, length s - length s')) (rx_find_from r 0 None s)"

subsection \<open>Building expressions\<close>

fun seqs :: "rx list \<Rightarrow> rx" where
  "seqs [] = Eps"
| "seqs [r] = r"
| "seqs (r # rs) = Seq r (seqs rs)"

fun alts :: "rx list \<Rightarrow> rx" where
  "alts [] = Eps"
| "alts [r] = r"
| "alts (r # rs) = Alt r (alts rs)"

definition opt :: "rx \<Rightarrow> rx" where "opt r = Alt r Eps"

definition plus :: "(char \<Rightarrow> bool) \<Rightarrow> rx" where "plus P = Seq (Cls P) (Star P)"

text \<open>\<open>\s\<close> is ASCII white space without the vertical tab; \<open>\S\<close> its complement; \<open>.\<close> any byte but a newline.\<close>

definition cls_s :: "char \<Rightarrow> bool" where
  "cls_s c = (c = CHR 0x20 \<or> c = CHR 0x09 \<or> c = CHR 0x0A \<or> c = CHR 0x0C \<or> c = CHR 0x0D)"

definition cls_S :: "char \<Rightarrow> bool" where "cls_S c = (\<not> cls_s c)"

definition cls_dot :: "char \<Rightarrow> bool" where "cls_dot c = (c \<noteq> nl)"

definition cls_in :: "bytes \<Rightarrow> char \<Rightarrow> bool" where "cls_in cs c = List.member cs c"

definition cls_hex_fold :: "char \<Rightarrow> bool" where
  "cls_hex_fold c = (is_digit c \<or> CHR ''a'' \<le> c \<and> c \<le> CHR ''f'' \<or> CHR ''A'' \<le> c \<and> c \<le> CHR ''F'')"

text \<open>
  A literal under \<open>(?i)\<close>: each letter matches either case; \<open>k\<close> and \<open>s\<close> also match the
  runes that fold to them (U+212A, U+017F).
\<close>

definition fold_char :: "char \<Rightarrow> rx" where
  "fold_char c =
     (let l = lower_byte c;
          u = (if CHR ''a'' \<le> l \<and> l \<le> CHR ''z'' then char_of (of_char l - 32 :: nat) else l);
          base = Cls (cls_in [l, u])
      in if l = CHR ''s'' then Alt base (Lit [CHR 0xC5, CHR 0xBF])
         else if l = CHR ''k'' then Alt base (Lit [CHR 0xE2, CHR 0x84, CHR 0xAA])
         else base)"

definition ilit :: "bytes \<Rightarrow> rx" where "ilit s = seqs (map fold_char s)"

subsection \<open>The matcher only moves forward\<close>

text \<open>The continuation that produced the result was called on a suffix of the text.\<close>

lemma star_match_suffix:
  "star_match P prev s gs k = Some r \<Longrightarrow> \<exists>prev' p s'. s = p @ s' \<and> k (prev', s', gs) = Some r"
proof (induction P prev s gs k rule: star_match.induct)
  case (2 P prev c cs gs k)
  then show ?case
    by (cases "P c") (fastforce split: option.splits intro: exI [of _ "_ # _"] exI [of _ "[]"])+
qed auto

lemma rep_match_suffix:
  "rep_match P lo hi prev s gs k = Some r \<Longrightarrow> \<exists>prev' p s'. s = p @ s' \<and> k (prev', s', gs) = Some r"
proof (induction P lo hi prev s gs k rule: rep_match.induct)
  case (2 P lo hi prev c cs gs k)
  then show ?case
    by (fastforce split: option.splits if_splits intro: exI [of _ "_ # _"] exI [of _ "[]"])
qed (auto split: if_splits)

lemma lit_match_suffix:
  "lit_match l prev s gs k = Some r \<Longrightarrow> \<exists>prev' s'. s = l @ s' \<and> k (prev', s', gs) = Some r"
  by (induction l prev s gs k rule: lit_match.induct) (auto split: if_splits)

lemma rx_match_suffix:
  "rx_match e (prev, s, gs) k = Some r \<Longrightarrow> \<exists>prev' p s' gs'. s = p @ s' \<and> k (prev', s', gs') = Some r"
proof (induction e arbitrary: prev s gs k)
  case (Lit l)
  then show ?case by (auto dest!: lit_match_suffix)
next
  case (Cls P)
  then show ?case
    by (auto split: list.splits if_splits) (metis append_Cons append_Nil)
next
  case (Star P)
  then show ?case by (auto dest!: star_match_suffix)
next
  case (Rep P lo hi)
  then show ?case by (auto dest!: rep_match_suffix)
next
  case (Seq e1 e2)
  from Seq.prems obtain prev1 p1 s1 gs1
    where 1: "s = p1 @ s1" "rx_match e2 (prev1, s1, gs1) k = Some r"
    using Seq.IH(1) [of prev s gs "\<lambda>st'. rx_match e2 st' k"] by auto
  then obtain prev2 p2 s2 gs2 where "s1 = p2 @ s2" "k (prev2, s2, gs2) = Some r"
    using Seq.IH(2) by blast
  with 1 show ?case by (metis append_assoc)
next
  case (Alt e1 e2)
  then show ?case by (auto split: option.splits)
next
  case (Grp e)
  from Grp.prems obtain prev1 p1 s1 gs1 where "s = p1 @ s1"
    "k (prev1, s1, gs1 @ [take (length s - length s1) s]) = Some r"
    using Grp.IH [of prev s gs
        "\<lambda>(prev', s', gs'). k (prev', s', gs' @ [take (length s - length s') s])"] by auto
  then show ?case by blast
qed (auto split: if_splits, (metis append_Nil)+)

lemma rx_find_from_suffix:
  "rx_find_from e i prev s = Some (j, s', gs) \<Longrightarrow> i \<le> j \<and> (\<exists>p. s = take (j - i) s @ p @ s') \<and> j - i \<le> length s"
proof (induction e i prev s rule: rx_find_from.induct)
  case (1 e i prev)
  then show ?case by (auto dest!: rx_match_suffix)
next
  case (2 e i prev c cs)
  show ?case
  proof (cases "rx_match e (prev, c # cs, []) (\<lambda>(_, s', gs). Some (i, s', gs))")
    case None
    with 2 have h: "Suc i \<le> j" "\<exists>p. cs = take (j - Suc i) cs @ p @ s'" "j - Suc i \<le> length cs"
      by auto
    then have "j - i = Suc (j - Suc i)" by simp
    with h show ?thesis by auto
  next
    case (Some m)
    with 2(2) show ?thesis by (auto dest!: rx_match_suffix)
  qed
qed

lemma rx_index_bounds:
  assumes "rx_index e s = Some (i, j)"
  shows "i \<le> j" "j \<le> length s"
proof -
  from assms obtain s' gs where "rx_find_from e 0 None s = Some (i, s', gs)" "j = length s - length s'"
    by (auto simp: rx_index_def)
  with rx_find_from_suffix [of e 0 None s i s' gs] obtain p
    where "s = take i s @ p @ s'" "i \<le> length s" and j: "j = length s - length s'" by auto
  then have "length s = i + length p + length s'"
    by (metis add.assoc length_append length_take min.absorb2)
  with j show "i \<le> j" "j \<le> length s" by auto
qed

end
