(* ===== verification/RtkFilters.thy ===== *)
theory RtkFilters
  imports GoRegexp
begin

text \<open>
  \<open>internal/rtk/filters\<close>, without the git filters: \<open>files.go\<close> (Grep, Find, SearchList),
  \<open>system.go\<close> (DedupLog, Tree, SmartTruncate, ReadNumbered, LS) and \<open>build.go\<close>.  Filters are
  functions from text to text.  A Go map whose keys are sorted before use is an association list;
  where the iteration order reaches the output (\<open>LS\<close>) it is a parameter.
\<close>

subsection \<open>Text building\<close>

definition println :: "bytes \<Rightarrow> bytes" where "println s = s @ [nl]"

definition print_lines :: "bytes list \<Rightarrow> bytes" where "print_lines ls = concat (map println ls)"

text \<open>\<open>%4s\<close> of an ASCII text.\<close>

definition pad4 :: "bytes \<Rightarrow> bytes" where "pad4 s = replicate (4 - length s) (CHR 0x20) @ s"

definition is_blank :: "bytes \<Rightarrow> bool" where "is_blank line = (trim_space line = [])"

definition nonEmptyLines :: "bytes \<Rightarrow> bytes list" where
  "nonEmptyLines input = filter (\<lambda>line. \<not> is_blank line) (split_lines input)"

text \<open>A map from a name to the entries seen under it, in order of first appearance.\<close>

fun group_add :: "bytes \<Rightarrow> 'v \<Rightarrow> (bytes \<times> 'v list) list \<Rightarrow> (bytes \<times> 'v list) list" where
  "group_add k v [] = [(k, [v])]"
| "group_add k v ((k', vs) # m) = (if k = k' then (k', vs @ [v]) # m else (k', vs) # group_add k v m)"

definition group_all :: "(bytes \<times> 'v) list \<Rightarrow> (bytes \<times> 'v list) list" where
  "group_all kvs = foldl (\<lambda>m (k, v). group_add k v m) [] kvs"

definition group_get :: "(bytes \<times> 'v list) list \<Rightarrow> bytes \<Rightarrow> 'v list" where
  "group_get m k = (case map_of m k of None \<Rightarrow> [] | Some vs \<Rightarrow> vs)"

definition group_keys :: "(bytes \<times> 'v list) list \<Rightarrow> bytes list" where
  "group_keys m = sort (map fst m)"

subsection \<open>Grep\<close>

definition grepPerFileMax :: nat where "grepPerFileMax = 10"
definition findPerDirMax :: nat where "findPerDirMax = 10"
definition findDirMax :: nat where "findDirMax = 20"

definition ascii_alpha :: "char \<Rightarrow> bool" where
  "ascii_alpha c = (CHR ''A'' \<le> c \<and> c \<le> CHR ''Z'' \<or> CHR ''a'' \<le> c \<and> c \<le> CHR ''z'')"

text \<open>A Windows drive prefix: the colon at offset 1 is not a separator.\<close>

definition drive_prefix :: "bytes \<Rightarrow> bool" where
  "drive_prefix line =
     (length line \<ge> 3 \<and> ascii_alpha (line ! 0) \<and> line ! 1 = CHR '':'' \<and> (line ! 2 = backslash \<or> line ! 2 = CHR ''/''))"

text \<open>The file, the text between the first two colons, and the rest.\<close>

definition split_colons :: "bytes \<Rightarrow> (bytes \<times> bytes \<times> bytes) option" where
  "split_colons line =
     (let start = (if drive_prefix line then 2 else 0)
      in case index_byte (CHR '':'') (drop start line) of
           None \<Rightarrow> None
         | Some firstRelative \<Rightarrow>
             (let first = start + firstRelative
              in case index_byte (CHR '':'') (drop (first + 1) line) of
                   None \<Rightarrow> None
                 | Some secondRelative \<Rightarrow>
                     (let second = first + 1 + secondRelative
                      in Some (take first line, take secondRelative (drop (first + 1) line), drop (second + 1) line))))"

definition splitGrepLine :: "bytes \<Rightarrow> (bytes \<times> bytes \<times> bytes) option" where
  "splitGrepLine line =
     (case split_colons line of
        None \<Rightarrow> None
      | Some (file, lineNumber, content) \<Rightarrow>
          if parse_uint lineNumber = None then None else Some (file, lineNumber, content))"

definition grep_file :: "(bytes \<times> (bytes \<times> bytes) list) list \<Rightarrow> bytes \<Rightarrow> bytes" where
  "grep_file byFile file =
     (let matches = group_get byFile file
      in ''[file] '' @ file @ '' ('' @ show_nat (length matches) @ ''):'' @ [nl]
         @ concat (map (\<lambda>(line, content). ''  '' @ pad4 line @ '': '' @ trim_space content @ [nl]) (take grepPerFileMax matches))
         @ (if length matches > grepPerFileMax then ''  +'' @ show_nat (length matches - grepPerFileMax) @ [nl] else [])
         @ [nl])"

definition Grep :: "bytes \<Rightarrow> bytes" where
  "Grep input =
     (let found = List.map_filter splitGrepLine (split_lines input);
          byFile = group_all (map (\<lambda>(file, line, content). (file, (line, content))) found)
      in if found = [] then input
         else
           let files = group_keys byFile
           in show_nat (length found) @ '' matches in '' @ show_nat (length files) @ ''F:'' @ [nl, nl]
              @ concat (map (grep_file byFile) files))"

subsection \<open>Find\<close>

definition path_parts :: "bytes \<Rightarrow> bytes \<times> bytes" where
  "path_parts path =
     (case (last_index_byte (CHR ''/'') path, last_index_byte backslash path) of
        (None, None) \<Rightarrow> (''.'', path)
      | (a, b) \<Rightarrow>
          (let l = max (case a of None \<Rightarrow> 0 | Some i \<Rightarrow> i) (case b of None \<Rightarrow> 0 | Some i \<Rightarrow> i);
               dir = take l path
           in (if dir = [] then ''/'' else dir, drop (l + 1) path)))"

definition slashed :: "bytes \<Rightarrow> bytes" where
  "slashed dir = map (\<lambda>c. if c = backslash then CHR ''/'' else c) dir"

definition find_dir :: "(bytes \<times> bytes list) list \<Rightarrow> bytes \<Rightarrow> bytes" where
  "find_dir byDir dir =
     (let files = group_get byDir dir
      in slashed dir @ ''/  ('' @ show_nat (length files) @ '')'' @ [nl]
         @ concat (map (\<lambda>file. ''  '' @ file @ [nl]) (take findPerDirMax files))
         @ (if length files > findPerDirMax then ''  +'' @ show_nat (length files - findPerDirMax) @ [nl] else []))"

definition Find :: "bytes \<Rightarrow> bytes" where
  "Find input =
     (let lines = nonEmptyLines input
      in if lines = [] then input
         else
           let byDir = group_all (map path_parts lines);
               dirs = group_keys byDir
           in show_nat (length lines) @ '' files in '' @ show_nat (length dirs) @ '' dirs:'' @ [nl, nl]
              @ concat (map (find_dir byDir) (take findDirMax dirs))
              @ (if length dirs > findDirMax then [nl] @ ''+'' @ show_nat (length dirs - findDirMax) @ '' more dirs'' @ [nl] else []))"

subsection \<open>SearchList\<close>

text \<open>\<open>path/filepath\<close> on a system with \<open>/\<close>: \<open>Clean\<close>, \<open>Dir\<close> and \<open>Base\<close>.\<close>

fun clean_elems :: "bool \<Rightarrow> bytes list \<Rightarrow> bytes list \<Rightarrow> bytes list" where
  "clean_elems rooted out [] = rev out"
| "clean_elems rooted out (e # es) =
     (if e = [] \<or> e = ''.'' then clean_elems rooted out es
      else if e = ''..'' then
        (case out of
           [] \<Rightarrow> clean_elems rooted (if rooted then [] else [''..'']) es
         | o' # os \<Rightarrow> clean_elems rooted (if o' = ''..'' then ''..'' # o' # os else os) es)
      else clean_elems rooted (e # out) es)"

definition path_clean :: "bytes \<Rightarrow> bytes" where
  "path_clean path =
     (if path = [] then ''.''
      else
        let rooted = has_prefix ''/'' path;
            body = join ''/'' (clean_elems rooted [] (split_byte (CHR ''/'') path))
        in if rooted then ''/'' @ body else if body = [] then ''.'' else body)"

definition path_dir :: "bytes \<Rightarrow> bytes" where
  "path_dir path =
     path_clean (case last_index_byte (CHR ''/'') path of None \<Rightarrow> [] | Some i \<Rightarrow> take (i + 1) path)"

definition path_base :: "bytes \<Rightarrow> bytes" where
  "path_base path =
     (if path = [] then ''.''
      else
        let stripped = trim_right_set ''/'' path
        in case last_index_byte (CHR ''/'') stripped of
             None \<Rightarrow> if stripped = [] then ''/'' else stripped
           | Some i \<Rightarrow> if drop (i + 1) stripped = [] then ''/'' else drop (i + 1) stripped)"

definition search_path :: "bytes \<Rightarrow> bytes option" where
  "search_path raw =
     (let trimmed = trim_space raw in if has_prefix ''- '' trimmed then Some (trim_prefix ''- '' trimmed) else None)"

definition search_dir :: "(bytes \<times> bytes list) list \<Rightarrow> bytes \<Rightarrow> bytes" where
  "search_dir byDir dir =
     (let names = group_get byDir dir
      in dir @ ''/ ('' @ show_nat (length names) @ ''):'' @ [nl]
         @ concat (map (\<lambda>name. ''  '' @ name @ [nl]) (take findPerDirMax names))
         @ (if length names > findPerDirMax then ''  +'' @ show_nat (length names - findPerDirMax) @ [nl] else [])
         @ [nl])"

definition search_header :: bytes where
  "search_header = ''Result of search in '' @ [CHR 0x27]"

definition SearchList :: "bytes \<Rightarrow> bytes" where
  "SearchList input =
     (let lines = split_lines input
      in if lines = [] \<or> \<not> has_prefix search_header (hd lines) then input
         else
           let paths = List.map_filter search_path (tl lines)
           in if paths = [] then input
              else
                let byDir = group_all (map (\<lambda>path. (let dir = path_dir path in (if dir = [] then ''.'' else dir), path_base path)) paths);
                    dirs = group_keys byDir
                in trim_right_set [nl]
                     (hd lines @ [nl] @ show_nat (length paths) @ '' files in '' @ show_nat (length dirs) @ '' dirs:'' @ [nl, nl]
                      @ concat (map (search_dir byDir) (take findDirMax dirs))
                      @ (if length dirs > findDirMax then ''+'' @ show_nat (length dirs - findDirMax) @ '' more dirs'' @ [nl] else [])))"

subsection \<open>DedupLog\<close>

definition dedupLineMax :: nat where "dedupLineMax = 2000"

record dedup_state =
  dl_out :: "bytes list"
  dl_previous :: bytes
  dl_have :: bool
  dl_run :: nat
  dl_blank :: nat

definition dedup_flush :: "dedup_state \<Rightarrow> dedup_state" where
  "dedup_flush s =
     (if dl_have s \<and> dl_run s > 1
      then s\<lparr>dl_out := dl_out s @ [''  ... ('' @ show_nat (dl_run s - 1) @ '' duplicate lines)'']\<rparr> else s)"

fun dedup_loop :: "bytes list \<Rightarrow> dedup_state \<Rightarrow> bytes" where
  "dedup_loop [] s = join_lines (dl_out (dedup_flush s))"
| "dedup_loop (line # lines) s =
     (if is_blank line then
        (let s1 = (if dl_blank s = 0 then s\<lparr>dl_out := dl_out s @ [line]\<rparr> else s);
             s2 = dedup_flush (s1\<lparr>dl_blank := dl_blank s1 + 1\<rparr>)
         in dedup_loop lines (s2\<lparr>dl_have := False, dl_run := 0\<rparr>))
      else
        (let s0 = s\<lparr>dl_blank := 0\<rparr>
         in if dl_have s0 \<and> line = dl_previous s0 then dedup_loop lines (s0\<lparr>dl_run := dl_run s0 + 1\<rparr>)
            else
              (let s1 = dedup_flush s0;
                   s2 = s1\<lparr>dl_out := dl_out s1 @ [line], dl_previous := line, dl_have := True, dl_run := 1\<rparr>
               in if length (dl_out s2) \<ge> dedupLineMax
                  then join_lines (dl_out s2 @ [''... (truncated at '' @ show_nat dedupLineMax @ '' lines)''])
                  else dedup_loop lines s2)))"

definition DedupLog :: "bytes \<Rightarrow> bytes" where
  "DedupLog input =
     dedup_loop (split_lines input) \<lparr>dl_out = [], dl_previous = [], dl_have = False, dl_run = 0, dl_blank = 0\<rparr>"

subsection \<open>Tree\<close>

definition treeMaxLines :: nat where "treeMaxLines = 200"

fun tree_filter :: "bytes list \<Rightarrow> bytes list \<Rightarrow> bytes list" where
  "tree_filter filtered [] = filtered"
| "tree_filter filtered (line # lines) =
     (if contains ''director'' line \<and> contains ''file'' line then tree_filter filtered lines
      else if filtered = [] \<and> is_blank line then tree_filter filtered lines
      else tree_filter (filtered @ [line]) lines)"

definition drop_trailing_blank :: "bytes list \<Rightarrow> bytes list" where
  "drop_trailing_blank ls = rev (dropWhile is_blank (rev ls))"

definition Tree :: "bytes \<Rightarrow> bytes" where
  "Tree input =
     (let filtered = drop_trailing_blank (tree_filter [] (split_lines input))
      in if length filtered > treeMaxLines
         then join_lines (take treeMaxLines filtered) @ [nl] @ ''... +'' @ show_nat (length filtered - treeMaxLines) @ '' more lines''
         else join_lines filtered)"

subsection \<open>SmartTruncate and ReadNumbered\<close>

definition smartHeadLines :: nat where "smartHeadLines = 120"
definition smartTailLines :: nat where "smartTailLines = 60"
definition smartMinLines :: nat where "smartMinLines = 250"

definition SmartTruncate :: "bytes \<Rightarrow> bytes" where
  "SmartTruncate input =
     (let lines = split_lines input
      in if length lines < smartMinLines then input
         else
           let cut = length lines - smartHeadLines - smartTailLines
           in join_lines (take smartHeadLines lines @ [''... +'' @ show_nat cut @ '' lines truncated'']
                @ drop (length lines - smartTailLines) lines))"

definition ReadNumbered :: "bytes \<Rightarrow> bytes" where
  "ReadNumbered input =
     (let lines = split_lines input
      in if length lines < smartMinLines then input
         else
           let cut = length lines - smartHeadLines - smartTailLines
           in join_lines (take smartHeadLines lines @ [''... +'' @ show_nat cut @ '' lines truncated (file continues)'']
                @ drop (length lines - smartTailLines) lines))"

subsection \<open>LS\<close>

definition lsExtensionSummary :: nat where "lsExtensionSummary = 5"

definition lsDate :: rx where
  "lsDate = seqs [plus cls_s,
     Grp (alts (map Lit [''Jan'', ''Feb'', ''Mar'', ''Apr'', ''May'', ''Jun'', ''Jul'', ''Aug'', ''Sep'', ''Oct'', ''Nov'', ''Dec''])),
     plus cls_s, Rep is_digit 1 2, plus cls_s,
     Grp (Alt (Rep is_digit 4 4) (seqs [Rep is_digit 2 2, Lit '':'', Rep is_digit 2 2])), plus cls_s]"

definition noiseNames :: "bytes list" where
  "noiseNames = [''node_modules'', ''.git'', ''target'', ''__pycache__'', ''.next'', ''dist'', ''build'', ''.cache'',
     ''.turbo'', ''.vercel'', ''.pytest_cache'', ''.mypy_cache'', ''.tox'', ''.venv'', ''venv'', ''env'', ''coverage'',
     ''.nyc_output'', ''.DS_Store'', ''Thumbs.db'', ''.idea'', ''.vscode'', ''.vs'', ''.eggs'']"

record ls_entry =
  le_name :: bytes
  le_size :: int
  le_dir :: bool

text \<open>The size is the last field that reads as an integer.\<close>

definition last_int :: "bytes list \<Rightarrow> int" where
  "last_int fs = (case List.map_filter parse_int (rev fs) of [] \<Rightarrow> 0 | n # _ \<Rightarrow> n)"

definition ls_line :: "bytes \<Rightarrow> ls_entry option" where
  "ls_line line =
     (if line = [] \<or> has_prefix ''total '' line then None
      else (case rx_index lsDate line of
        None \<Rightarrow> None
      | Some (m0, m1) \<Rightarrow>
          (let name = drop m1 line
           in if name = ''.'' \<or> name = ''..'' then None
              else if List.member noiseNames name then None
              else
                let fs = GoStrings.fields (take m0 line)
                in if length fs < 4 \<or> fs ! 0 = [] then None
                   else
                     let kind = fs ! 0 ! 0
                     in if kind = CHR ''d'' \<or> kind = CHR ''-'' \<or> kind = CHR ''l''
                        then Some \<lparr>le_name = name, le_size = last_int fs, le_dir = (kind = CHR ''d'')\<rparr>
                        else None)))"

text \<open>
  \<open>float64(size)\<close> keeps 53 significant bits; the divisor is a power of two, so the quotient is
  exact, and \<open>%.1f\<close> rounds its tenth half to even.
\<close>

definition half_even :: "nat \<Rightarrow> nat \<Rightarrow> nat" where
  "half_even n d =
     (let q = n div d; r = n mod d
      in if 2 * r > d \<or> (2 * r = d \<and> odd q) then q + 1 else q)"

function round53 :: "nat \<Rightarrow> nat \<Rightarrow> nat" where
  "round53 scale n = (if n div scale < 2 ^ 53 \<or> scale = 0 then half_even n scale * scale else round53 (2 * scale) n)"
  by pat_completeness auto
termination
proof (relation "measure (\<lambda>(scale, n). n div scale)", goal_cases)
  case (2 scale n)
  then have "0 < n div scale" by simp
  have "n div (2 * scale) = n div scale div 2" by (simp add: div_mult2_eq mult.commute)
  with \<open>0 < n div scale\<close> show ?case by simp
qed simp

declare round53.simps [simp del]

definition float64_of :: "nat \<Rightarrow> nat" where
  "float64_of n = (if n < 2 ^ 53 then n else round53 1 n)"

definition one_decimal :: "nat \<Rightarrow> nat \<Rightarrow> bytes" where
  "one_decimal n d = (let t = half_even (10 * n) d in show_nat (t div 10) @ ''.'' @ show_nat (t mod 10))"

definition humanSize :: "int \<Rightarrow> bytes" where
  "humanSize sz =
     (if sz \<ge> 1048576 then one_decimal (float64_of (nat sz)) 1048576 @ ''M''
      else if sz \<ge> 1024 then one_decimal (float64_of (nat sz)) 1024 @ ''K''
      else show_int sz @ ''B'')"

definition extension_of :: "bytes \<Rightarrow> bytes" where
  "extension_of name =
     (case last_index_byte (CHR ''.'') name of
        Some dot \<Rightarrow> if dot > 0 then drop dot name else ''no ext''
      | None \<Rightarrow> ''no ext'')"

definition ls_row :: "ls_entry \<Rightarrow> bytes" where
  "ls_row e = (if le_dir e then le_name e @ ''/'' @ [nl] else le_name e @ ''  '' @ humanSize (le_size e) @ [nl])"

text \<open>\<open>ord\<close> is the order in which Go iterates over the extension counters.\<close>

definition ls_summary :: "(bytes list \<Rightarrow> bytes list) \<Rightarrow> ls_entry list \<Rightarrow> bytes" where
  "ls_summary ord entries =
     (let names = map (\<lambda>e. extension_of (le_name e)) (filter (\<lambda>e. \<not> le_dir e) entries);
          counts = sort_key (\<lambda>(ext, n). - int n) (map (\<lambda>ext. (ext, count_list names ext)) (ord (remdups names)));
          parts = map (\<lambda>(ext, n). show_nat n @ '' '' @ ext) (take lsExtensionSummary counts)
            @ (if length counts > lsExtensionSummary then [''+'' @ show_nat (length counts - lsExtensionSummary) @ '' more''] else [])
      in if counts = [] then [] else '' ('' @ join '', '' parts @ '')'')"

definition LS :: "(bytes list \<Rightarrow> bytes list) \<Rightarrow> bytes \<Rightarrow> bytes" where
  "LS ord input =
     (let entries = List.map_filter ls_line (split_lines input)
      in if entries = [] then input
         else concat (map ls_row entries)
              @ [nl] @ ''Summary: '' @ show_nat (length (filter (\<lambda>e. \<not> le_dir e) entries)) @ '' files, ''
              @ show_nat (length (filter le_dir entries)) @ '' dirs''
              @ ls_summary ord entries)"

subsection \<open>BuildOutput\<close>

definition cargoContinuation :: rx where
  "cargoContinuation = seqs [TextStart, Star cls_s,
     Grp (alts [Lit ''-->'', Lit ''|'', seqs [plus is_digit, Star cls_s, Lit ''|''], Lit ''=''])]"

definition buildCompiling :: rx where
  "buildCompiling = seqs [TextStart, Star cls_s, ilit ''Compiling'', plus cls_s, plus cls_S]"

definition buildDownloading :: rx where
  "buildDownloading = seqs [TextStart, Star cls_s,
     Grp (Alt (seqs [ilit ''Downloading'', plus cls_s, plus cls_S]) (Seq (ilit ''Fetching'') (plus cls_s)))]"

definition buildSummary :: rx where
  "buildSummary = alts
     [seqs [TextStart, Grp (alts (map ilit [''added'', ''removed'', ''changed'', ''audited'', ''installed''])), plus cls_s,
        plus is_digit, plus cls_s, ilit ''package''],
      seqs [TextStart, Star cls_s, ilit ''Finished'', plus cls_s],
      Seq TextStart (ilit ''BUILD SUCCESS''),
      seqs [TextStart, plus is_digit, plus cls_s,
        Grp (alts [ilit ''vulnerabilities'', Seq (ilit ''package'') (opt (ilit ''s'')), Seq (ilit ''warning'') (opt (ilit ''s'')),
          Seq (ilit ''error'') (opt (ilit ''s''))])],
      seqs [TextStart, ilit ''Successfully '', Grp (Alt (ilit ''installed'') (ilit ''built''))],
      seqs [TextStart, ilit ''To address '', Star cls_dot, ilit '' issues''],
      seqs [TextStart, ilit ''Run `npm '', Grp (Alt (ilit ''audit'') (ilit ''fund'')), ilit ''`''],
      ilit ''packages are looking for funding'']"

record build_state =
  bs_errors :: "bytes list"
  bs_warnings :: "bytes list"
  bs_deprecations :: "bytes list"
  bs_summaries :: "bytes list"
  bs_compiling :: nat
  bs_downloading :: nat
  bs_in_cargo :: bool

definition starts :: "bytes \<Rightarrow> bytes list \<Rightarrow> bool" where
  "starts s ps = list_ex (\<lambda>p. has_prefix p s) ps"

text \<open>The switch on one line that no compiler message claims.\<close>

definition build_line :: "bytes \<Rightarrow> build_state \<Rightarrow> build_state" where
  "build_line line s =
     (let trimmed = trim_space line; lower = to_lower trimmed
      in if starts lower [''npm err!'', ''npm error'', ''yarn error''] then s\<lparr>bs_errors := bs_errors s @ [line]\<rparr>
         else if starts lower [''npm warn deprecated''] then s\<lparr>bs_deprecations := bs_deprecations s @ [line]\<rparr>
         else if starts lower [''npm warn'', ''yarn warn''] then s\<lparr>bs_warnings := bs_warnings s @ [line]\<rparr>
         else if starts lower [''error['', ''error:'', ''error -->'']
           then s\<lparr>bs_errors := bs_errors s @ [line], bs_in_cargo := True\<rparr>
         else if starts lower [''warning['', ''warning:'', ''warning -->'']
           then s\<lparr>bs_warnings := bs_warnings s @ [line], bs_in_cargo := True\<rparr>
         else if starts lower [''error:'', ''[error]'', ''build failed''] then s\<lparr>bs_errors := bs_errors s @ [line]\<rparr>
         else if starts lower [''[warning]''] then s\<lparr>bs_warnings := bs_warnings s @ [line]\<rparr>
         else if rx_matches buildCompiling trimmed then s\<lparr>bs_compiling := bs_compiling s + 1\<rparr>
         else if rx_matches buildDownloading trimmed then s\<lparr>bs_downloading := bs_downloading s + 1\<rparr>
         else if rx_matches buildSummary trimmed then s\<lparr>bs_summaries := bs_summaries s @ [line]\<rparr>
         else s)"

definition build_step :: "bytes \<Rightarrow> build_state \<Rightarrow> build_state" where
  "build_step line s =
     (let trimmed = trim_space line
      in if bs_in_cargo s then
           (if trimmed = [] then s\<lparr>bs_in_cargo := False\<rparr>
            else if rx_matches cargoContinuation line then s\<lparr>bs_errors := bs_errors s @ [line]\<rparr>
            else build_line line (s\<lparr>bs_in_cargo := False\<rparr>))
         else if trimmed = [] then s
         else build_line line s)"

definition build_render :: "build_state \<Rightarrow> bytes" where
  "build_render s =
     print_lines (take 3 (bs_deprecations s))
     @ (if length (bs_deprecations s) > 3
        then ''... +'' @ show_nat (length (bs_deprecations s) - 3) @ '' more deprecated packages'' @ [nl] else [])
     @ (if bs_compiling s > 0 then ''Compiled '' @ show_nat (bs_compiling s) @ '' packages'' @ [nl] else [])
     @ (if bs_downloading s > 0 then ''Downloaded '' @ show_nat (bs_downloading s) @ '' packages'' @ [nl] else [])
     @ print_lines (bs_errors s)
     @ print_lines (take 5 (bs_warnings s))
     @ (if length (bs_warnings s) > 5
        then ''... +'' @ show_nat (length (bs_warnings s) - 5) @ '' more warnings'' @ [nl] else [])
     @ print_lines (bs_summaries s)"

definition BuildOutput :: "bytes \<Rightarrow> bytes" where
  "BuildOutput input =
     (if input = [] then input
      else
        let s = foldl (\<lambda>s line. build_step line s)
                  \<lparr>bs_errors = [], bs_warnings = [], bs_deprecations = [], bs_summaries = [],
                   bs_compiling = 0, bs_downloading = 0, bs_in_cargo = False\<rparr> (split_lines input);
            result = trim_right_set [nl] (build_render s)
        in if result = [] then input else result)"

end
