(* ===== verification/RtkGit.thy ===== *)
theory RtkGit
  imports RtkFilters
begin

text \<open>\<open>internal/rtk/filters/git.go\<close>: the compactors of \<open>git diff\<close>, \<open>git log\<close> and \<open>git status\<close> output.\<close>

definition gitDiffHunkMaxLines :: nat where "gitDiffHunkMaxLines = 100"
definition gitLogMaxLines :: nat where "gitLogMaxLines = 200"
definition statusMaxFiles :: nat where "statusMaxFiles = 10"

definition cls_graph :: "char \<Rightarrow> bool" where "cls_graph c = (c = CHR ''*'' \<or> c = CHR ''|'' \<or> c = CHR ''/'' \<or> c = backslash \<or> c = CHR 0x20)"

definition gitCommitLine :: rx where
  "gitCommitLine = seqs [TextStart, ilit ''commit '', Rep cls_hex_fold 7 40, TextEnd]"
definition gitGraphCommitLine :: rx where
  "gitGraphCommitLine = seqs [TextStart, plus cls_graph, ilit ''commit '', Rep cls_hex_fold 7 40]"
definition gitGraphOneline :: rx where
  "gitGraphOneline = seqs [TextStart, plus cls_graph, Grp (seqs [Rep cls_hex_fold 7 40, plus cls_s, plus cls_dot])]"
definition gitPlainOneline :: rx where
  "gitPlainOneline = seqs [TextStart, Rep cls_hex_fold 7 40, plus cls_s]"
definition gitGraphOnly :: rx where
  "gitGraphOnly = seqs [TextStart, plus cls_graph, TextEnd]"
definition gitAuthorDate :: rx where
  "gitAuthorDate = seqs [TextStart, Star cls_graph, Grp (Alt (ilit ''Author'') (ilit ''Date'')), Lit '':'']"
definition gitSubject :: rx where
  "gitSubject = seqs [TextStart, Star cls_graph, Lit ''    '', Cls cls_S]"
definition gitStatSummary :: rx where
  "gitStatSummary = seqs [TextStart, plus is_digit, Lit '' file'', opt (Lit ''s''), Lit '' changed'']"
definition longStatus :: rx where
  "longStatus = seqs [TextStart, Star cls_s,
     Grp (alts (map Lit [''modified'', ''new file'', ''deleted'', ''renamed'', ''copied'', ''typechange'', ''both deleted'',
       ''added by us'', ''deleted by them'', ''added by them'', ''deleted by us'', ''both added'', ''both modified''])),
     Lit '':'', plus cls_s, Grp (plus cls_dot), TextEnd]"

subsection \<open>GitDiff\<close>

record diff_state =
  gd_result :: "bytes list"
  gd_file :: bytes
  gd_added :: nat
  gd_removed :: nat
  gd_in_hunk :: bool
  gd_shown :: nat
  gd_skipped :: nat
  gd_truncated :: bool

definition diff_push :: "bytes \<Rightarrow> diff_state \<Rightarrow> diff_state" where
  "diff_push line s = s\<lparr>gd_result := gd_result s @ [line]\<rparr>"

definition flushSkipped :: "diff_state \<Rightarrow> diff_state" where
  "flushSkipped s =
     (if gd_skipped s > 0
      then (diff_push (''  ... ('' @ show_nat (gd_skipped s) @ '' lines truncated)'') s)\<lparr>gd_truncated := True, gd_skipped := 0\<rparr>
      else s)"

definition flushCounts :: "diff_state \<Rightarrow> diff_state" where
  "flushCounts s =
     (if gd_file s \<noteq> [] \<and> (gd_added s > 0 \<or> gd_removed s > 0)
      then diff_push (''  +'' @ show_nat (gd_added s) @ '' -'' @ show_nat (gd_removed s)) s else s)"

definition diff_file :: "bytes \<Rightarrow> bytes" where
  "diff_file line =
     (let parts = split_str '' b/'' line
      in if length parts > 1 then join '' b/'' (drop 1 parts) else ''unknown'')"

definition added_line :: "bytes \<Rightarrow> bool" where
  "added_line line = (has_prefix ''+'' line \<and> \<not> has_prefix ''+++'' line)"

definition removed_line :: "bytes \<Rightarrow> bool" where
  "removed_line line = (has_prefix ''-'' line \<and> \<not> has_prefix ''---'' line)"

text \<open>The switch on one line.\<close>

definition diff_line :: "bytes \<Rightarrow> diff_state \<Rightarrow> diff_state" where
  "diff_line line s =
     (if has_prefix ''diff --git'' line then
        (let s1 = flushCounts (flushSkipped s);
             s2 = s1\<lparr>gd_file := diff_file line\<rparr>
         in (diff_push (nl # gd_file s2) s2)\<lparr>gd_added := 0, gd_removed := 0, gd_shown := 0, gd_in_hunk := False\<rparr>)
      else if has_prefix ''@@'' line then
        diff_push (''  '' @ line) ((flushSkipped s)\<lparr>gd_in_hunk := True, gd_shown := 0\<rparr>)
      else if gd_in_hunk s then
        (let s1 = (if added_line line then s\<lparr>gd_added := gd_added s + 1\<rparr>
                   else if removed_line line then s\<lparr>gd_removed := gd_removed s + 1\<rparr> else s)
         in if added_line line \<or> removed_line line then
              (if gd_shown s1 < gitDiffHunkMaxLines then (diff_push (''  '' @ line) s1)\<lparr>gd_shown := gd_shown s1 + 1\<rparr>
               else s1\<lparr>gd_skipped := gd_skipped s1 + 1\<rparr>)
            else if gd_shown s1 > 0 \<and> gd_shown s1 < gitDiffHunkMaxLines \<and> \<not> has_prefix [backslash] line
              then (diff_push (''  '' @ line) s1)\<lparr>gd_shown := gd_shown s1 + 1\<rparr>
            else s1)
      else s)"

fun diff_loop :: "bytes list \<Rightarrow> diff_state \<Rightarrow> diff_state" where
  "diff_loop [] s = s"
| "diff_loop (line # lines) s =
     (let s1 = diff_line line s
      in if length (gd_result s1) \<ge> 500
         then (diff_push ([nl] @ ''... (more changes truncated)'') s1)\<lparr>gd_truncated := True\<rparr>
         else diff_loop lines s1)"

definition diff_start :: diff_state where
  "diff_start = \<lparr>gd_result = [], gd_file = [], gd_added = 0, gd_removed = 0, gd_in_hunk = False,
     gd_shown = 0, gd_skipped = 0, gd_truncated = False\<rparr>"

definition GitDiff :: "bytes \<Rightarrow> bytes" where
  "GitDiff input =
     (let s = flushCounts (flushSkipped (diff_loop (split_lines input) diff_start));
          s1 = (if gd_truncated s then diff_push ''[full diff: rtk git diff --no-compact]'' s else s)
      in join_lines (gd_result s1))"

subsection \<open>GitLog\<close>

record log_state =
  gl_out :: "bytes list"
  gl_skipped :: nat
  gl_in_commit :: bool
  gl_subject :: bool

definition log_push :: "bytes \<Rightarrow> log_state \<Rightarrow> log_state" where
  "log_push line s =
     (if length (gl_out s) < gitLogMaxLines then s\<lparr>gl_out := gl_out s @ [line]\<rparr> else s\<lparr>gl_skipped := gl_skipped s + 1\<rparr>)"

definition log_step :: "bytes \<Rightarrow> log_state \<Rightarrow> log_state" where
  "log_step raw s =
     (let line = trim_right_set [CHR 0x0D, CHR 0x09, CHR 0x20] raw;
          trimmed = trim_space line
      in if rx_matches gitCommitLine trimmed \<or> rx_matches gitGraphCommitLine trimmed then
           log_push line (s\<lparr>gl_in_commit := True, gl_subject := False\<rparr>)
         else if gl_in_commit s then
           (if rx_matches gitAuthorDate trimmed then log_push trimmed s
            else if trimmed = [] then s
            else if \<not> gl_subject s \<and> rx_matches gitSubject line
              then (log_push (''  Subject: '' @ trimmed) s)\<lparr>gl_subject := True\<rparr>
            else if rx_matches gitStatSummary trimmed then log_push (''  '' @ trimmed) s
            else if has_prefix ''diff --git '' trimmed then log_push ''  ... diff body omitted'' s
            else s)
         else (case rx_submatch gitGraphOneline trimmed of
                 Some [hash] \<Rightarrow> log_push hash s
               | _ \<Rightarrow>
                   if rx_matches gitPlainOneline trimmed then log_push trimmed s
                   else if \<not> (rx_matches gitGraphOnly trimmed \<and> contains_any [CHR ''*'', CHR ''|'', CHR ''/'', backslash] trimmed)
                     then log_push trimmed s
                   else s))"

definition GitLog :: "bytes \<Rightarrow> bytes" where
  "GitLog input =
     (if input = [] then []
      else
        let s = foldl (\<lambda>s raw. log_step raw s) \<lparr>gl_out = [], gl_skipped = 0, gl_in_commit = False, gl_subject = False\<rparr>
                  (split_lines input);
            out = (if gl_skipped s > 0 then gl_out s @ [''... ('' @ show_nat (gl_skipped s) @ '' more lines)''] else gl_out s);
            result = join_lines out
        in if result = [] \<or> length result > length input then input else result)"

subsection \<open>GitStatus\<close>

datatype status_section = NoSection | SectionStaged | SectionModified | SectionUntracked | SectionConflicts

record status_state =
  st_branch :: bytes
  st_staged :: "bytes list"
  st_modified :: "bytes list"
  st_untracked :: "bytes list"
  st_conflicts :: nat
  st_section :: status_section
  st_has_entry :: bool
  st_unreliable :: bool
  st_clean :: bool
  st_porcelain_header :: bool
  st_porcelain_entry :: bool

definition status_start :: status_state where
  "status_start = \<lparr>st_branch = [], st_staged = [], st_modified = [], st_untracked = [], st_conflicts = 0,
     st_section = NoSection, st_has_entry = False, st_unreliable = False, st_clean = False,
     st_porcelain_header = False, st_porcelain_entry = False\<rparr>"

definition finishSection :: "status_state \<Rightarrow> status_state" where
  "finishSection s =
     (if st_section s \<noteq> NoSection \<and> \<not> st_has_entry s then s\<lparr>st_unreliable := True\<rparr> else s)
       \<lparr>st_section := NoSection, st_has_entry := False\<rparr>"

definition startSection :: "status_section \<Rightarrow> status_state \<Rightarrow> status_state" where
  "startSection next s = (finishSection s)\<lparr>st_section := next\<rparr>"

text \<open>The unindented headings; \<open>None\<close> when the line is none of them.\<close>

definition status_heading :: "bytes \<Rightarrow> status_state \<Rightarrow> status_state option" where
  "status_heading trimmed s =
     (if trimmed = ''Changes to be committed:'' then Some (startSection SectionStaged s)
      else if trimmed = ''Changes not staged for commit:'' then Some (startSection SectionModified s)
      else if trimmed = ''Untracked files:'' then Some (startSection SectionUntracked s)
      else if trimmed = ''Unmerged paths:'' then Some (startSection SectionConflicts s)
      else if trimmed = ''nothing to commit, working tree clean'' then Some ((finishSection s)\<lparr>st_clean := True\<rparr>)
      else if has_prefix ''no changes added to commit'' trimmed
           \<or> has_prefix ''nothing added to commit but untracked files present'' trimmed then Some (finishSection s)
      else None)"

definition unreliable :: "status_state \<Rightarrow> status_state" where
  "unreliable s = s\<lparr>st_unreliable := True\<rparr>"

text \<open>A line inside a section.\<close>

definition status_entry :: "bool \<Rightarrow> bytes \<Rightarrow> bytes \<Rightarrow> status_state \<Rightarrow> status_state" where
  "status_entry indented raw trimmed s =
     (if trimmed = [] \<or> has_prefix ''(use '' trimmed then s
      else if st_section s = SectionUntracked then
        (if \<not> indented then unreliable s
         else s\<lparr>st_untracked := st_untracked s @ [trimmed], st_has_entry := True\<rparr>)
      else (case rx_submatch longStatus raw of
        Some [kind, rest] \<Rightarrow>
          (let file = trim_space rest
           in if file = [] then unreliable s
              else (case st_section s of
                SectionStaged \<Rightarrow>
                  if List.member [''modified'', ''new file'', ''deleted'', ''renamed'', ''copied'', ''typechange''] kind
                  then s\<lparr>st_staged := st_staged s @ [file], st_has_entry := True\<rparr> else unreliable s
              | SectionModified \<Rightarrow>
                  if List.member [''modified'', ''deleted'', ''typechange''] kind
                  then s\<lparr>st_modified := st_modified s @ [file], st_has_entry := True\<rparr> else unreliable s
              | SectionConflicts \<Rightarrow>
                  if List.member [''both deleted'', ''added by us'', ''deleted by them'', ''added by them'',
                                  ''deleted by us'', ''both added'', ''both modified''] kind
                  then s\<lparr>st_conflicts := st_conflicts s + 1, st_has_entry := True\<rparr> else unreliable s
              | _ \<Rightarrow> s\<lparr>st_has_entry := True\<rparr>))
      | _ \<Rightarrow> unreliable s))"

text \<open>A porcelain line: two status letters, a blank, the path.\<close>

definition status_porcelain :: "bytes \<Rightarrow> status_state \<Rightarrow> status_state" where
  "status_porcelain raw s =
     (if length raw \<ge> 3 \<and> raw ! 2 = CHR 0x20 then
        (let s0 = s\<lparr>st_porcelain_entry := True\<rparr>;
             x = raw ! 0; y = raw ! 1; file = drop 3 raw
         in if x = CHR ''?'' \<and> y = CHR ''?'' then s0\<lparr>st_untracked := st_untracked s0 @ [file]\<rparr>
            else
              let s1 = (if List.member ''MADRC'' x then s0\<lparr>st_staged := st_staged s0 @ [file]\<rparr>
                        else if x = CHR ''U'' then s0\<lparr>st_conflicts := st_conflicts s0 + 1\<rparr> else s0)
              in if y = CHR ''M'' \<or> y = CHR ''D'' then s1\<lparr>st_modified := st_modified s1 @ [file]\<rparr> else s1)
      else s)"

definition status_step :: "bytes \<Rightarrow> status_state \<Rightarrow> status_state" where
  "status_step raw s =
     (let trimmed = trim_space raw;
          indented = (length (trim_left_set [CHR 0x20, CHR 0x09] raw) \<noteq> length raw)
      in case (if \<not> indented then status_heading trimmed s else None) of
           Some s' \<Rightarrow> s'
         | None \<Rightarrow>
             if has_prefix ''On branch '' raw then s\<lparr>st_branch := trim_space (trim_prefix ''On branch '' raw)\<rparr>
             else if has_prefix ''##'' raw
               then s\<lparr>st_branch := trim_space (trim_prefix ''##'' raw), st_porcelain_header := True\<rparr>
             else if st_section s \<noteq> NoSection then status_entry indented raw trimmed s
             else status_porcelain raw s)"

definition writeStatusGroup :: "bytes \<Rightarrow> bytes list \<Rightarrow> bytes" where
  "writeStatusGroup label files =
     (if files = [] then []
      else
        let limit = min (length files) statusMaxFiles
        in label @ '': '' @ show_nat (length files) @ '' files'' @ [nl]
           @ concat (map (\<lambda>file. ''   '' @ file @ [nl]) (take limit files))
           @ (if length files > limit then ''   ... +'' @ show_nat (length files - limit) @ '' more'' @ [nl] else []))"

definition status_changes :: "status_state \<Rightarrow> nat" where
  "status_changes s = length (st_staged s) + length (st_modified s) + length (st_untracked s) + st_conflicts s"

definition clean_marker :: bytes where
  "clean_marker = ''clean '' @ [CHR 0xE2, CHR 0x80, CHR 0x94] @ '' nothing to commit'' @ [nl]"

text \<open>The report of a finished parse; \<open>None\<close> where the code returns its input.\<close>

definition status_report :: "status_state \<Rightarrow> bytes option" where
  "status_report s =
     (if st_unreliable s then None
      else if st_clean s \<and> status_changes s > 0 then None
      else if status_changes s = 0 \<and> \<not> st_clean s \<and> \<not> (st_porcelain_header s \<and> \<not> st_porcelain_entry s) then None
      else Some (trim_right_set [nl]
        ((if st_branch s \<noteq> [] then ''* '' @ st_branch s @ [nl] else [])
         @ writeStatusGroup ''+ Staged'' (st_staged s)
         @ writeStatusGroup ''~ Modified'' (st_modified s)
         @ writeStatusGroup ''? Untracked'' (st_untracked s)
         @ (if st_conflicts s > 0 then ''conflicts: '' @ show_nat (st_conflicts s) @ '' files'' @ [nl] else [])
         @ (if status_changes s = 0 then clean_marker else []))))"

definition status_parse :: "bytes \<Rightarrow> status_state" where
  "status_parse input = finishSection (foldl (\<lambda>s raw. status_step raw s) status_start (split_lines input))"

definition GitStatus :: "bytes \<Rightarrow> bytes" where
  "GitStatus input =
     (if is_blank input then input
      else (case status_report (status_parse input) of None \<Rightarrow> input | Some out \<Rightarrow> out))"

end
