(* ===== verification/GoJson.thy ===== *)
theory GoJson
  imports GoStrings
begin

text \<open>
  The part of \<open>encoding/json\<close> and \<open>unicode/utf8\<close> the program relies on: encoding of a
  string as a JSON literal (HTML characters escaped, invalid UTF-8 replaced), the syntax
  check \<open>Valid\<close>, and decoding into a value with number literals kept as text
  (\<open>UseNumber\<close>).  Objects keep their members in source order, duplicates included.
\<close>

subsection \<open>UTF-8\<close>

definition byte_in :: "char \<Rightarrow> char \<Rightarrow> char \<Rightarrow> bool" where
  "byte_in lo hi c = (lo \<le> c \<and> c \<le> hi)"

abbreviation cont_byte :: "char \<Rightarrow> bool" where
  "cont_byte \<equiv> byte_in (CHR 0x80) (CHR 0xBF)"

text \<open>The bytes that may follow a three- or four-byte lead.\<close>

definition second3 :: "char \<Rightarrow> char \<Rightarrow> bool" where
  "second3 a b =
     (if a = CHR 0xE0 then byte_in (CHR 0xA0) (CHR 0xBF) b
      else if a = CHR 0xED then byte_in (CHR 0x80) (CHR 0x9F) b
      else cont_byte b)"

definition second4 :: "char \<Rightarrow> char \<Rightarrow> bool" where
  "second4 a b =
     (if a = CHR 0xF0 then byte_in (CHR 0x90) (CHR 0xBF) b
      else if a = CHR 0xF4 then byte_in (CHR 0x80) (CHR 0x8F) b
      else cont_byte b)"

text \<open>The width of the well-formed rune at the head; 0 where \<open>DecodeRune\<close> gives \<open>RuneError, 1\<close>.\<close>

fun rune_width :: "bytes \<Rightarrow> nat" where
  "rune_width [] = 0"
| "rune_width (a # r) =
     (if a < CHR 0x80 then 1
      else if byte_in (CHR 0xC2) (CHR 0xDF) a
        then (case r of b # _ \<Rightarrow> if cont_byte b then 2 else 0 | _ \<Rightarrow> 0)
      else if byte_in (CHR 0xE0) (CHR 0xEF) a
        then (case r of b # c # _ \<Rightarrow> if second3 a b \<and> cont_byte c then 3 else 0 | _ \<Rightarrow> 0)
      else if byte_in (CHR 0xF0) (CHR 0xF4) a
        then (case r of b # c # d # _ \<Rightarrow> if second4 a b \<and> cont_byte c \<and> cont_byte d then 4 else 0 | _ \<Rightarrow> 0)
      else 0)"

definition replacement :: bytes where
  "replacement = [CHR 0xEF, CHR 0xBF, CHR 0xBD]"

text \<open>Every ill-formed byte replaced by U+FFFD: what a JSON round trip makes of a string.\<close>

fun to_valid :: "bytes \<Rightarrow> bytes" where
  "to_valid [] = []"
| "to_valid (c # cs) =
     (if rune_width (c # cs) = 0 then replacement @ to_valid cs
      else c # take (rune_width (c # cs) - 1) cs @ to_valid (drop (rune_width (c # cs) - 1) cs))"

definition valid_utf8 :: "bytes \<Rightarrow> bool" where
  "valid_utf8 s = (to_valid s = s)"

subsection \<open>Encoding a string\<close>

definition hex_digit :: "nat \<Rightarrow> char" where
  "hex_digit d = ''0123456789abcdef'' ! d"

definition quote :: char where "quote = CHR 0x22"

definition esc_ascii :: "bool \<Rightarrow> char \<Rightarrow> bytes" where
  "esc_ascii html c =
     (if c = quote \<or> c = backslash then [backslash, c]
      else if c = CHR 0x08 then [backslash, CHR ''b'']
      else if c = CHR 0x0C then [backslash, CHR ''f'']
      else if c = CHR 0x0A then [backslash, CHR ''n'']
      else if c = CHR 0x0D then [backslash, CHR ''r'']
      else if c = CHR 0x09 then [backslash, CHR ''t'']
      else if c < CHR 0x20 \<or> html \<and> (c = CHR ''<'' \<or> c = CHR ''>'' \<or> c = CHR ''&'')
        then backslash # ''u00'' @ [hex_digit (of_char c div 16), hex_digit (of_char c mod 16)]
      else [c])"

definition line_sep :: bytes where "line_sep = [CHR 0xE2, CHR 0x80, CHR 0xA8]"
definition para_sep :: bytes where "para_sep = [CHR 0xE2, CHR 0x80, CHR 0xA9]"

fun json_esc :: "bool \<Rightarrow> bytes \<Rightarrow> bytes" where
  "json_esc html [] = []"
| "json_esc html (c # cs) =
     (if c < CHR 0x80 then esc_ascii html c @ json_esc html cs
      else if rune_width (c # cs) = 0 then backslash # ''ufffd'' @ json_esc html cs
      else (if has_prefix line_sep (c # cs) then backslash # ''u2028''
            else if has_prefix para_sep (c # cs) then backslash # ''u2029''
            else c # take (rune_width (c # cs) - 1) cs)
           @ json_esc html (drop (rune_width (c # cs) - 1) cs))"

text \<open>\<open>json.Marshal\<close> of a string; an \<open>Encoder\<close> with \<open>SetEscapeHTML(false)\<close> uses \<open>html = False\<close>.\<close>

definition json_quote :: "bool \<Rightarrow> bytes \<Rightarrow> bytes" where
  "json_quote html s = quote # json_esc html s @ [quote]"

definition json_string :: "bytes \<Rightarrow> bytes" where
  "json_string s = json_quote True s"

subsection \<open>Decoding a string\<close>

definition hex_val :: "char \<Rightarrow> nat option" where
  "hex_val c =
     (if is_digit c then Some (digit_val c)
      else if byte_in (CHR ''a'') (CHR ''f'') c then Some (of_char c - 87)
      else if byte_in (CHR ''A'') (CHR ''F'') c then Some (of_char c - 55)
      else None)"

text \<open>The code unit of four hexadecimal digits and the text after them.\<close>

definition hex4 :: "bytes \<Rightarrow> (nat \<times> bytes) option" where
  "hex4 s =
     (case s of
        a # b # c # d # r \<Rightarrow>
          (case (hex_val a, hex_val b, hex_val c, hex_val d) of
             (Some x, Some y, Some z, Some w) \<Rightarrow> Some (((x * 16 + y) * 16 + z) * 16 + w, r)
           | _ \<Rightarrow> None)
      | _ \<Rightarrow> None)"

definition encode_rune :: "nat \<Rightarrow> bytes" where
  "encode_rune n =
     (if n < 0x80 then [char_of n]
      else if n < 0x800 then [char_of (0xC0 + n div 64), char_of (0x80 + n mod 64)]
      else if n < 0x10000 then
        [char_of (0xE0 + n div 4096), char_of (0x80 + n div 64 mod 64), char_of (0x80 + n mod 64)]
      else [char_of (0xF0 + n div 262144), char_of (0x80 + n div 4096 mod 64),
            char_of (0x80 + n div 64 mod 64), char_of (0x80 + n mod 64)])"

text \<open>The rune of a \<open>\u\<close> escape with code unit \<open>u\<close>, looking ahead for the second half of a surrogate pair.\<close>

definition unit_rune :: "nat \<Rightarrow> bytes \<Rightarrow> bytes \<times> bytes" where
  "unit_rune u r =
     (if 0xD800 \<le> u \<and> u < 0xE000 then
        (case (if has_prefix [backslash, CHR ''u''] r then hex4 (drop 2 r) else None) of
           Some (v, r') \<Rightarrow>
             if u < 0xDC00 \<and> 0xDC00 \<le> v \<and> v < 0xE000
             then (encode_rune ((u - 0xD800) * 1024 + (v - 0xDC00) + 0x10000), r')
             else (replacement, r)
         | None \<Rightarrow> (replacement, r))
      else (encode_rune u, r))"

definition simple_escape :: "char \<Rightarrow> char option" where
  "simple_escape e =
     (if e = quote \<or> e = backslash \<or> e = CHR ''/'' then Some e
      else if e = CHR ''b'' then Some (CHR 0x08)
      else if e = CHR ''f'' then Some (CHR 0x0C)
      else if e = CHR ''n'' then Some (CHR 0x0A)
      else if e = CHR ''r'' then Some (CHR 0x0D)
      else if e = CHR ''t'' then Some (CHR 0x09)
      else None)"

lemma hex4_length: "hex4 s = Some (u, r) \<Longrightarrow> length r < length s"
  by (auto simp: hex4_def split: list.splits option.splits)

lemma unit_rune_length: "length (snd (unit_rune u r)) \<le> length r"
proof -
  have "length r' \<le> length r" if "hex4 (drop 2 r) = Some (v, r')" for v r'
    using hex4_length [OF that] by simp
  then show ?thesis
    by (auto simp: unit_rune_def split: option.splits)
qed

text \<open>One step of the text after the opening quote: a decoded piece and the rest, the end, or an error.\<close>

datatype piece = Piece bytes bytes | Close bytes | Bad

definition escape_piece :: "bytes \<Rightarrow> piece" where
  "escape_piece cs =
     (case cs of
        [] \<Rightarrow> Bad
      | e # r \<Rightarrow>
          if e = CHR ''u'' then
            (case hex4 r of
               None \<Rightarrow> Bad
             | Some (u, r') \<Rightarrow> Piece (fst (unit_rune u r')) (snd (unit_rune u r')))
          else (case simple_escape e of None \<Rightarrow> Bad | Some d \<Rightarrow> Piece [d] r))"

fun next_piece :: "bytes \<Rightarrow> piece" where
  "next_piece [] = Bad"
| "next_piece (c # cs) =
     (if c = quote then Close cs
      else if c = backslash then escape_piece cs
      else if c < CHR 0x20 then Bad
      else if rune_width (c # cs) = 0 then Piece replacement cs
      else Piece (c # take (rune_width (c # cs) - 1) cs) (drop (rune_width (c # cs) - 1) cs))"

lemma escape_piece_length: "escape_piece s = Piece b r \<Longrightarrow> length r < length s"
  using unit_rune_length
  by (fastforce simp: escape_piece_def less_Suc_eq_le split: list.splits if_splits option.splits
      dest!: hex4_length intro: le_trans less_imp_le_nat)

lemma next_piece_length: "next_piece s = Piece b r \<Longrightarrow> length r < length s"
  by (cases s) (auto simp del: rune_width.simps split: if_splits dest: escape_piece_length)

function pstring :: "bytes \<Rightarrow> (bytes \<times> bytes) option" where
  "pstring s =
     (case next_piece s of
        Bad \<Rightarrow> None
      | Close r \<Rightarrow> Some ([], r)
      | Piece b r \<Rightarrow> map_option (\<lambda>(t, r'). (b @ t, r')) (pstring r))"
  by pat_completeness auto
termination
  by (relation "measure length") (auto dest: next_piece_length)

declare pstring.simps [simp del]

subsection \<open>A string literal decodes to the string\<close>

lemma rune_width_le4: "rune_width s \<le> 4"
  by (induction s rule: rune_width.induct) (auto split: list.splits)

lemma rune_width_length: "rune_width s \<le> length s"
  by (induction s rule: rune_width.induct) (auto split: list.splits)

lemma rune_width_take:
  assumes "rune_width s = w" "0 < w"
  shows "rune_width (take w s @ t) = w"
  using assms by (cases s) (auto split: if_splits list.splits)

lemma hex_val_hex_digit: "d < 16 \<Longrightarrow> hex_val (hex_digit d) = Some d"
proof -
  assume "d < 16"
  then have "d = 0 \<or> d = 1 \<or> d = 2 \<or> d = 3 \<or> d = 4 \<or> d = 5 \<or> d = 6 \<or> d = 7 \<or>
    d = 8 \<or> d = 9 \<or> d = 10 \<or> d = 11 \<or> d = 12 \<or> d = 13 \<or> d = 14 \<or> d = 15" by arith
  then show ?thesis
    by (elim disjE) (simp_all add: hex_digit_def hex_val_def byte_in_def is_digit_def digit_val_def less_eq_char_def)
qed

lemma hex_val_zero: "hex_val (CHR ''0'') = Some 0"
  by (simp add: hex_val_def is_digit_def digit_val_def less_eq_char_def)

lemma encode_rune_seps: "encode_rune 65533 = replacement" "encode_rune 8232 = line_sep" "encode_rune 8233 = para_sep"
  by (simp_all add: encode_rune_def replacement_def line_sep_def para_sep_def char_of_def bit_0)

lemma hex4_two: "d < 16 \<Longrightarrow> e < 16 \<Longrightarrow> hex4 (CHR ''0'' # CHR ''0'' # hex_digit d # hex_digit e # t) = Some (16 * d + e, t)"
  by (simp add: hex4_def hex_val_hex_digit hex_val_zero)

lemma of_char_less_128: "c < CHR 0x80 \<Longrightarrow> (of_char c :: nat) < 128"
  by (simp add: less_char_def)

lemma next_piece_esc_ascii:
  assumes "c < CHR 0x80"
  shows "next_piece (esc_ascii html c @ t) = Piece [c] t"
proof -
  let ?n = "of_char c :: nat"
  have n: "?n < 128" using assms by (rule of_char_less_128)
  have enc: "encode_rune ?n = [c]" using n by (simp add: encode_rune_def)
  have "hex4 (CHR ''0'' # CHR ''0'' # hex_digit (?n div 16) # hex_digit (?n mod 16) # t) = Some (?n, t)"
    using hex4_two [of "?n div 16" "?n mod 16" t] n by simp
  moreover have "unit_rune ?n t = ([c], t)" using n enc by (simp add: unit_rune_def)
  ultimately have u: "escape_piece (CHR ''u'' # CHR ''0'' # CHR ''0'' # hex_digit (?n div 16) # hex_digit (?n mod 16) # t) = Piece [c] t"
    by (simp add: escape_piece_def)
  have "rune_width (c # t) = 1" using assms by simp
  with assms u show ?thesis
    by (auto simp: esc_ascii_def escape_piece_def simple_escape_def quote_def backslash_def)
qed

lemma next_piece_ufffd: "next_piece (backslash # ''ufffd'' @ t) = Piece replacement t"
  by (simp add: escape_piece_def hex4_def hex_val_def byte_in_def is_digit_def digit_val_def
      less_eq_char_def less_char_def unit_rune_def encode_rune_seps quote_def backslash_def)

lemma next_piece_u2028: "next_piece (backslash # ''u2028'' @ t) = Piece line_sep t"
  by (simp add: escape_piece_def hex4_def hex_val_def byte_in_def is_digit_def digit_val_def
      less_eq_char_def less_char_def unit_rune_def encode_rune_seps quote_def backslash_def)

lemma next_piece_u2029: "next_piece (backslash # ''u2029'' @ t) = Piece para_sep t"
  by (simp add: escape_piece_def hex4_def hex_val_def byte_in_def is_digit_def digit_val_def
      less_eq_char_def less_char_def unit_rune_def encode_rune_seps quote_def backslash_def)

lemma next_piece_rune:
  assumes "\<not> c < CHR 0x80" "rune_width (c # cs) \<noteq> 0"
  shows "next_piece (c # take (rune_width (c # cs) - 1) cs @ t)
    = Piece (c # take (rune_width (c # cs) - 1) cs) t"
proof -
  let ?w = "rune_width (c # cs)"
  have split: "take ?w (c # cs) = c # take (?w - 1) cs"
    using assms(2) by (cases ?w) auto
  have w: "rune_width (c # take (?w - 1) cs @ t) = ?w"
    using rune_width_take [of "c # cs" ?w t] assms(2) split by simp
  have len: "length (take (?w - 1) cs) = ?w - 1"
    using rune_width_length [of "c # cs"] assms(2) by simp
  have "\<not> c < CHR 0x20" "c \<noteq> quote" "c \<noteq> backslash"
    using assms(1) by (auto simp: less_char_def quote_def backslash_def)
  with w len assms(2) show ?thesis by simp
qed

lemma pstring_Piece: "next_piece s = Piece b r \<Longrightarrow> pstring s = map_option (\<lambda>(t, r'). (b @ t, r')) (pstring r)"
  by (simp add: pstring.simps [of s])

lemma pstring_json_esc: "pstring (json_esc html s @ quote # r) = Some (to_valid s, r)"
proof (induction html s rule: json_esc.induct)
  case (1 html)
  show ?case by (simp add: pstring.simps [of "quote # r"])
next
  case (2 html c cs)
  let ?w = "rune_width (c # cs)"
  show ?case
  proof (cases "c < CHR 0x80")
    case True
    then have "?w = 1" by simp
    with True 2(1) next_piece_esc_ascii [OF True] show ?thesis
      by (simp add: pstring_Piece)
  next
    case big: False
    show ?thesis
    proof (cases "?w = 0")
      case True
      with big 2(2) next_piece_ufffd show ?thesis
        by (simp add: pstring_Piece del: rune_width.simps)
    next
      case False
      with big 2(3) have IH: "pstring (json_esc html (drop (?w - 1) cs) @ quote # r)
          = Some (to_valid (drop (?w - 1) cs), r)" by simp
      have sep: "c # take (?w - 1) cs = p" if "has_prefix p (c # cs)" "p = line_sep \<or> p = para_sep" for p
        using that by (auto simp: has_prefix_iff line_sep_def para_sep_def byte_in_def second3_def
            less_eq_char_def less_char_def)
      have rhs: "to_valid (c # cs) = c # take (?w - 1) cs @ to_valid (drop (?w - 1) cs)"
        using False by simp
      show ?thesis
        using big False IH sep next_piece_u2028 next_piece_u2029 next_piece_rune [OF big False]
        by (simp add: pstring_Piece rhs del: rune_width.simps to_valid.simps has_prefix.simps)
    qed
  qed
qed

subsection \<open>Values\<close>

datatype json = JNull | JBool bool | JNum bytes | JStr bytes
  | JArr "json list" | JObj "(bytes \<times> json) list"

definition is_ws :: "char \<Rightarrow> bool" where
  "is_ws c = (c = CHR 0x20 \<or> c = CHR 0x09 \<or> c = CHR 0x0A \<or> c = CHR 0x0D)"

definition skip_ws :: "bytes \<Rightarrow> bytes" where
  "skip_ws s = dropWhile is_ws s"

text \<open>A number literal, kept as text: \<open>-? (0|[1-9][0-9]*) (.[0-9]+)? ([eE][+-]?[0-9]+)?\<close>.\<close>

definition pexp :: "bytes \<Rightarrow> bytes \<Rightarrow> (bytes \<times> bytes) option" where
  "pexp acc s =
     (case s of
        e # r \<Rightarrow>
          if e = CHR ''e'' \<or> e = CHR ''E'' then
            (let sign = (if has_prefix ''+'' r \<or> has_prefix ''-'' r then take 1 r else []);
                 ds = drop (length sign) r
             in if takeWhile is_digit ds = [] then None
                else Some (acc @ e # sign @ takeWhile is_digit ds, dropWhile is_digit ds))
          else Some (acc, s)
      | [] \<Rightarrow> Some (acc, s))"

definition pfrac :: "bytes \<Rightarrow> bytes \<Rightarrow> (bytes \<times> bytes) option" where
  "pfrac acc s =
     (if has_prefix ''.'' s then
        (let ds = drop 1 s
         in if takeWhile is_digit ds = [] then None
            else pexp (acc @ CHR ''.'' # takeWhile is_digit ds) (dropWhile is_digit ds))
      else pexp acc s)"

definition pnumber :: "bytes \<Rightarrow> (bytes \<times> bytes) option" where
  "pnumber s =
     (let sign = (if has_prefix ''-'' s then ''-'' else []);
          s1 = drop (length sign) s
      in case s1 of
           [] \<Rightarrow> None
         | c # r \<Rightarrow>
             if c = CHR ''0'' then pfrac (sign @ ''0'') r
             else if is_digit c then pfrac (sign @ c # takeWhile is_digit r) (dropWhile is_digit r)
             else None)"

definition pliteral :: "bytes \<Rightarrow> (json \<times> bytes) option" where
  "pliteral s =
     (if has_prefix ''null'' s then Some (JNull, drop 4 s)
      else if has_prefix ''true'' s then Some (JBool True, drop 4 s)
      else if has_prefix ''false'' s then Some (JBool False, drop 5 s)
      else map_option (\<lambda>(n, r). (JNum n, r)) (pnumber s))"

text \<open>
  Composite values, at most 10000 levels deep as the scanner allows.  The first argument
  bounds the recursion; \<open>json_parse\<close> passes enough of it for any text (\<open>json_parse_fuel\<close>).
\<close>

definition max_depth :: nat where "max_depth = 10000"

fun pvalue :: "nat \<Rightarrow> nat \<Rightarrow> bytes \<Rightarrow> (json \<times> bytes) option"
  and pelems :: "nat \<Rightarrow> nat \<Rightarrow> bytes \<Rightarrow> (json list \<times> bytes) option"
  and pmembers :: "nat \<Rightarrow> nat \<Rightarrow> bytes \<Rightarrow> ((bytes \<times> json) list \<times> bytes) option"
where
  "pvalue 0 d s = None"
| "pvalue (Suc n) d s =
     (case s of
        [] \<Rightarrow> None
      | c # r \<Rightarrow>
          if c = CHR ''['' then
            (if max_depth \<le> d then None
             else if has_prefix '']'' (skip_ws r) then Some (JArr [], drop 1 (skip_ws r))
             else map_option (\<lambda>(vs, r'). (JArr vs, r')) (pelems n (Suc d) (skip_ws r)))
          else if c = CHR ''{'' then
            (if max_depth \<le> d then None
             else if has_prefix ''}'' (skip_ws r) then Some (JObj [], drop 1 (skip_ws r))
             else map_option (\<lambda>(ms, r'). (JObj ms, r')) (pmembers n (Suc d) (skip_ws r)))
          else if c = quote then map_option (\<lambda>(t, r'). (JStr t, r')) (pstring r)
          else pliteral s)"
| "pelems 0 d s = None"
| "pelems (Suc n) d s =
     (case pvalue n d s of
        None \<Rightarrow> None
      | Some (v, r) \<Rightarrow>
          (case skip_ws r of
             [] \<Rightarrow> None
           | c # r1 \<Rightarrow>
               if c = CHR '','' then map_option (\<lambda>(vs, r'). (v # vs, r')) (pelems n d (skip_ws r1))
               else if c = CHR '']'' then Some ([v], r1)
               else None))"
| "pmembers 0 d s = None"
| "pmembers (Suc n) d s =
     (if has_prefix [quote] s then
        (case pstring (drop 1 s) of
           None \<Rightarrow> None
         | Some (k, r) \<Rightarrow>
             if has_prefix '':'' (skip_ws r) then
               (case pvalue n d (skip_ws (drop 1 (skip_ws r))) of
                  None \<Rightarrow> None
                | Some (v, r1) \<Rightarrow>
                    (case skip_ws r1 of
                       [] \<Rightarrow> None
                     | c # r2 \<Rightarrow>
                         if c = CHR '','' then
                           map_option (\<lambda>(ms, r'). ((k, v) # ms, r')) (pmembers n d (skip_ws r2))
                         else if c = CHR ''}'' then Some ([(k, v)], r2)
                         else None))
             else None)
      else None)"

text \<open>One whole JSON text with nothing but white space after it.\<close>

definition json_parse :: "bytes \<Rightarrow> json option" where
  "json_parse s =
     (case pvalue (2 * length s + 1) 0 (skip_ws s) of
        Some (v, r) \<Rightarrow> if skip_ws r = [] then Some v else None
      | None \<Rightarrow> None)"

definition json_valid :: "bytes \<Rightarrow> bool" where
  "json_valid s = (json_parse s \<noteq> None)"

subsection \<open>The bound of the parser is enough\<close>

lemma skip_ws_length: "length (skip_ws s) \<le> length s"
  by (simp add: skip_ws_def length_dropWhile_le)

lemma pstring_length: "pstring s = Some (t, r) \<Longrightarrow> length r < length s"
proof (induction s arbitrary: t r rule: pstring.induct)
  case (1 s)
  show ?case
  proof (cases "next_piece s")
    case (Piece b u)
    with 1(2) obtain t' where "pstring u = Some (t', r)" by (auto simp: pstring.simps [of s])
    from 1(1) [OF Piece this] next_piece_length [OF Piece] show ?thesis by simp
  next
    case (Close u)
    with 1(2) have "r = u" by (simp add: pstring.simps [of s])
    with Close show ?thesis
      by (cases s) (auto simp: escape_piece_def simp del: rune_width.simps split: if_splits list.splits option.splits)
  next
    case Bad
    with 1(2) show ?thesis by (simp add: pstring.simps [of s])
  qed
qed

lemma pexp_length: "pexp acc s = Some (n, r) \<Longrightarrow> length r \<le> length s"
  using length_dropWhile_le [of is_digit]
  by (fastforce simp: pexp_def Let_def split: list.splits if_splits intro: le_trans)

lemma pfrac_length: "pfrac acc s = Some (n, r) \<Longrightarrow> length r \<le> length s"
  using length_dropWhile_le [of is_digit "drop (Suc 0) s"]
  by (auto simp: pfrac_def Let_def split: if_splits dest!: pexp_length)

lemma pnumber_length: "pnumber s = Some (n, r) \<Longrightarrow> length r < length s"
proof -
  assume h: "pnumber s = Some (n, r)"
  define s1 where "s1 = drop (length (if has_prefix ''-'' s then ''-'' else [])) s"
  from h obtain c t where s1: "s1 = c # t" by (auto simp: pnumber_def Let_def s1_def split: list.splits)
  have "length (dropWhile is_digit t) \<le> length t" by (rule length_dropWhile_le)
  then have "length r \<le> length t"
    using h s1 by (auto simp: pnumber_def Let_def s1_def [symmetric] split: if_splits dest!: pfrac_length)
  moreover have "length s1 \<le> length s" by (simp add: s1_def)
  ultimately show ?thesis using s1 by simp
qed

lemma pliteral_length: "pliteral s = Some (v, r) \<Longrightarrow> length r < length s"
  by (auto simp: pliteral_def has_prefix_iff split: if_splits dest: pnumber_length)

lemma parse_length:
  "pvalue n d s = Some (v, r) \<Longrightarrow> length r < length s"
  "pelems n d s = Some (vs, r) \<Longrightarrow> length r < length s"
  "pmembers n d s = Some (ms, r) \<Longrightarrow> length r < length s"
proof (induction n arbitrary: d s v vs ms r)
  case (Suc n)
  note skip = skip_ws_length
  { case 1
    then obtain c t where s: "s = c # t" by (auto split: list.splits)
    have l: "length (skip_ws t) \<le> length t" by (rule skip)
    show ?case
      using 1 s l Suc.IH(2) [of "Suc d" "skip_ws t"] Suc.IH(3) [of "Suc d" "skip_ws t"]
      by (fastforce split: if_splits dest: pstring_length pliteral_length)
  next
    case 2
    then obtain v1 r1 where v: "pvalue n d s = Some (v1, r1)" by (auto split: option.splits)
    with 2 obtain c t where t: "skip_ws r1 = c # t" by (auto split: list.splits)
    have l: "length r1 < length s" "length (skip_ws r1) \<le> length r1" "length (skip_ws t) \<le> length t"
      using Suc.IH(1) [OF v] skip by auto
    show ?case using 2 v t l Suc.IH(2) [of d "skip_ws t"]
      by (fastforce split: if_splits)
  next
    case 3
    then obtain k r0 where k: "has_prefix [quote] s" "pstring (drop 1 s) = Some (k, r0)" "has_prefix '':'' (skip_ws r0)"
      by (auto split: if_splits option.splits)
    let ?u = "skip_ws (drop 1 (skip_ws r0))"
    from 3 k obtain v1 r1 where v: "pvalue n d ?u = Some (v1, r1)" by (auto split: option.splits)
    with 3 k obtain c t where t: "skip_ws r1 = c # t" by (auto split: list.splits)
    have l: "length r0 < length s" "length ?u \<le> length r0" "length r1 < length ?u"
        "length (skip_ws r1) \<le> length r1" "length (skip_ws t) \<le> length t"
      using pstring_length [OF k(2)] Suc.IH(1) [OF v] skip [of "drop 1 (skip_ws r0)"] skip [of r0] skip [of r1] skip [of t] by auto
    show ?case using 3 k v t l Suc.IH(3) [of d "skip_ws t"]
      by (fastforce split: if_splits)
  }
qed simp_all

lemma parse_fuel:
  "2 * length s < n \<Longrightarrow> 2 * length s < m \<Longrightarrow> pvalue n d s = pvalue m d s"
  "Suc (2 * length s) < n \<Longrightarrow> Suc (2 * length s) < m \<Longrightarrow> pelems n d s = pelems m d s"
  "Suc (2 * length s) < n \<Longrightarrow> Suc (2 * length s) < m \<Longrightarrow> pmembers n d s = pmembers m d s"
proof (induction n arbitrary: m d s)
  case (Suc n)
  { case 1
    then obtain k where m: "m = Suc k" by (cases m) auto
    show ?case
    proof (cases s)
      case (Cons c t)
      have "length (skip_ws t) \<le> length t" by (rule skip_ws_length)
      then have "pelems n (Suc d) (skip_ws t) = pelems k (Suc d) (skip_ws t)"
        "pmembers n (Suc d) (skip_ws t) = pmembers k (Suc d) (skip_ws t)"
        using 1 m Cons by (auto intro!: Suc.IH(2,3))
      then show ?thesis by (simp add: m Cons)
    qed (simp add: m)
  next
    case 2
    then obtain k where m: "m = Suc k" by (cases m) auto
    have v: "pvalue n d s = pvalue k d s" using 2 m by (intro Suc.IH(1)) auto
    have "pelems n d (skip_ws t) = pelems k d (skip_ws t)"
      if "pvalue n d s = Some (v1, r1)" "skip_ws r1 = c # t" for v1 r1 c t
      using parse_length(1) [OF that(1)] skip_ws_length [of r1] skip_ws_length [of t] that(2) 2 m
      by (intro Suc.IH(2)) auto
    with v show ?case by (auto simp: m split: option.splits list.splits)
  next
    case 3
    then obtain k where m: "m = Suc k" by (cases m) auto
    have v: "pvalue n d (skip_ws (drop 1 (skip_ws r0))) = pvalue k d (skip_ws (drop 1 (skip_ws r0)))"
      if "pstring (drop 1 s) = Some (key, r0)" for key r0
      using pstring_length [OF that] skip_ws_length [of r0] skip_ws_length [of "drop 1 (skip_ws r0)"] 3 m
      by (intro Suc.IH(1)) auto
    have ms: "pmembers n d (skip_ws t) = pmembers k d (skip_ws t)"
      if "pstring (drop 1 s) = Some (key, r0)" "pvalue n d (skip_ws (drop 1 (skip_ws r0))) = Some (v1, r1)"
        "skip_ws r1 = c # t" for key r0 v1 r1 c t
      using pstring_length [OF that(1)] parse_length(1) [OF that(2)] skip_ws_length [of r0]
        skip_ws_length [of "drop 1 (skip_ws r0)"] skip_ws_length [of r1] skip_ws_length [of t] that(3) 3 m
      by (intro Suc.IH(3)) auto
    show ?case using v ms by (auto simp: m split: option.splits list.splits)
  }
qed simp_all

text \<open>So \<open>json_parse\<close> does not depend on the bound.\<close>

lemma json_parse_fuel:
  "2 * length s < n \<Longrightarrow> json_parse s =
     (case pvalue n 0 (skip_ws s) of Some (v, r) \<Rightarrow> if skip_ws r = [] then Some v else None | None \<Rightarrow> None)"
  using parse_fuel(1) [of "skip_ws s" "2 * length s + 1" n 0] skip_ws_length [of s]
  by (simp add: json_parse_def)

subsection \<open>Decoding into Go values and back\<close>

text \<open>
  Decoding into \<open>any\<close> turns an object into a map: the last of several members with one name
  wins.  A map is kept as its members in increasing name order, which is also the order in
  which \<open>json.Marshal\<close> writes it, so \<open>reflect.DeepEqual\<close> is equality of these values.
\<close>

fun insert_member :: "bytes \<Rightarrow> json \<Rightarrow> (bytes \<times> json) list \<Rightarrow> (bytes \<times> json) list" where
  "insert_member k v [] = [(k, v)]"
| "insert_member k v ((k', v') # ms) =
     (if k = k' then (k, v) # ms
      else if k < k' then (k, v) # (k', v') # ms
      else (k', v') # insert_member k v ms)"

primrec to_any :: "json \<Rightarrow> json" where
  "to_any JNull = JNull"
| "to_any (JBool b) = JBool b"
| "to_any (JNum n) = JNum n"
| "to_any (JStr t) = JStr t"
| "to_any (JArr vs) = JArr (map to_any vs)"
| "to_any (JObj ms) = JObj (foldl (\<lambda>m (k, v). insert_member k v m) [] (map (map_prod id to_any) ms))"

primrec json_marshal :: "json \<Rightarrow> bytes" where
  "json_marshal JNull = ''null''"
| "json_marshal (JBool b) = (if b then ''true'' else ''false'')"
| "json_marshal (JNum n) = n"
| "json_marshal (JStr t) = json_string t"
| "json_marshal (JArr vs) = ''['' @ join '','' (map json_marshal vs) @ '']''"
| "json_marshal (JObj ms) =
     ''{'' @ join '','' (map (\<lambda>(k, v). json_string k @ '':'' @ v) (map (map_prod id json_marshal) ms)) @ ''}''"

definition json_get :: "bytes \<Rightarrow> json \<Rightarrow> json option" where
  "json_get k v = (case v of JObj ms \<Rightarrow> map_of (rev ms) k | _ \<Rightarrow> None)"

lemma map_of_insert_member: "map_of (insert_member k v ms) = (map_of ms)(k \<mapsto> v)"
  by (induction k v ms rule: insert_member.induct) auto

text \<open>Member names of a map value, strictly increasing.\<close>

lemma insert_member_keys: "set (map fst (insert_member k v ms)) = insert k (set (map fst ms))"
  by (induction k v ms rule: insert_member.induct) auto

lemma insert_member_sorted:
  "sorted_wrt (<) (map fst ms) \<Longrightarrow> sorted_wrt (<) (map fst (insert_member k v ms))"
proof (induction k v ms rule: insert_member.induct)
  case (2 k v k' v' ms)
  have keys: "fst ` set (insert_member k v ms) = insert k (fst ` set ms)"
    using insert_member_keys [of k v ms] by simp
  from 2 show ?case
    by (auto simp: keys image_iff dest: order_less_trans)
qed simp

end
