(* ===== verification/Payload.thy ===== *)
theory Payload
  imports GoJson
begin

text \<open>
  \<open>internal/protocol/payload.go\<close>: the view of a provider payload as text slots, and the rewrite
  that replaces slots without touching any other byte.  The package \<open>gjson\<close> is not part of the
  program: its functions are the fields of a record \<open>g\<close>, an argument of every definition that
  calls it, and a result is known only through them.
\<close>

datatype gjson_type = GNull | GFalse | GNumber | GString | GTrue | GJSON

record 'r gjson =
  gj_valid :: "bytes \<Rightarrow> bool"
  gj_parse :: "bytes \<Rightarrow> 'r"
  gj_get :: "bytes \<Rightarrow> bytes \<Rightarrow> 'r"
  gj_sub :: "'r \<Rightarrow> bytes \<Rightarrow> 'r"
  gj_type :: "'r \<Rightarrow> gjson_type"
  gj_raw :: "'r \<Rightarrow> bytes"
  gj_index :: "'r \<Rightarrow> int"
  gj_string :: "'r \<Rightarrow> bytes"
  gj_exists :: "'r \<Rightarrow> bool"
  gj_bool :: "'r \<Rightarrow> bool"
  gj_is_array :: "'r \<Rightarrow> bool"
  gj_is_object :: "'r \<Rightarrow> bool"
  gj_array :: "'r \<Rightarrow> 'r list"

subsection \<open>Translator pairs\<close>

datatype pair = Pair (pair_from: bytes) (pair_to: bytes)

definition nativeMessagePairs :: "pair list" where
  "nativeMessagePairs =
     [Pair ''openai'' ''openai'', Pair ''claude'' ''openai'', Pair ''gemini'' ''openai'',
      Pair ''interactions'' ''openai'', Pair ''openai-response'' ''openai'',
      Pair ''interactions'' ''openai-response'',
      Pair ''openai'' ''claude'', Pair ''openai-response'' ''claude'', Pair ''gemini'' ''claude'',
      Pair ''interactions'' ''claude'',
      Pair ''openai'' ''codex'', Pair ''openai-response'' ''codex'', Pair ''claude'' ''codex'',
      Pair ''gemini'' ''codex'', Pair ''interactions'' ''codex'',
      Pair ''openai'' ''gemini'', Pair ''openai-response'' ''gemini'', Pair ''claude'' ''gemini'',
      Pair ''gemini'' ''gemini'', Pair ''interactions'' ''gemini'',
      Pair ''openai-response'' ''antigravity'']"

definition Eligible :: "pair \<Rightarrow> bool" where
  "Eligible p = List.member nativeMessagePairs p"

subsection \<open>Slots\<close>

datatype slot_kind = SlotOpenAIChat | SlotOpenAIResponses | SlotClaudeMessages | SlotGemini

record text_slot =
  ts_text :: bytes
  ts_result_id :: bytes
  ts_kind :: slot_kind
  ts_error :: bool
  ts_start :: nat
  ts_end :: nat

record payload =
  pl_raw :: bytes
  pl_slots :: "text_slot list"

fun index_digits :: "nat \<Rightarrow> bytes \<Rightarrow> bytes" where
  "index_digits n digits =
     (if n > 0 then index_digits (n div 10) (digit_char (n mod 10) # digits) else digits)"

declare index_digits.simps [simp del]

definition indexString :: "nat \<Rightarrow> bytes" where
  "indexString n = (if n < 10 then [digit_char n] else index_digits n [])"

definition stringAt :: "'r gjson \<Rightarrow> bytes \<Rightarrow> bytes \<Rightarrow> bytes" where
  "stringAt g raw path =
     (let result = gj_get g raw path in if gj_type g result \<noteq> GString then [] else gj_string g result)"

definition isErrorObject :: "'r gjson \<Rightarrow> bytes \<Rightarrow> bytes \<Rightarrow> bool" where
  "isErrorObject g raw base =
     (if gj_bool g (gj_get g raw (base @ ''.is_error'')) then True
      else stringAt g raw (base @ ''.status'') = ''error'')"

text \<open>\<open>add\<close>: the span of the result must be what the result says it is.\<close>

definition add_slot :: "'r gjson \<Rightarrow> 'r \<Rightarrow> bytes \<Rightarrow> slot_kind \<Rightarrow> bool \<Rightarrow> payload \<Rightarrow> payload" where
  "add_slot g result resultID kind errorResult p =
     (if gj_type g result \<noteq> GString \<or> gj_index g result < 0 then p
      else
        let start = nat (gj_index g result);
            stop = start + length (gj_raw g result)
        in if stop > length (pl_raw p) \<or> take (stop - start) (drop start (pl_raw p)) \<noteq> gj_raw g result then p
           else p\<lparr>pl_slots := pl_slots p @
                  [\<lparr>ts_text = gj_string g result, ts_result_id = resultID, ts_kind = kind, ts_error = errorResult,
                    ts_start = start, ts_end = stop\<rparr>]\<rparr>)"

text \<open>A loop over an array with its index.\<close>

fun each :: "(nat \<Rightarrow> 'r \<Rightarrow> payload \<Rightarrow> payload) \<Rightarrow> nat \<Rightarrow> 'r list \<Rightarrow> payload \<Rightarrow> payload" where
  "each f i [] p = p"
| "each f i (x # xs) p = each f (Suc i) xs (f i x p)"

subsection \<open>The provider views; \<open>None\<close> is \<open>false\<close>\<close>

definition openAIChat :: "'r gjson \<Rightarrow> payload \<Rightarrow> payload option" where
  "openAIChat g p0 =
     (let messages = gj_get g (pl_raw p0) ''messages''
      in if \<not> gj_is_array g messages then None
         else Some (each (\<lambda>i message p.
           (let base = ''messages.'' @ indexString i
            in if \<not> gj_is_object g message \<or> stringAt g (pl_raw p) (base @ ''.role'') \<noteq> ''tool'' then p
               else
                 let resultID = stringAt g (pl_raw p) (base @ ''.tool_call_id'')
                 in if resultID = [] then p
                    else
                      let errorResult = isErrorObject g (pl_raw p) base;
                          contentPath = base @ ''.content'';
                          content = gj_get g (pl_raw p) contentPath
                      in if gj_type g content = GString then add_slot g content resultID SlotOpenAIChat errorResult p
                         else if \<not> gj_is_array g content then p
                         else each (\<lambda>j block p.
                           (let blockPath = contentPath @ ''.'' @ indexString j
                            in if gj_is_object g block \<and> stringAt g (pl_raw p) (blockPath @ ''.type'') = ''text''
                               then add_slot g (gj_get g (pl_raw p) (blockPath @ ''.text'')) resultID SlotOpenAIChat errorResult p
                               else p)) 0 (gj_array g content) p)) 0 (gj_array g messages) p0))"

definition openAIResponses :: "'r gjson \<Rightarrow> payload \<Rightarrow> payload option" where
  "openAIResponses g p0 =
     (let input = gj_get g (pl_raw p0) ''input''
      in if \<not> gj_is_array g input then None
         else Some (each (\<lambda>i item p.
           (let base = ''input.'' @ indexString i
            in if \<not> gj_is_object g item then p
               else if \<not> List.member [''custom_tool_call_output'', ''function_call_output'', ''local_shell_call_output'',
                          ''apply_patch_call_output''] (stringAt g (pl_raw p) (base @ ''.type'')) then p
               else
                 let resultID = stringAt g (pl_raw p) (base @ ''.call_id'')
                 in if resultID = [] then p
                    else
                      let errorResult = isErrorObject g (pl_raw p) base;
                          outputPath = base @ ''.output'';
                          output = gj_get g (pl_raw p) outputPath
                      in if gj_type g output = GString then add_slot g output resultID SlotOpenAIResponses errorResult p
                         else if \<not> gj_is_array g output then p
                         else each (\<lambda>j block p.
                           (let blockPath = outputPath @ ''.'' @ indexString j;
                                blockType = stringAt g (pl_raw p) (blockPath @ ''.type'')
                            in if gj_is_object g block \<and> (blockType = ''input_text'' \<or> blockType = ''output_text'')
                               then add_slot g (gj_get g (pl_raw p) (blockPath @ ''.text'')) resultID SlotOpenAIResponses errorResult p
                               else p)) 0 (gj_array g output) p)) 0 (gj_array g input) p0))"

definition claudeMessages :: "'r gjson \<Rightarrow> payload \<Rightarrow> payload option" where
  "claudeMessages g p0 =
     (let messages = gj_get g (pl_raw p0) ''messages''
      in if \<not> gj_is_array g messages then None
         else Some (each (\<lambda>i message p.
           (let contentPath = ''messages.'' @ indexString i @ ''.content'';
                content = gj_get g (pl_raw p) contentPath
            in if \<not> gj_is_object g message \<or> \<not> gj_is_array g content then p
               else each (\<lambda>j block p.
                 (let base = contentPath @ ''.'' @ indexString j
                  in if \<not> gj_is_object g block \<or> stringAt g (pl_raw p) (base @ ''.type'') \<noteq> ''tool_result'' then p
                     else
                       let resultID = stringAt g (pl_raw p) (base @ ''.tool_use_id'')
                       in if resultID = [] then p
                          else
                            let errorResult = isErrorObject g (pl_raw p) base;
                                resultPath = base @ ''.content'';
                                result = gj_get g (pl_raw p) resultPath
                            in if gj_type g result = GString then add_slot g result resultID SlotClaudeMessages errorResult p
                               else if \<not> gj_is_array g result then p
                               else each (\<lambda>k part p.
                                 (let partPath = resultPath @ ''.'' @ indexString k
                                  in if gj_is_object g part \<and> stringAt g (pl_raw p) (partPath @ ''.type'') = ''text''
                                     then add_slot g (gj_get g (pl_raw p) (partPath @ ''.text'')) resultID SlotClaudeMessages errorResult p
                                     else p)) 0 (gj_array g result) p)) 0 (gj_array g content) p)) 0 (gj_array g messages) p0))"

definition geminiAt :: "'r gjson \<Rightarrow> bytes \<Rightarrow> payload \<Rightarrow> payload option" where
  "geminiAt g contentsPath p0 =
     (let contents = gj_get g (pl_raw p0) contentsPath
      in if \<not> gj_is_array g contents then None
         else Some (each (\<lambda>i content p.
           (let partsPath = contentsPath @ ''.'' @ indexString i @ ''.parts'';
                parts = gj_get g (pl_raw p) partsPath
            in if \<not> gj_is_object g content \<or> \<not> gj_is_array g parts then p
               else each (\<lambda>j part p.
                 (let base = partsPath @ ''.'' @ indexString j @ ''.functionResponse'';
                      response = gj_get g (pl_raw p) base
                  in if \<not> gj_is_object g part \<or> \<not> gj_is_object g response then p
                     else
                       let id0 = stringAt g (pl_raw p) (base @ ''.id'');
                           resultID = (if id0 = [] then stringAt g (pl_raw p) (base @ ''.name'') else id0)
                       in if resultID = [] then p
                          else
                            let errorResult = (isErrorObject g (pl_raw p) base \<or>
                                  gj_exists g (gj_get g (pl_raw p) (base @ ''.response.error'')))
                            in add_slot g (gj_get g (pl_raw p) (base @ ''.response.result'')) resultID SlotGemini errorResult p))
                 0 (gj_array g parts) p)) 0 (gj_array g contents) p0))"

definition gemini :: "'r gjson \<Rightarrow> payload \<Rightarrow> payload option" where
  "gemini g p = geminiAt g ''contents'' p"

definition antigravity :: "'r gjson \<Rightarrow> payload \<Rightarrow> payload option" where
  "antigravity g p = geminiAt g ''request.contents'' p"

definition View :: "'r gjson \<Rightarrow> bytes \<Rightarrow> pair \<Rightarrow> payload option" where
  "View g body pr =
     (if body = [] \<or> \<not> Eligible pr \<or> \<not> gj_valid g body then None
      else if \<not> gj_is_object g (gj_parse g body) then None
      else
        let view = \<lparr>pl_raw = body, pl_slots = []\<rparr>;
            to = pair_to pr
        in if to = ''openai'' then openAIChat g view
           else if to = ''openai-response'' \<or> to = ''codex'' then openAIResponses g view
           else if to = ''claude'' then claudeMessages g view
           else if to = ''gemini'' then gemini g view
           else if to = ''antigravity'' then antigravity g view
           else None)"

definition Slots :: "payload \<Rightarrow> text_slot list" where
  "Slots p = pl_slots p"

subsection \<open>Rewriting\<close>

record edit =
  ed_start :: nat
  ed_end :: nat
  ed_raw :: bytes

text \<open>The replacements are a Go map; the list has its entries in the order of the iteration.\<close>

fun collect_edits :: "text_slot list \<Rightarrow> (int \<times> bytes) list \<Rightarrow> edit list" where
  "collect_edits slots [] = []"
| "collect_edits slots ((i, new) # rest) =
     (if i < 0 \<or> i \<ge> int (length slots) then collect_edits slots rest
      else \<lparr>ed_start = ts_start (slots ! nat i), ed_end = ts_end (slots ! nat i),
             ed_raw = json_string new\<rparr> # collect_edits slots rest)"

text \<open>Edits that overlap an earlier one or leave the text are dropped.\<close>

fun valid_edits :: "nat \<Rightarrow> nat \<Rightarrow> edit list \<Rightarrow> edit list" where
  "valid_edits len previousEnd [] = []"
| "valid_edits len previousEnd (current # rest) =
     (if ed_start current < previousEnd \<or> ed_end current < ed_start current \<or> ed_end current > len
      then valid_edits len previousEnd rest
      else current # valid_edits len (ed_end current) rest)"

fun apply_edits :: "bytes \<Rightarrow> nat \<Rightarrow> edit list \<Rightarrow> bytes" where
  "apply_edits raw previousEnd [] = drop previousEnd raw"
| "apply_edits raw previousEnd (current # rest) =
     take (ed_start current - previousEnd) (drop previousEnd raw) @ ed_raw current @ apply_edits raw (ed_end current) rest"

definition Rewrite :: "payload \<Rightarrow> (int \<times> bytes) list \<Rightarrow> bytes" where
  "Rewrite p replacements =
     (if replacements = [] \<or> pl_raw p = [] then pl_raw p
      else
        let edits = collect_edits (pl_slots p) replacements
        in if edits = [] then pl_raw p
           else
             let valid = valid_edits (length (pl_raw p)) 0 (sort_key ed_start edits)
             in if valid = [] then pl_raw p else apply_edits (pl_raw p) 0 valid)"

subsection \<open>Decimal indices\<close>

lemma index_digits_show: "0 < n \<Longrightarrow> index_digits n acc = show_nat n @ acc"
proof (induction n acc rule: index_digits.induct)
  case (1 n acc)
  show ?case
  proof (cases "n < 10")
    case True
    with 1(2) show ?thesis by (simp add: index_digits.simps [of n] index_digits.simps [of 0] show_nat.simps [of n])
  next
    case False
    then have "0 < n div 10" by (simp add: div_greater_zero_iff)
    with 1 False show ?thesis by (simp add: index_digits.simps [of n] show_nat.simps [of n])
  qed
qed

lemma indexString_show: "indexString n = show_nat n"
  by (simp add: indexString_def index_digits_show show_nat.simps [of n])

subsection \<open>The slots of a view\<close>

definition slot_ok :: "bytes \<Rightarrow> text_slot \<Rightarrow> bool" where
  "slot_ok raw s \<longleftrightarrow> ts_start s \<le> ts_end s \<and> ts_end s \<le> length raw \<and> ts_result_id s \<noteq> []"

definition payload_ok :: "bytes \<Rightarrow> payload \<Rightarrow> bool" where
  "payload_ok raw p \<longleftrightarrow> pl_raw p = raw \<and> (\<forall>s \<in> set (pl_slots p). slot_ok raw s)"

lemma add_slot_ok [intro]: "payload_ok raw p \<Longrightarrow> resultID \<noteq> [] \<Longrightarrow> payload_ok raw (add_slot g result resultID kind e p)"
  by (auto simp: add_slot_def payload_ok_def slot_ok_def Let_def)

lemma each_ok:
  "payload_ok raw p \<Longrightarrow> (\<And>i x p. payload_ok raw p \<Longrightarrow> payload_ok raw (f i x p)) \<Longrightarrow> payload_ok raw (each f i xs p)"
  by (induction f i xs p rule: each.induct) auto

lemma payload_ok_if: "(c \<Longrightarrow> payload_ok raw a) \<Longrightarrow> (\<not> c \<Longrightarrow> payload_ok raw b) \<Longrightarrow> payload_ok raw (if c then a else b)"
  by simp

lemma if_None_Some: "(if c then None else Some x) = Some q \<Longrightarrow> q = x"
  by (simp split: if_splits)

lemmas view_intros = each_ok payload_ok_if add_slot_ok

lemma view_parts_ok:
  assumes "payload_ok raw p"
  shows "openAIChat g p = Some q \<Longrightarrow> payload_ok raw q" "openAIResponses g p = Some q \<Longrightarrow> payload_ok raw q"
    "claudeMessages g p = Some q \<Longrightarrow> payload_ok raw q" "geminiAt g path p = Some q \<Longrightarrow> payload_ok raw q"
  using assms
  unfolding openAIChat_def openAIResponses_def claudeMessages_def geminiAt_def Let_def
  by - (drule if_None_Some, simp only:, (intro view_intros | assumption)+)+

lemma View_ok: "View g body pr = Some p \<Longrightarrow> payload_ok body p"
proof -
  assume v: "View g body pr = Some p"
  let ?view = "\<lparr>pl_raw = body, pl_slots = []\<rparr>"
  have ok: "payload_ok body ?view" by (simp add: payload_ok_def)
  have "openAIChat g ?view = Some p \<or> openAIResponses g ?view = Some p \<or> claudeMessages g ?view = Some p
      \<or> geminiAt g ''contents'' ?view = Some p \<or> geminiAt g ''request.contents'' ?view = Some p"
    using v unfolding View_def gemini_def antigravity_def Let_def by (simp only: split: if_splits) simp_all
  then show ?thesis using view_parts_ok [OF ok] by blast
qed

lemma View_facts: "View g body pr = Some p \<Longrightarrow> Eligible pr \<and> gj_valid g body \<and> body \<noteq> []"
  by (auto simp: View_def split: if_splits)

subsection \<open>Splicing\<close>

text \<open>
  The specification of a rewrite: a text cut into segments, with one string between each two.
\<close>

fun weave :: "bytes list \<Rightarrow> bytes list \<Rightarrow> bytes" where
  "weave (s # ss) (r # rs) = s @ r @ weave ss rs"
| "weave ss rs = concat ss"

fun segments :: "bytes \<Rightarrow> nat \<Rightarrow> edit list \<Rightarrow> bytes list" where
  "segments raw previousEnd [] = [drop previousEnd raw]"
| "segments raw previousEnd (e # es) =
     take (ed_start e - previousEnd) (drop previousEnd raw) # segments raw (ed_end e) es"

definition old_text :: "bytes \<Rightarrow> edit \<Rightarrow> bytes" where
  "old_text raw e = take (ed_end e - ed_start e) (drop (ed_start e) raw)"

fun chain :: "nat \<Rightarrow> nat \<Rightarrow> edit list \<Rightarrow> bool" where
  "chain len previousEnd [] = (previousEnd \<le> len)"
| "chain len previousEnd (e # es) =
     (previousEnd \<le> ed_start e \<and> ed_start e \<le> ed_end e \<and> ed_end e \<le> len \<and> chain len (ed_end e) es)"

lemma valid_edits_chain: "pe \<le> len \<Longrightarrow> chain len pe (valid_edits len pe es)"
  by (induction len pe es rule: valid_edits.induct) auto

lemma valid_edits_subset: "set (valid_edits len pe es) \<subseteq> set es"
  by (induction len pe es rule: valid_edits.induct) auto

lemma segments_length [simp]: "length (segments raw pe es) = Suc (length es)"
  by (induction raw pe es rule: segments.induct) auto

lemma apply_edits_weave: "apply_edits raw pe es = weave (segments raw pe es) (map ed_raw es)"
  by (induction raw pe es rule: apply_edits.induct) auto

lemma chain_weave: "chain (length raw) pe es \<Longrightarrow> weave (segments raw pe es) (map (old_text raw) es) = drop pe raw"
proof (induction raw pe es rule: segments.induct)
  case (2 raw pe e es)
  then have IH: "weave (segments raw (ed_end e) es) (map (old_text raw) es) = drop (ed_end e) raw"
    and c: "pe \<le> ed_start e" "ed_start e \<le> ed_end e" by simp_all
  have "old_text raw e @ drop (ed_end e) raw = drop (ed_start e) raw"
    unfolding old_text_def by (rule drop_take_append [OF c(2)])
  moreover have "take (ed_start e - pe) (drop pe raw) @ drop (ed_start e) raw = drop pe raw"
    by (rule drop_take_append [OF c(1)])
  ultimately show ?case by (simp add: IH)
qed simp

text \<open>
  Every edit list that passes a chain test is a splice: same segments, other strings between.
  This is shared with the Headroom adapter's rewrite.
\<close>

lemma splice_chain:
  assumes "chain (length raw) 0 es"
  shows "\<exists>segs. length segs = Suc (length es) \<and> raw = weave segs (map (old_text raw) es)
    \<and> apply_edits raw 0 es = weave segs (map ed_raw es)"
  using chain_weave [OF assms] apply_edits_weave [of raw 0 es] segments_length [of raw 0 es]
  by (metis drop0)

lemma weave_length:
  "length ss = Suc (length rs) \<Longrightarrow> length (weave ss rs) = sum_list (map length ss) + sum_list (map length rs)"
  by (induction ss rs rule: weave.induct) (auto simp: length_concat)

definition slot_edit :: "text_slot list \<Rightarrow> int \<times> bytes \<Rightarrow> edit" where
  "slot_edit slots r = \<lparr>ed_start = ts_start (slots ! nat (fst r)), ed_end = ts_end (slots ! nat (fst r)),
     ed_raw = json_string (snd r)\<rparr>"

definition known_slot :: "text_slot list \<Rightarrow> int \<times> bytes \<Rightarrow> bool" where
  "known_slot slots r \<longleftrightarrow> 0 \<le> fst r \<and> fst r < int (length slots)"

lemma collect_edits_map: "collect_edits slots reps = map (slot_edit slots) (filter (known_slot slots) reps)"
  by (induction slots reps rule: collect_edits.induct) (auto simp: slot_edit_def known_slot_def)

text \<open>Slots, and edits, that do not overlap.\<close>

definition disjoint_slots :: "text_slot list \<Rightarrow> bool" where
  "disjoint_slots slots \<longleftrightarrow>
     (\<forall>i < length slots. ts_start (slots ! i) < ts_end (slots ! i)) \<and>
     (\<forall>i < length slots. \<forall>j < length slots. i \<noteq> j \<longrightarrow>
        ts_end (slots ! i) \<le> ts_start (slots ! j) \<or> ts_end (slots ! j) \<le> ts_start (slots ! i))"

definition disjoint_edits :: "edit list \<Rightarrow> bool" where
  "disjoint_edits es \<longleftrightarrow> distinct es \<and> (\<forall>e \<in> set es. ed_start e < ed_end e) \<and>
     (\<forall>e \<in> set es. \<forall>f \<in> set es. e \<noteq> f \<longrightarrow> ed_end e \<le> ed_start f \<or> ed_end f \<le> ed_start e)"

lemma disjoint_edits_perm: "mset es = mset fs \<Longrightarrow> disjoint_edits es \<longleftrightarrow> disjoint_edits fs"
proof -
  assume eq: "mset es = mset fs"
  have "set es = set fs" "distinct es \<longleftrightarrow> distinct fs"
    using mset_eq_setD [OF eq] mset_eq_imp_distinct_iff [OF eq] by simp_all
  then show ?thesis by (simp add: disjoint_edits_def)
qed

lemma disjoint_edits_starts: "disjoint_edits es \<Longrightarrow> inj_on ed_start (set es)"
  unfolding disjoint_edits_def inj_on_def by (metis leD)

lemma valid_edits_all:
  "sorted (map ed_start es) \<Longrightarrow> disjoint_edits es \<Longrightarrow> \<forall>e \<in> set es. pe \<le> ed_start e \<and> ed_end e \<le> len \<Longrightarrow>
   valid_edits len pe es = es"
proof (induction es arbitrary: pe)
  case (Cons e es)
  have "\<forall>f \<in> set es. ed_end e \<le> ed_start f \<and> ed_end f \<le> len"
  proof
    fix f assume f: "f \<in> set es"
    then have "e \<noteq> f" using Cons.prems(2) by (auto simp: disjoint_edits_def)
    with f have "ed_end e \<le> ed_start f \<or> ed_end f \<le> ed_start e" "ed_start f < ed_end f" "ed_start e \<le> ed_start f"
      using Cons.prems(1,2) by (auto simp: disjoint_edits_def)
    with f Cons.prems(3) show "ed_end e \<le> ed_start f \<and> ed_end f \<le> len" by auto
  qed
  moreover have "disjoint_edits es" using Cons.prems(2) by (simp add: disjoint_edits_def)
  ultimately have "valid_edits len (ed_end e) es = es" using Cons.IH Cons.prems(1) by simp
  then show ?case using Cons.prems by (auto simp: disjoint_edits_def)
qed simp

lemma collect_disjoint:
  assumes "disjoint_slots slots" "distinct (map fst reps)"
  shows "disjoint_edits (collect_edits slots reps)"
proof -
  let ?rs = "filter (known_slot slots) reps"
  have span: "ts_start (slots ! nat (fst r)) < ts_end (slots ! nat (fst r))" if "r \<in> set ?rs" for r
    using that assms(1) by (auto simp: known_slot_def disjoint_slots_def)
  have apart: "ed_end (slot_edit slots r) \<le> ed_start (slot_edit slots q) \<or> ed_end (slot_edit slots q) \<le> ed_start (slot_edit slots r)"
    if "r \<in> set ?rs" "q \<in> set ?rs" "r \<noteq> q" for r q
  proof -
    have "fst r \<noteq> fst q" using that assms(2) by (auto dest: eq_key_imp_eq_value simp: prod_eq_iff) (metis eq_key_imp_eq_value prod.collapse)
    then have "nat (fst r) \<noteq> nat (fst q)" "nat (fst r) < length slots" "nat (fst q) < length slots"
      using that by (auto simp: known_slot_def)
    then show ?thesis using assms(1) by (simp add: disjoint_slots_def slot_edit_def)
  qed
  have inj: "inj_on (slot_edit slots) (set ?rs)"
  proof (rule inj_onI, rule ccontr)
    fix r q assume h: "r \<in> set ?rs" "q \<in> set ?rs" "slot_edit slots r = slot_edit slots q" "r \<noteq> q"
    then have "ed_end (slot_edit slots r) \<le> ed_start (slot_edit slots r)" using apart [OF h(1,2,4)] by auto
    with span [OF h(1)] show False by (simp add: slot_edit_def)
  qed
  have "distinct ?rs" using assms(2) by (simp add: distinct_map)
  then have "distinct (map (slot_edit slots) ?rs)" using inj by (simp add: distinct_map)
  moreover have "ed_start e < ed_end e" if "e \<in> set (map (slot_edit slots) ?rs)" for e
  proof -
    from that obtain r where "r \<in> set ?rs" "e = slot_edit slots r" by auto
    with span [of r] show ?thesis by (simp add: slot_edit_def)
  qed
  moreover have "ed_end e \<le> ed_start f \<or> ed_end f \<le> ed_start e"
    if "e \<in> set (map (slot_edit slots) ?rs)" "f \<in> set (map (slot_edit slots) ?rs)" "e \<noteq> f" for e f
  proof -
    from that obtain r q where "r \<in> set ?rs" "e = slot_edit slots r" "q \<in> set ?rs" "f = slot_edit slots q" by auto
    with apart [of r q] that(3) show ?thesis by blast
  qed
  ultimately show ?thesis unfolding collect_edits_map disjoint_edits_def by blast
qed

text \<open>\<open>Rewrite\<close> is a splice at the edits it keeps.\<close>

definition kept_edits :: "payload \<Rightarrow> (int \<times> bytes) list \<Rightarrow> edit list" where
  "kept_edits p reps = valid_edits (length (pl_raw p)) 0 (sort_key ed_start (collect_edits (pl_slots p) reps))"

lemma Rewrite_kept: "pl_raw p \<noteq> [] \<Longrightarrow> Rewrite p reps = apply_edits (pl_raw p) 0 (kept_edits p reps)"
  by (auto simp: Rewrite_def kept_edits_def Let_def)

lemma kept_edits_chain: "chain (length (pl_raw p)) 0 (kept_edits p reps)"
  by (simp add: kept_edits_def valid_edits_chain)

lemma kept_edits_slot:
  assumes "e \<in> set (kept_edits p reps)"
  shows "\<exists>(i, new) \<in> set reps. 0 \<le> i \<and> i < int (length (pl_slots p)) \<and> e = slot_edit (pl_slots p) (i, new)"
proof -
  have "e \<in> set (collect_edits (pl_slots p) reps)"
    using assms valid_edits_subset unfolding kept_edits_def by fastforce
  then show ?thesis by (force simp: collect_edits_map known_slot_def)
qed

lemma kept_edits_all:
  assumes "payload_ok raw p" "disjoint_slots (pl_slots p)" "distinct (map fst reps)"
  shows "kept_edits p reps = sort_key ed_start (collect_edits (pl_slots p) reps)"
  unfolding kept_edits_def
proof (rule valid_edits_all)
  let ?es = "collect_edits (pl_slots p) reps"
  show "disjoint_edits (sort_key ed_start ?es)"
    using collect_disjoint [OF assms(2,3)] disjoint_edits_perm [of ?es "sort_key ed_start ?es"] by simp
  show "\<forall>e \<in> set (sort_key ed_start ?es). 0 \<le> ed_start e \<and> ed_end e \<le> length (pl_raw p)"
  proof
    fix e assume "e \<in> set (sort_key ed_start ?es)"
    then obtain r where r: "e = slot_edit (pl_slots p) r" "known_slot (pl_slots p) r"
      by (auto simp: collect_edits_map)
    then have "pl_slots p ! nat (fst r) \<in> set (pl_slots p)" by (auto simp: known_slot_def intro!: nth_mem)
    with assms(1) r(1) show "0 \<le> ed_start e \<and> ed_end e \<le> length (pl_raw p)"
      by (auto simp: payload_ok_def slot_ok_def slot_edit_def)
  qed
qed simp

lemma sort_key_perm:
  assumes "mset es = mset fs" "inj_on f (set es)"
  shows "sort_key f es = sort_key f fs"
proof (rule properties_for_sort_key)
  show "mset (sort_key f fs) = mset es" using assms(1) by simp
  show "sorted (map f (sort_key f fs))" by simp
  fix k assume k0: "k \<in> set (sort_key f fs)"
  have "set fs = set es" using mset_eq_setD [OF assms(1)] by simp
  with k0 have "k \<in> set es" by simp
  then have u: "x = k" if "x \<in> set es" "f k = f x" for x
    using that assms(2) \<open>k \<in> set es\<close> by (auto simp: inj_on_def)
  have "filter (\<lambda>x. f k = f x) xs = replicate (count (mset xs) k) k" if "set xs = set es" for xs
  proof -
    have "filter (\<lambda>x. f k = f x) xs = filter (HOL.eq k) xs"
      using u that by (intro filter_cong) auto
    then show ?thesis by (simp add: replicate_count_mset_eq_filter_eq)
  qed
  then show "filter (\<lambda>x. f k = f x) (sort_key f fs) = filter (\<lambda>x. f k = f x) es"
    using assms(1) \<open>set fs = set es\<close> by simp
qed

lemma Rewrite_weave:
  assumes "View g body pr = Some p"
  shows "\<exists>segs. length segs = Suc (length (kept_edits p reps))
     \<and> body = weave segs (map (old_text body) (kept_edits p reps))
     \<and> Rewrite p reps = weave segs (map ed_raw (kept_edits p reps))"
proof -
  have raw: "pl_raw p = body" "body \<noteq> []"
    using View_ok [OF assms] View_facts [OF assms] by (simp_all add: payload_ok_def)
  have "chain (length body) 0 (kept_edits p reps)" using kept_edits_chain [of p reps] raw by simp
  from splice_chain [OF this] show ?thesis using Rewrite_kept [of p reps] raw by simp
qed



subsection \<open>A concrete document\<close>

text \<open>
  For witnesses: one small document with the results a JSON path library gives on it, so that
  every definition above can be evaluated.
\<close>

definition demo_body :: bytes where
  "demo_body = ''{'' @ json_string ''messages'' @ '':[{'' @ json_string ''role'' @ '':'' @ json_string ''tool'' @ '',''
     @ json_string ''tool_call_id'' @ '':'' @ json_string ''a'' @ '','' @ json_string ''content'' @ '':'' @ json_string ''x'' @ ''}]}''"

type_synonym demo_result = "gjson_type \<times> bytes \<times> int \<times> bytes"

definition demo_message :: demo_result where "demo_message = (GJSON, take 48 (drop 13 demo_body), 13, take 48 (drop 13 demo_body))"
definition demo_messages :: demo_result where "demo_messages = (GJSON, take 50 (drop 12 demo_body), 12, take 50 (drop 12 demo_body))"
definition demo_string :: "int \<Rightarrow> bytes \<Rightarrow> demo_result" where "demo_string i s = (GString, json_string s, i, s)"

definition demo_lookup :: "(bytes \<times> demo_result) list \<Rightarrow> bytes \<Rightarrow> demo_result" where
  "demo_lookup t path = (case map_of t path of None \<Rightarrow> (GNull, [], 0, []) | Some r \<Rightarrow> r)"

definition demo_gjson :: "demo_result gjson" where
  "demo_gjson = \<lparr>gj_valid = (\<lambda>b. b = demo_body),
     gj_parse = (\<lambda>b. (GJSON, b, 0, b)),
     gj_get = (\<lambda>b path. demo_lookup [(''messages'', demo_messages), (''messages.0.role'', demo_string 21 ''tool''),
        (''messages.0.tool_call_id'', demo_string 43 ''a''), (''messages.0.content'', demo_string 57 ''x'')] path),
     gj_sub = (\<lambda>r path. if r = demo_message then demo_lookup [(''role'', demo_string 21 ''tool''),
        (''content'', demo_string 57 ''x'')] path else demo_lookup [(''messages'', demo_messages)] path),
     gj_type = fst, gj_raw = (\<lambda>r. fst (snd r)), gj_index = (\<lambda>r. fst (snd (snd r))), gj_string = (\<lambda>r. snd (snd (snd r))),
     gj_exists = (\<lambda>r. fst (snd r) \<noteq> []), gj_bool = (\<lambda>r. fst r = GTrue),
     gj_is_array = (\<lambda>r. has_prefix ''['' (fst (snd r))), gj_is_object = (\<lambda>r. has_prefix ''{'' (fst (snd r))),
     gj_array = (\<lambda>r. if r = demo_messages then [demo_message] else [])\<rparr>"

definition demo_pair :: pair where "demo_pair = Pair ''openai'' ''openai''"

definition demo_payload :: payload where
  "demo_payload = \<lparr>pl_raw = demo_body, pl_slots = [\<lparr>ts_text = ''x'', ts_result_id = ''a'', ts_kind = SlotOpenAIChat,
     ts_error = False, ts_start = 57, ts_end = 60\<rparr>]\<rparr>"

lemma demo_view: "View demo_gjson demo_body demo_pair = Some demo_payload"
  by code_simp

lemma demo_disjoint: "disjoint_slots (pl_slots demo_payload)"
  by (simp add: disjoint_slots_def demo_payload_def)



end
