(* ===== verification/Rtk.thy ===== *)
theory Rtk
  imports RtkGit Payload
begin

text \<open>
  \<open>internal/rtk/detect.go\<close>, \<open>filter.go\<close> and \<open>filters/registry.go\<close>: the choice of a filter and
  its application to the text slots of a payload.  \<open>ord\<close> is Go's iteration order where the LS filter
  depends on it.  A comparison of a quotient of line counts with 0.6 or 0.7 in floating point is
  the comparison of integers: the counts are at most 1024, so the quotient is never rounded across
  the bound.
\<close>

subsection \<open>Registry\<close>

type_synonym text_filter = "bytes \<times> (bytes \<Rightarrow> bytes)"

definition registry :: "(bytes list \<Rightarrow> bytes list) \<Rightarrow> text_filter list" where
  "registry ord =
     [(''git-diff'', GitDiff), (''git-status'', GitStatus), (''git-log'', GitLog), (''grep'', Grep), (''find'', Find),
      (''dedup-log'', DedupLog), (''ls'', LS ord), (''tree'', Tree), (''smart-truncate'', SmartTruncate),
      (''read-numbered'', ReadNumbered), (''search-list'', SearchList), (''build-output'', BuildOutput)]"

definition Names :: "(bytes list \<Rightarrow> bytes list) \<Rightarrow> bytes list" where
  "Names ord = map fst (registry ord)"

text \<open>\<open>None\<close> is the zero filter.\<close>

definition Resolve :: "(bytes list \<Rightarrow> bytes list) \<Rightarrow> bytes \<Rightarrow> text_filter option" where
  "Resolve ord name =
     (let name' = (if name = ''rg'' then ''grep'' else if name = ''fd'' then ''find'' else name)
      in find (\<lambda>f. fst f = name') (registry ord))"

subsection \<open>Detection\<close>

definition detectWindowBytes :: nat where "detectWindowBytes = 1024"

definition detectGitLog :: rx where
  "detectGitLog = seqs [LineStart, Star cls_graph, ilit ''commit '', Rep cls_hex_fold 7 40, LineEnd]"
definition detectGitDiff :: rx where
  "detectGitDiff = Alt (Seq LineStart (Lit ''diff --git '')) (Seq LineStart (Lit ''@@ ''))"
definition detectGitStatus :: rx where
  "detectGitStatus = alts [Seq LineStart (Lit ''On branch ''), Seq LineStart (Lit ''nothing to commit''),
     seqs [LineStart, Lit ''Changes '', Grp (Alt (Lit ''not '') (Lit ''to be ''))], Seq LineStart (Lit ''Untracked files:'')]"
definition detectBuild :: rx where
  "detectBuild = Seq LineStart (Grp (alts
     [Seq (ilit ''npm '') (Grp (alts [ilit ''warn'', ilit ''error'', ilit ''ERR!''])),
      Seq (ilit ''yarn '') (Grp (Alt (ilit ''warn'') (ilit ''error''))),
      seqs [Star cls_s, ilit ''Compiling'', plus cls_s, plus cls_S],
      seqs [Star cls_s, ilit ''Downloading'', plus cls_s, plus cls_S],
      seqs [ilit ''added '', plus is_digit, ilit '' package''],
      ilit ''[ERROR]'',
      Seq (ilit ''BUILD '') (Grp (Alt (ilit ''SUCCESS'') (ilit ''FAILED''))),
      seqs [Star cls_s, ilit ''Finished'', plus cls_s],
      Seq (ilit ''Successfully '') (Grp (Alt (ilit ''installed'') (ilit ''built''))),
      ilit ''ERROR:'']))"
definition detectTree :: rx where
  "detectTree = Alt
     (Seq (Alt (Lit [CHR 0xE2, CHR 0x94, CHR 0x9C]) (Lit [CHR 0xE2, CHR 0x94, CHR 0x94]))
          (Lit [CHR 0xE2, CHR 0x94, CHR 0x80, CHR 0xE2, CHR 0x94, CHR 0x80]))
     (Lit [CHR 0xE2, CHR 0x94, CHR 0x82, CHR 0x20, CHR 0x20])"
definition detectLSRow :: rx where
  "detectLSRow = seqs [TextStart, Cls (cls_in ''-dlbcps''), Rep (cls_in ''rwx-'') 9 9]"
definition detectLSTotal :: rx where
  "detectLSTotal = seqs [TextStart, Lit ''total '', plus is_digit, TextEnd]"
definition detectSearchList :: rx where
  "detectSearchList = seqs [TextStart, Lit search_header, Star (\<lambda>c. c \<noteq> CHR 0x27), Lit [CHR 0x27], Lit '' (total '',
     plus is_digit, Lit '' file'', opt (Lit ''s''), Lit ''):'']"
definition detectReadNumbered :: rx where
  "detectReadNumbered = seqs [TextStart, Star cls_s, plus is_digit, Lit ''|'']"

text \<open>The window ends at a rune start: \<open>utf8.RuneStart\<close> is every byte but 10xxxxxx.\<close>

fun window_end :: "bytes \<Rightarrow> nat \<Rightarrow> nat" where
  "window_end s 0 = 0"
| "window_end s (Suc n) = (if cont_byte (s ! Suc n) then window_end s n else Suc n)"

definition detect_head :: "bytes \<Rightarrow> bytes" where
  "detect_head s = (if length s > detectWindowBytes then take (window_end s detectWindowBytes) s else s)"

definition grepLine :: "bytes \<Rightarrow> bool" where
  "grepLine line =
     (case split_colons line of
        None \<Rightarrow> False
      | Some (_, lineNumber, _) \<Rightarrow> lineNumber \<noteq> [] \<and> list_all is_digit lineNumber)"

definition pathLike :: "bytes \<Rightarrow> bool" where
  "pathLike line =
     (let trimmed = trim_space line
      in if drive_prefix trimmed then True
         else if contains '':'' trimmed then False
         else has_prefix ''.'' trimmed \<or> has_prefix ''/'' trimmed \<or> contains_any [CHR ''/'', backslash] trimmed)"

definition porcelain_line :: "bytes \<Rightarrow> bool" where
  "porcelain_line line =
     (length line \<ge> 4 \<and> line ! 2 = CHR 0x20 \<and> List.member '' MADRCU?!'' (line ! 0) \<and> List.member '' MADRCU?!'' (line ! 1))"

definition mostlyPorcelain :: "bytes \<Rightarrow> bool" where
  "mostlyPorcelain head =
     (let lines = nonEmptyLines head
      in if length lines < 3 then False
         else 5 * length (filter porcelain_line lines) \<ge> 3 * length lines)"

definition mostlyLineNumbered :: "bytes list \<Rightarrow> bool" where
  "mostlyLineNumbered lines =
     (let nonEmpty = filter (\<lambda>line. line \<noteq> []) (take 100 lines);
          hits = filter (rx_matches detectReadNumbered) nonEmpty
      in length nonEmpty \<ge> 5 \<and> 10 * length hits \<ge> 7 * length nonEmpty)"

text \<open>The name of the filter \<open>Detect\<close> resolves.\<close>

definition detect_name :: "bytes \<Rightarrow> bytes option" where
  "detect_name input =
     (let head = detect_head input;
          lines = split_lines head;
          nonEmpty = filter (\<lambda>line. \<not> is_blank line) lines
      in if rx_matches detectGitLog head then Some ''git-log''
         else if rx_matches detectGitDiff head then Some ''git-diff''
         else if rx_matches detectGitStatus head then Some ''git-status''
         else if rx_matches detectBuild head then Some ''build-output''
         else if mostlyPorcelain head then Some ''git-status''
         else if list_ex grepLine (take 5 nonEmpty) then Some ''grep''
         else if length nonEmpty \<ge> 3 \<and> list_all pathLike nonEmpty then Some ''find''
         else if rx_matches detectTree head then Some ''tree''
         else if rx_matches detectLSTotal head \<or> length (filter (rx_matches detectLSRow) lines) \<ge> 3 then Some ''ls''
         else if rx_matches detectSearchList head then Some ''search-list''
         else if length lines \<ge> 250 \<and> mostlyLineNumbered lines then Some ''read-numbered''
         else if length nonEmpty \<ge> 5 then Some ''dedup-log''
         else if length (split_lines input) \<ge> 250 then Some ''smart-truncate''
         else None)"

definition Detect :: "(bytes list \<Rightarrow> bytes list) \<Rightarrow> bytes \<Rightarrow> text_filter option" where
  "Detect ord input = (case detect_name input of None \<Rightarrow> None | Some name \<Rightarrow> Resolve ord name)"

subsection \<open>Application\<close>

definition MinCompressBytes :: nat where "MinCompressBytes = 500"
definition MaxRawBytes :: nat where "MaxRawBytes = 10 * 1024 * 1024"

text \<open>The pair of a Go string and \<open>true\<close> is \<open>Some\<close>; \<open>input, false\<close> is \<open>None\<close>.\<close>

definition acceptReplacement :: "bytes \<Rightarrow> bytes \<Rightarrow> bytes option" where
  "acceptReplacement original candidate =
     (if candidate = [] \<or> length candidate \<ge> length original then None else Some candidate)"

text \<open>A panic of the filter yields its input; the modelled filters are total, so none occurs.\<close>

definition safelyApply :: "text_filter option \<Rightarrow> bytes \<Rightarrow> bytes" where
  "safelyApply f input = (case f of None \<Rightarrow> input | Some (_, apply) \<Rightarrow> apply input)"

definition compressPlainText :: "(bytes list \<Rightarrow> bytes list) \<Rightarrow> bytes \<Rightarrow> bytes option" where
  "compressPlainText ord input =
     (if length input < MinCompressBytes \<or> length input > MaxRawBytes then None
      else (case Detect ord input of
              None \<Rightarrow> None
            | Some f \<Rightarrow> acceptReplacement input (safelyApply (Some f) input)))"

definition compressText :: "'r gjson \<Rightarrow> (bytes list \<Rightarrow> bytes list) \<Rightarrow> bytes \<Rightarrow> bytes option" where
  "compressText g ord raw =
     (let output = gj_get g raw ''output''
      in if gj_valid g raw \<and> gj_is_object g (gj_parse g raw) \<and> gj_type g output = GString \<and> gj_index g output \<ge> 0 then
           (case compressPlainText ord (gj_string g output) of
              None \<Rightarrow> None
            | Some candidate \<Rightarrow>
                (let start = nat (gj_index g output);
                     stop = start + length (gj_raw g output)
                 in if stop > length raw \<or> take (stop - start) (drop start raw) \<noteq> gj_raw g output then None
                    else Some (take start raw @ json_string candidate @ drop stop raw)))
         else compressPlainText ord raw)"

text \<open>The replacement map, in slot order.\<close>

fun rtk_replacements :: "'r gjson \<Rightarrow> (bytes list \<Rightarrow> bytes list) \<Rightarrow> nat \<Rightarrow> text_slot list \<Rightarrow> (int \<times> bytes) list" where
  "rtk_replacements g ord i [] = []"
| "rtk_replacements g ord i (slot # slots) =
     (if ts_error slot then rtk_replacements g ord (Suc i) slots
      else (case compressText g ord (ts_text slot) of
              None \<Rightarrow> rtk_replacements g ord (Suc i) slots
            | Some candidate \<Rightarrow> (int i, candidate) # rtk_replacements g ord (Suc i) slots))"

definition rtk_apply :: "'r gjson \<Rightarrow> (bytes list \<Rightarrow> bytes list) \<Rightarrow> bytes \<Rightarrow> pair \<Rightarrow> bytes" where
  "rtk_apply g ord body pr =
     (case View g body pr of
        None \<Rightarrow> body
      | Some view \<Rightarrow> Rewrite view (rtk_replacements g ord 0 (Slots view)))"

subsection \<open>What the application replaces\<close>

lemma rtk_replacements_mem:
  "(j, new) \<in> set (rtk_replacements g ord i slots) \<Longrightarrow>
   \<exists>k < length slots. j = int (i + k) \<and> \<not> ts_error (slots ! k) \<and> compressText g ord (ts_text (slots ! k)) = Some new"
proof (induction slots arbitrary: i)
  case (Cons slot slots)
  show ?case
  proof (cases "(j, new) \<in> set (rtk_replacements g ord (Suc i) slots)")
    case True
    from Cons.IH [OF this] obtain k where "k < length slots" "j = int (Suc i + k)" "\<not> ts_error (slots ! k)"
      "compressText g ord (ts_text (slots ! k)) = Some new" by blast
    then show ?thesis by (intro exI [of _ "Suc k"]) simp
  next
    case False
    with Cons.prems show ?thesis by (intro exI [of _ 0]) (auto split: if_splits option.splits)
  qed
qed simp

lemma rtk_replacements_keys:
  "distinct (map fst (rtk_replacements g ord i slots)) \<and> (\<forall>j \<in> fst ` set (rtk_replacements g ord i slots). int i \<le> j)"
proof (induction slots arbitrary: i)
  case (Cons slot slots)
  from Cons.IH [of "Suc i"]
  have "distinct (map fst (rtk_replacements g ord (Suc i) slots))"
       "\<forall>j \<in> fst ` set (rtk_replacements g ord (Suc i) slots). int i < j" by auto
  then show ?case by (auto split: option.split)
qed simp

lemma compressPlainText_shrinks:
  "compressPlainText ord input = Some new \<Longrightarrow>
   new \<noteq> [] \<and> length new < length input \<and> MinCompressBytes \<le> length input \<and> length input \<le> MaxRawBytes"
  by (auto simp: compressPlainText_def acceptReplacement_def split: if_splits option.splits)

end
