(* ===== verification/RtkSpec.thy ===== *)
theory RtkSpec
  imports Rtk
begin

text \<open>
  What the RTK stage promises: only non-error tool results are replaced, each by a strictly shorter
  text a filter produced, and the bytes between them stay; the grouping filters count every match
  once; the duplicate collapser is a run-length encoding; truncation keeps both ends.
\<close>

subsection \<open>Groups\<close>

lemma group_add_get: "group_get (group_add k v m) k' = group_get m k' @ (if k' = k then [v] else [])"
  by (induction k v m rule: group_add.induct) (auto simp: group_get_def)

lemma group_add_keys: "set (map fst (group_add k v m)) = insert k (set (map fst m))"
  by (induction k v m rule: group_add.induct) auto

lemma group_add_distinct: "distinct (map fst m) \<Longrightarrow> distinct (map fst (group_add k v m))"
proof (induction k v m rule: group_add.induct)
  case (2 k v k' vs m)
  then show ?case using group_add_keys [of k v m] by (auto simp del: set_map)
qed simp

lemma group_fold:
  "group_get (foldl (\<lambda>m (k, v). group_add k v m) m kvs) f = group_get m f @ map snd (filter (\<lambda>kv. fst kv = f) kvs) \<and>
   set (map fst (foldl (\<lambda>m (k, v). group_add k v m) m kvs)) = set (map fst m) \<union> fst ` set kvs \<and>
   (distinct (map fst m) \<longrightarrow> distinct (map fst (foldl (\<lambda>m (k, v). group_add k v m) m kvs)))"
proof (induction kvs arbitrary: m)
  case (Cons kv kvs)
  obtain k v where kv: "kv = (k, v)" by (cases kv)
  show ?case
    using Cons [of "group_add k v m"] group_add_get [of k v m f] group_add_keys [of k v m] group_add_distinct [of m k v]
    by (simp add: kv)
qed simp

lemma group_all_get: "group_get (group_all kvs) f = map snd (filter (\<lambda>kv. fst kv = f) kvs)"
  using group_fold [of "[]" kvs f] by (simp add: group_all_def group_get_def)

lemma group_all_keys: "group_keys (group_all kvs) = sorted_list_of_set (fst ` set kvs)"
proof -
  have "set (map fst (group_all kvs)) = fst ` set kvs" "distinct (map fst (group_all kvs))"
    using group_fold [of "[]" kvs] by (simp_all add: group_all_def)
  then have "sort (map fst (group_all kvs)) = sort (remdups (map fst kvs))"
    by (intro sorted_distinct_unique) simp_all
  then show ?thesis by (simp add: group_keys_def sorted_list_of_set_sort_remdups flip: set_map)
qed

text \<open>The reports without a map: a section per name, in increasing order, with the entries seen under it.\<close>

definition grep_section :: "(bytes \<times> bytes \<times> bytes) list \<Rightarrow> bytes \<Rightarrow> bytes" where
  "grep_section found file =
     (let matches = map snd (filter (\<lambda>m. fst m = file) found)
      in ''[file] '' @ file @ '' ('' @ show_nat (length matches) @ ''):'' @ [nl]
         @ concat (map (\<lambda>(line, content). ''  '' @ pad4 line @ '': '' @ trim_space content @ [nl]) (take 10 matches))
         @ (if length matches > 10 then ''  +'' @ show_nat (length matches - 10) @ [nl] else []) @ [nl])"

definition find_section :: "(bytes \<times> bytes) list \<Rightarrow> bytes \<Rightarrow> bytes" where
  "find_section entries dir =
     (let files = map snd (filter (\<lambda>e. fst e = dir) entries)
      in slashed dir @ ''/  ('' @ show_nat (length files) @ '')'' @ [nl]
         @ concat (map (\<lambda>file. ''  '' @ file @ [nl]) (take 10 files))
         @ (if length files > 10 then ''  +'' @ show_nat (length files - 10) @ [nl] else []))"

lemma grep_file_section: "grep_file (group_all found) = grep_section found"
  by (rule ext) (simp only: grep_file_def grep_section_def group_all_get grepPerFileMax_def Let_def)

lemma find_dir_section: "find_dir (group_all entries) = find_section entries"
  by (rule ext) (simp only: find_dir_def find_section_def group_all_get findPerDirMax_def Let_def)


subsection \<open>Truncation\<close>

text \<open>The marker line names the number of lines it stands for.\<close>

definition cut_marker :: "bytes \<Rightarrow> nat \<Rightarrow> bytes" where
  "cut_marker suffix n = ''... +'' @ show_nat n @ suffix"

definition keep_ends :: "bytes \<Rightarrow> bytes list \<Rightarrow> bytes list" where
  "keep_ends suffix ls =
     take 120 ls @ [cut_marker suffix (length ls - 180)] @ drop (length ls - 60) ls"

lemma cut_marker_no_nl: "nl \<notin> set suffix \<Longrightarrow> nl \<notin> set (cut_marker suffix n)"
proof -
  have "nl \<notin> set ''... +''" by (simp add: nl_def)
  then show "nl \<notin> set suffix \<Longrightarrow> nl \<notin> set (cut_marker suffix n)"
    unfolding cut_marker_def set_append using nl_not_in_show_nat by blast
qed

lemma keep_ends_lines:
  assumes "nl \<notin> set suffix" "250 \<le> length (split_lines s)"
  shows "split_lines (join_lines (keep_ends suffix (split_lines s))) = keep_ends suffix (split_lines s)"
proof (rule split_join)
  fix x assume "x \<in> set (keep_ends suffix (split_lines s))"
  then have "x = cut_marker suffix (length (split_lines s) - 180) \<or> x \<in> set (split_lines s)"
    unfolding keep_ends_def by (auto dest: in_set_takeD in_set_dropD)
  then show "nl \<notin> set x"
    using split_byte_no_sep [of x nl s] cut_marker_no_nl [OF assms(1)] by blast
qed (simp add: keep_ends_def)

text \<open>
  C32. Truncation keeps both ends: a text of fewer than 250 lines is unchanged; any other becomes 181
  lines, the first 120, one marker with the exact number of dropped lines, and the last 60, and
  truncating again changes nothing.
\<close>
theorem truncation_keeps_ends:
  "split_lines (SmartTruncate input) =
     (if length (split_lines input) < 250 then split_lines input
      else keep_ends '' lines truncated'' (split_lines input))
   \<and> split_lines (ReadNumbered input) =
     (if length (split_lines input) < 250 then split_lines input
      else keep_ends '' lines truncated (file continues)'' (split_lines input))
   \<and> SmartTruncate (SmartTruncate input) = SmartTruncate input
   \<and> ReadNumbered (ReadNumbered input) = ReadNumbered input"
proof -
  have S: "SmartTruncate s = (if length (split_lines s) < 250 then s else join_lines (keep_ends '' lines truncated'' (split_lines s)))"
   and R: "ReadNumbered s = (if length (split_lines s) < 250 then s else join_lines (keep_ends '' lines truncated (file continues)'' (split_lines s)))" for s
    by (simp_all add: SmartTruncate_def ReadNumbered_def Let_def keep_ends_def cut_marker_def smartMinLines_def
        smartHeadLines_def smartTailLines_def)
  have n: "nl \<notin> set '' lines truncated''" "nl \<notin> set '' lines truncated (file continues)''" by (simp_all add: nl_def)
  have len: "length (keep_ends suffix ls) < 250" if "250 \<le> length ls" for suffix and ls :: "bytes list"
    using that by (simp add: keep_ends_def)
  show ?thesis
    using keep_ends_lines [OF n(1)] keep_ends_lines [OF n(2)] len by (simp add: S R)
qed

subsection \<open>The duplicate collapser\<close>

definition same_run :: "bytes \<Rightarrow> bytes \<Rightarrow> bool" where
  "same_run x y \<longleftrightarrow> is_blank x \<and> is_blank y \<or> \<not> is_blank x \<and> x = y"

fun log_groups :: "bytes list \<Rightarrow> (bytes \<times> nat) list" where
  "log_groups [] = []"
| "log_groups (x # xs) =
     (case log_groups xs of
        (y, n) # gs \<Rightarrow> if same_run x y then (x, Suc n) # gs else (x, 1) # (y, n) # gs
      | [] \<Rightarrow> [(x, 1)])"

definition dup_marker :: "nat \<Rightarrow> bytes list" where
  "dup_marker n = (if n > 1 then [''  ... ('' @ show_nat (n - 1) @ '' duplicate lines)''] else [])"

text \<open>The marker of a run comes after the run, and after the blank line when one follows.\<close>

fun log_after :: "nat \<Rightarrow> (bytes \<times> nat) list \<Rightarrow> bytes list" and log_render :: "(bytes \<times> nat) list \<Rightarrow> bytes list" where
  "log_after n [] = dup_marker n"
| "log_after n ((y, m) # gs) = (if is_blank y then y # dup_marker n @ log_render gs else dup_marker n @ y # log_after m gs)"
| "log_render [] = []"
| "log_render ((x, n) # gs) = (if is_blank x then x # log_render gs else x # log_after n gs)"

definition join_run :: "bytes \<Rightarrow> nat \<Rightarrow> (bytes \<times> nat) list \<Rightarrow> nat \<times> (bytes \<times> nat) list" where
  "join_run p r gs = (case gs of (y, n) # gs' \<Rightarrow> if y = p then (r + n, gs') else (r, gs) | [] \<Rightarrow> (r, []))"

definition drop_blank :: "(bytes \<times> nat) list \<Rightarrow> (bytes \<times> nat) list" where
  "drop_blank gs = (case gs of (y, n) # gs' \<Rightarrow> if is_blank y then gs' else gs | [] \<Rightarrow> [])"

lemma log_groups_text:
  "\<not> is_blank x \<Longrightarrow> log_groups (x # xs) = (x, fst (join_run x 1 (log_groups xs))) # snd (join_run x 1 (log_groups xs))"
  by (auto simp: join_run_def same_run_def split: list.splits)

lemma log_groups_blank: "is_blank x \<Longrightarrow> \<exists>n. log_groups (x # xs) = (x, n) # drop_blank (log_groups xs)"
  by (auto simp: drop_blank_def same_run_def split: list.splits)

lemma join_run_Suc: "join_run p (Suc r) gs = (r + fst (join_run p 1 gs), snd (join_run p 1 gs))"
  by (auto simp: join_run_def split: list.splits)

lemma dedup_flush_out:
  "dl_have s \<Longrightarrow> dedup_flush s = s\<lparr>dl_out := dl_out s @ dup_marker (dl_run s)\<rparr>"
  "\<not> dl_have s \<Longrightarrow> dedup_flush s = s"
  by (simp_all add: dedup_flush_def dup_marker_def)

text \<open>The five steps of the loop.\<close>

lemma dedup_loop_steps:
  "is_blank x \<Longrightarrow> 0 < dl_blank s \<Longrightarrow> \<not> dl_have s \<Longrightarrow>
     dedup_loop (x # xs) s = dedup_loop xs (s\<lparr>dl_blank := dl_blank s + 1, dl_have := False, dl_run := 0\<rparr>)"
  "is_blank x \<Longrightarrow> dl_blank s = 0 \<Longrightarrow> \<not> dl_have s \<Longrightarrow>
     dedup_loop (x # xs) s = dedup_loop xs (s\<lparr>dl_out := dl_out s @ [x], dl_blank := 1, dl_have := False, dl_run := 0\<rparr>)"
  "is_blank x \<Longrightarrow> dl_blank s = 0 \<Longrightarrow> dl_have s \<Longrightarrow>
     dedup_loop (x # xs) s = dedup_loop xs (s\<lparr>dl_out := dl_out s @ x # dup_marker (dl_run s), dl_blank := 1, dl_have := False, dl_run := 0\<rparr>)"
  "\<not> is_blank x \<Longrightarrow> dl_have s \<Longrightarrow> x = dl_previous s \<Longrightarrow>
     dedup_loop (x # xs) s = dedup_loop xs (s\<lparr>dl_blank := 0, dl_run := Suc (dl_run s)\<rparr>)"
  "\<not> is_blank x \<Longrightarrow> \<not> dl_have s \<or> x \<noteq> dl_previous s \<Longrightarrow>
     length (dl_out s @ (if dl_have s then dup_marker (dl_run s) else []) @ [x]) < 2000 \<Longrightarrow>
     dedup_loop (x # xs) s = dedup_loop xs (s\<lparr>dl_blank := 0, dl_out := dl_out s @ (if dl_have s then dup_marker (dl_run s) else []) @ [x],
       dl_previous := x, dl_have := True, dl_run := 1\<rparr>)"
  by (cases s; auto simp: dedup_flush_def dup_marker_def dedupLineMax_def Let_def)+

lemma join_run_head: "join_run p r ((p, n) # gs) = (r + n, gs)"
  by (simp add: join_run_def)

lemma join_run_other: "y \<noteq> p \<Longrightarrow> join_run p r ((y, n) # gs) = (r, (y, n) # gs)"
  by (simp add: join_run_def)

lemma dedup_loop_groups:
  "(\<not> dl_have s \<and> dl_blank s = 0 \<and> length (dl_out s @ log_render (log_groups xs)) < 2000 \<longrightarrow>
      dedup_loop xs s = join_lines (dl_out s @ log_render (log_groups xs))) \<and>
   (dl_have s \<and> dl_blank s = 0 \<and> 0 < dl_run s \<and> \<not> is_blank (dl_previous s) \<and>
      length (dl_out s @ (case join_run (dl_previous s) (dl_run s) (log_groups xs) of (r, gs) \<Rightarrow> log_after r gs)) < 2000 \<longrightarrow>
      dedup_loop xs s = join_lines (dl_out s @ (case join_run (dl_previous s) (dl_run s) (log_groups xs) of (r, gs) \<Rightarrow> log_after r gs))) \<and>
   (\<not> dl_have s \<and> 0 < dl_blank s \<and> length (dl_out s @ log_render (drop_blank (log_groups xs))) < 2000 \<longrightarrow>
      dedup_loop xs s = join_lines (dl_out s @ log_render (drop_blank (log_groups xs))))"
proof (induction xs arbitrary: s)
  case Nil
  then show ?case by (simp add: dedup_flush_out join_run_def drop_blank_def)
next
  case (Cons x xs)
  let ?G = "log_groups xs"
  let ?j = "join_run x 1 ?G"
  have textl: "dedup_loop xs s' = join_lines (dl_out s' @ log_after (fst (join_run x (dl_run s') ?G)) (snd (join_run x (dl_run s') ?G)))"
    if "\<not> is_blank x" "dl_have s'" "dl_blank s' = 0" "0 < dl_run s'" "dl_previous s' = x"
      "length (dl_out s' @ log_after (fst (join_run x (dl_run s') ?G)) (snd (join_run x (dl_run s') ?G))) < 2000" for s'
    using Cons.IH [of s'] that by (simp add: case_prod_unfold)
  have nonb: "dedup_loop xs s' = join_lines (dl_out s' @ log_render (drop_blank ?G))"
    if "\<not> dl_have s'" "0 < dl_blank s'" "length (dl_out s' @ log_render (drop_blank ?G)) < 2000" for s'
    using Cons.IH [of s'] that by simp
  show ?case
  proof (cases "is_blank x")
    case True
    then obtain n where g: "log_groups (x # xs) = (x, n) # drop_blank ?G" using log_groups_blank by blast
    show ?thesis
    proof (intro conjI impI, goal_cases)
      case 1
      then show ?case unfolding g using True by (simp add: dedup_loop_steps(2) nonb del: dedup_loop.simps log_groups.simps)
    next
      case 2
      then have "x \<noteq> dl_previous s" using True by auto
      with 2 show ?case unfolding g using True
        by (simp add: dedup_loop_steps(3) nonb join_run_def del: dedup_loop.simps log_groups.simps)
    next
      case 3
      then show ?case unfolding g using True
        by (simp add: dedup_loop_steps(1) nonb drop_blank_def del: dedup_loop.simps log_groups.simps)
    qed
  next
    case False
    note g = log_groups_text [OF False, of xs]
    show ?thesis
    proof (intro conjI impI, goal_cases)
      case 1
      then show ?case unfolding g using False
        by (simp add: dedup_loop_steps(5) textl del: dedup_loop.simps log_groups.simps)
    next
      case 2
      show ?case
      proof (cases "x = dl_previous s")
        case True
        let ?s = "s\<lparr>dl_blank := 0, dl_run := Suc (dl_run s)\<rparr>"
        have j: "join_run x (dl_run ?s) ?G = (dl_run s + fst ?j, snd ?j)" using join_run_Suc [of x "dl_run s" ?G] by simp
        have h: "join_run (dl_previous s) (dl_run s) (log_groups (x # xs)) = (dl_run s + fst ?j, snd ?j)"
          unfolding g True [symmetric] by (rule join_run_head)
        have "dedup_loop (x # xs) s = dedup_loop xs ?s" using 2 False True by (intro dedup_loop_steps(4)) auto
        also have "\<dots> = join_lines (dl_out s @ log_after (dl_run s + fst ?j) (snd ?j))"
          using textl [of ?s] 2 False True unfolding j h by simp
        finally show ?thesis unfolding h by simp
      next
        case ne: False
        with 2 False show ?thesis unfolding g
          by (simp add: dedup_loop_steps(5) textl join_run_other del: dedup_loop.simps log_groups.simps)
      qed
    next
      case 3
      then show ?case unfolding g using False
        by (simp add: dedup_loop_steps(5) textl drop_blank_def del: dedup_loop.simps log_groups.simps)
    qed
  qed
qed



subsection \<open>Git status\<close>

text \<open>A line of \<open>git status --porcelain\<close>: neither a heading nor a branch line of the long format.\<close>

definition short_line :: "bytes \<Rightarrow> bool" where
  "short_line raw \<longleftrightarrow> \<not> has_prefix ''On branch '' raw \<and>
     (length (trim_left_set [CHR 0x20, CHR 0x09] raw) \<noteq> length raw \<or> status_heading (trim_space raw) status_start = None)"

definition short_entry :: "bytes \<Rightarrow> bool" where
  "short_entry raw \<longleftrightarrow> \<not> has_prefix ''##'' raw \<and> 3 \<le> length raw \<and> raw ! 2 = CHR 0x20"

definition short_untracked :: "bytes \<Rightarrow> bool" where
  "short_untracked raw \<longleftrightarrow> short_entry raw \<and> raw ! 0 = CHR ''?'' \<and> raw ! 1 = CHR ''?''"

definition short_staged :: "bytes \<Rightarrow> bool" where
  "short_staged raw \<longleftrightarrow> short_entry raw \<and> raw ! 0 \<in> set ''MADRC''"

definition short_modified :: "bytes \<Rightarrow> bool" where
  "short_modified raw \<longleftrightarrow> short_entry raw \<and> \<not> short_untracked raw \<and> raw ! 1 \<in> set ''MD''"

definition short_conflict :: "bytes \<Rightarrow> bool" where
  "short_conflict raw \<longleftrightarrow> short_entry raw \<and> raw ! 0 = CHR ''U''"

lemma status_heading_None: "status_heading t s = None \<longleftrightarrow> status_heading t s' = None"
  by (simp add: status_heading_def)

lemma status_step_short:
  assumes "short_line raw" "st_section s = NoSection"
  shows "status_step raw s =
     (if has_prefix ''##'' raw then s\<lparr>st_branch := trim_space (trim_prefix ''##'' raw), st_porcelain_header := True\<rparr>
      else status_porcelain raw s)"
proof -
  have "(if \<not> length (trim_left_set [CHR 0x20, CHR 0x09] raw) \<noteq> length raw then status_heading (trim_space raw) s else None) = None"
    using assms(1) status_heading_None [of "trim_space raw" s status_start] by (simp add: short_line_def)
  with assms show ?thesis by (simp add: status_step_def Let_def short_line_def del: split_paired_All)
qed

lemma member_in: "List.member xs x \<longleftrightarrow> x \<in> set xs"
  by (induction xs) auto

lemma status_porcelain_fields:
  assumes "\<not> has_prefix ''##'' raw"
  shows "st_section (status_porcelain raw s) = st_section s"
    "st_unreliable (status_porcelain raw s) = st_unreliable s"
    "st_clean (status_porcelain raw s) = st_clean s"
    "st_has_entry (status_porcelain raw s) = st_has_entry s"
    "st_porcelain_header (status_porcelain raw s) = st_porcelain_header s"
    "st_branch (status_porcelain raw s) = st_branch s"
    "st_staged (status_porcelain raw s) = st_staged s @ (if short_staged raw then [drop 3 raw] else [])"
    "st_modified (status_porcelain raw s) = st_modified s @ (if short_modified raw then [drop 3 raw] else [])"
    "st_untracked (status_porcelain raw s) = st_untracked s @ (if short_untracked raw then [drop 3 raw] else [])"
    "st_conflicts (status_porcelain raw s) = st_conflicts s + (if short_conflict raw then 1 else 0)"
    "st_porcelain_entry (status_porcelain raw s) = (st_porcelain_entry s \<or> short_entry raw)"
proof -
  note defs = status_porcelain_def short_staged_def short_modified_def short_untracked_def short_conflict_def short_entry_def Let_def member_in
  show "st_section (status_porcelain raw s) = st_section s"
    "st_unreliable (status_porcelain raw s) = st_unreliable s"
    "st_clean (status_porcelain raw s) = st_clean s"
    "st_has_entry (status_porcelain raw s) = st_has_entry s"
    "st_porcelain_header (status_porcelain raw s) = st_porcelain_header s"
    "st_branch (status_porcelain raw s) = st_branch s"
    by (simp_all add: status_porcelain_def Let_def)
  show "st_staged (status_porcelain raw s) = st_staged s @ (if short_staged raw then [drop 3 raw] else [])"
    using assms by (auto simp: defs)
  show "st_modified (status_porcelain raw s) = st_modified s @ (if short_modified raw then [drop 3 raw] else [])"
    using assms by (auto simp: defs)
  show "st_untracked (status_porcelain raw s) = st_untracked s @ (if short_untracked raw then [drop 3 raw] else [])"
    using assms by (auto simp: defs)
  show "st_conflicts (status_porcelain raw s) = st_conflicts s + (if short_conflict raw then 1 else 0)"
    using assms by (auto simp: defs)
  show "st_porcelain_entry (status_porcelain raw s) = (st_porcelain_entry s \<or> short_entry raw)"
    using assms by (auto simp: defs)
qed

text \<open>A finished run over porcelain lines, read off the lines.\<close>

lemma status_fold_short:
  assumes "\<forall>raw \<in> set ls. short_line raw" "st_section s = NoSection"
  shows "st_section (foldl (\<lambda>s raw. status_step raw s) s ls) = NoSection
     \<and> st_unreliable (foldl (\<lambda>s raw. status_step raw s) s ls) = st_unreliable s
     \<and> st_clean (foldl (\<lambda>s raw. status_step raw s) s ls) = st_clean s
     \<and> st_staged (foldl (\<lambda>s raw. status_step raw s) s ls) = st_staged s @ map (drop 3) (filter short_staged ls)
     \<and> st_modified (foldl (\<lambda>s raw. status_step raw s) s ls) = st_modified s @ map (drop 3) (filter short_modified ls)
     \<and> st_untracked (foldl (\<lambda>s raw. status_step raw s) s ls) = st_untracked s @ map (drop 3) (filter short_untracked ls)
     \<and> st_conflicts (foldl (\<lambda>s raw. status_step raw s) s ls) = st_conflicts s + length (filter short_conflict ls)
     \<and> st_porcelain_entry (foldl (\<lambda>s raw. status_step raw s) s ls) = (st_porcelain_entry s \<or> list_ex short_entry ls)
     \<and> st_porcelain_header (foldl (\<lambda>s raw. status_step raw s) s ls) = (st_porcelain_header s \<or> list_ex (has_prefix ''##'') ls)"
  using assms
proof (induction ls arbitrary: s)
  case (Cons raw ls)
  let ?s = "status_step raw s"
  have step: "?s = (if has_prefix ''##'' raw then s\<lparr>st_branch := trim_space (trim_prefix ''##'' raw), st_porcelain_header := True\<rparr>
      else status_porcelain raw s)"
    using Cons.prems by (intro status_step_short) auto
  have f: "st_section ?s = NoSection" "st_unreliable ?s = st_unreliable s" "st_clean ?s = st_clean s"
    "st_staged ?s = st_staged s @ (if short_staged raw then [drop 3 raw] else [])"
    "st_modified ?s = st_modified s @ (if short_modified raw then [drop 3 raw] else [])"
    "st_untracked ?s = st_untracked s @ (if short_untracked raw then [drop 3 raw] else [])"
    "st_conflicts ?s = st_conflicts s + (if short_conflict raw then 1 else 0)"
    "st_porcelain_entry ?s = (st_porcelain_entry s \<or> short_entry raw)"
    "st_porcelain_header ?s = (st_porcelain_header s \<or> has_prefix ''##'' raw)"
    using Cons.prems(2) status_porcelain_fields [of raw s] unfolding step
    by (simp_all add: short_staged_def short_modified_def short_untracked_def short_conflict_def short_entry_def)
  show ?case
    using Cons.IH [of ?s] Cons.prems(1) f by (simp del: has_prefix.simps)
qed simp

lemma status_parse_short:
  assumes "\<forall>raw \<in> set (split_lines input). short_line raw"
  shows "status_parse input = foldl (\<lambda>s raw. status_step raw s) status_start (split_lines input)\<lparr>st_has_entry := False\<rparr>"
  using status_fold_short [OF assms, of status_start] by (simp add: status_parse_def finishSection_def status_start_def)



subsection \<open>The stage\<close>

text \<open>The text a filter is chosen for, and the place it is written back to.\<close>

definition shrunk :: "(bytes list \<Rightarrow> bytes list) \<Rightarrow> bytes \<Rightarrow> bytes \<Rightarrow> bool" where
  "shrunk ord old new \<longleftrightarrow> new \<noteq> [] \<and> length new < length old \<and> 500 \<le> length old \<and> length old \<le> 10485760
     \<and> (\<exists>name apply. detect_name old = Some name \<and> (name, apply) \<in> set (registry ord) \<and> new = apply old)"

lemma find_mem: "find P xs = Some x \<Longrightarrow> x \<in> set xs \<and> P x"
  by (induction xs) (auto split: if_splits)

lemma detect_name_plain: "detect_name input = Some name \<Longrightarrow> name \<noteq> ''rg'' \<and> name \<noteq> ''fd''"
  by (auto simp: detect_name_def Let_def split: if_splits)

lemma Detect_registry:
  assumes "Detect ord input = Some f"
  shows "detect_name input = Some (fst f) \<and> f \<in> set (registry ord)"
proof -
  obtain name where n: "detect_name input = Some name" "Resolve ord name = Some f"
    using assms by (auto simp: Detect_def split: option.splits)
  have "find (\<lambda>f. fst f = name) (registry ord) = Some f"
    using n(2) detect_name_plain [OF n(1)] by (simp add: Resolve_def)
  from find_mem [OF this] n(1) show ?thesis by simp
qed

lemma compressPlainText_shrunk:
  assumes "compressPlainText ord input = Some new"
  shows "shrunk ord input new"
proof -
  obtain f where f: "Detect ord input = Some f" "acceptReplacement input (safelyApply (Some f) input) = Some new"
    using assms by (auto simp: compressPlainText_def split: if_splits option.splits)
  then have "new = snd f input" by (cases f) (auto simp: acceptReplacement_def safelyApply_def split: if_splits)
  with compressPlainText_shrinks [OF assms] Detect_registry [OF f(1)] show ?thesis
    unfolding shrunk_def MinCompressBytes_def MaxRawBytes_def by (cases f) auto
qed

text \<open>A slot's new text: the whole text shrunk, or the string field \<open>output\<close> of a JSON text shrunk.\<close>

definition compressed :: "'r gjson \<Rightarrow> (bytes list \<Rightarrow> bytes list) \<Rightarrow> bytes \<Rightarrow> bytes \<Rightarrow> bool" where
  "compressed g ord old new \<longleftrightarrow> shrunk ord old new \<or>
     (\<exists>before after candidate. old = before @ gj_raw g (gj_get g old ''output'') @ after
        \<and> new = before @ json_string candidate @ after
        \<and> shrunk ord (gj_string g (gj_get g old ''output'')) candidate)"

lemma compressText_compressed:
  assumes "compressText g ord old = Some new"
  shows "compressed g ord old new"
proof -
  let ?o = "gj_get g old ''output''"
  let ?i = "nat (gj_index g ?o)"
  show ?thesis
  proof (cases "gj_valid g old \<and> gj_is_object g (gj_parse g old) \<and> gj_type g ?o = GString \<and> gj_index g ?o \<ge> 0")
    case True
    then obtain c where c: "compressPlainText ord (gj_string g ?o) = Some c"
      "take (length (gj_raw g ?o)) (drop ?i old) = gj_raw g ?o"
      "new = take ?i old @ json_string c @ drop (?i + length (gj_raw g ?o)) old"
      using assms by (auto simp: compressText_def Let_def split: option.splits if_splits)
    have "old = take ?i old @ gj_raw g ?o @ drop (?i + length (gj_raw g ?o)) old"
      using take_append_drop_mid [of ?i "?i + length (gj_raw g ?o)" old] c(2) by simp
    with c compressPlainText_shrunk [OF c(1)] show ?thesis unfolding compressed_def by blast
  next
    case False
    then have "compressPlainText ord old = Some new" using assms by (auto simp: compressText_def Let_def split: if_splits)
    from compressPlainText_shrunk [OF this] show ?thesis by (simp add: compressed_def)
  qed
qed



end
