(* ===== verification/Inject.thy ===== *)
theory Inject
  imports Payload Prompts
begin

text \<open>
  \<open>internal/prompt/inject.go\<close>: the instruction blocks appended to a provider payload.  Every
  path of \<open>Inject\<close> either returns the body or inserts one contiguous piece of text per stage.
\<close>

definition cavemanStart :: bytes where "cavemanStart = ''[CPA_TOKEN_SAVER_CAVEMAN_START]''"
definition cavemanEnd :: bytes where "cavemanEnd = ''[CPA_TOKEN_SAVER_CAVEMAN_END]''"
definition ponytailStart :: bytes where "ponytailStart = ''[CPA_TOKEN_SAVER_PONYTAIL_START]''"
definition ponytailEnd :: bytes where "ponytailEnd = ''[CPA_TOKEN_SAVER_PONYTAIL_END]''"

record prompt_options =
  CavemanLevel :: bytes
  PonytailLevel :: bytes

record prompt_stage =
  stg_start :: bytes
  stg_end :: bytes
  stg_prompt :: bytes
  stg_insert_before :: bytes
  stg_first :: bool

subsection \<open>Supported shapes\<close>

definition validOpenAIMessages :: "'r gjson \<Rightarrow> 'r \<Rightarrow> bool" where
  "validOpenAIMessages g messages =
     (if \<not> gj_is_array g messages then False
      else let items = gj_array g messages
           in if items = [] then False
              else list_all (\<lambda>message. gj_is_object g message \<and>
                     List.member [''system'', ''developer'', ''user'', ''assistant'', ''tool'', ''function'']
                       (gj_string g (gj_sub g message ''role''))) items)"

text \<open>One item of a Responses input: whether the loop goes on.\<close>

definition validResponsesItem :: "'r gjson \<Rightarrow> 'r \<Rightarrow> bool" where
  "validResponsesItem g item =
     (if \<not> gj_is_object g item then False
      else
        let role = gj_sub g item ''role'';
            itemType = gj_sub g item ''type''
        in if gj_type g itemType = GString \<and> gj_string g itemType \<noteq> [] \<and> gj_string g itemType \<noteq> ''message'' then True
           else if gj_exists g role then
             (if \<not> List.member [''system'', ''developer'', ''user'', ''assistant''] (gj_string g role) then False
              else gj_exists g (gj_sub g item ''content''))
           else False)"

definition validResponsesInput :: "'r gjson \<Rightarrow> 'r \<Rightarrow> bool" where
  "validResponsesInput g input =
     (if \<not> gj_is_array g input then False
      else let items = gj_array g input
           in if items = [] then False else list_all (validResponsesItem g) items)"

definition validClaudeMessages :: "'r gjson \<Rightarrow> 'r \<Rightarrow> bool" where
  "validClaudeMessages g messages =
     (if \<not> gj_is_array g messages then False
      else let items = gj_array g messages
           in if items = [] then False
              else list_all (\<lambda>message.
                     if \<not> gj_is_object g message \<or> \<not> gj_exists g (gj_sub g message ''content'') then False
                     else let role = gj_string g (gj_sub g message ''role'')
                          in \<not> (role \<noteq> ''user'' \<and> role \<noteq> ''assistant'')) items)"

definition validGeminiContents :: "'r gjson \<Rightarrow> 'r \<Rightarrow> bool" where
  "validGeminiContents g contents =
     (if \<not> gj_is_array g contents then False
      else let items = gj_array g contents
           in if items = [] then False
              else list_all (\<lambda>content.
                     if \<not> gj_is_object g content \<or> \<not> gj_is_array g (gj_sub g content ''parts'') then False
                     else let role = gj_string g (gj_sub g content ''role'')
                          in \<not> (role \<noteq> ''user'' \<and> role \<noteq> ''model'')) items)"

definition validGeminiShape :: "'r gjson \<Rightarrow> bytes \<Rightarrow> bytes \<Rightarrow> bool" where
  "validGeminiShape g body prefix =
     (if \<not> validGeminiContents g (gj_get g body (prefix @ ''contents'')) then False
      else
        let camel = gj_get g body (prefix @ ''systemInstruction'');
            snake = gj_get g body (prefix @ ''system_instruction'')
        in if gj_exists g camel \<and> gj_exists g snake then False
           else let system = (if \<not> gj_exists g camel then snake else camel)
                in \<not> gj_exists g system \<or>
                   gj_is_object g system \<and> gj_is_array g (gj_get g (gj_raw g system) ''parts''))"

definition supportedShape :: "'r gjson \<Rightarrow> bytes \<Rightarrow> bytes \<Rightarrow> bool" where
  "supportedShape g body target =
     (if target = ''openai'' then validOpenAIMessages g (gj_get g body ''messages'')
      else if target = ''openai-response'' \<or> target = ''codex'' then
        (if \<not> validResponsesInput g (gj_get g body ''input'') then False
         else let instructions = gj_get g body ''instructions''
              in \<not> gj_exists g instructions \<or> gj_type g instructions = GString)
      else if target = ''claude'' then
        (if \<not> validClaudeMessages g (gj_get g body ''messages'') then False
         else let system = gj_get g body ''system''
              in \<not> gj_exists g system \<or> gj_type g system = GString \<or> gj_is_array g system)
      else if target = ''gemini'' then validGeminiShape g body []
      else if target = ''antigravity'' then
        gj_is_object g (gj_get g body ''request'') \<and> validGeminiShape g body ''request.''
      else False)"

subsection \<open>Insertions\<close>

definition mustJSON :: "bytes \<Rightarrow> bytes" where
  "mustJSON v = json_string v"

definition insertBytes :: "bytes \<Rightarrow> int \<Rightarrow> bytes \<Rightarrow> bytes" where
  "insertBytes body position insertion =
     (if position < 0 \<or> position > int (length body) \<or> insertion = [] then body
      else take (nat position) body @ insertion @ drop (nat position) body)"

definition geminiTextPart :: "bytes \<Rightarrow> bytes" where
  "geminiTextPart t = ''{'' @ [quote] @ ''text'' @ [quote] @ '':'' @ mustJSON t @ ''}''"

definition textPart :: "bytes \<Rightarrow> bytes \<Rightarrow> bytes" where
  "textPart kind t = ''{'' @ [quote] @ ''type'' @ [quote] @ '':'' @ mustJSON kind @ '','' @ [quote] @ ''text'' @ [quote]
     @ '':'' @ mustJSON t @ ''}''"

definition messagePart :: "bytes \<Rightarrow> bytes" where
  "messagePart t = ''{'' @ [quote] @ ''role'' @ [quote] @ '':'' @ [quote] @ ''system'' @ [quote] @ '','' @ [quote]
     @ ''content'' @ [quote] @ '':'' @ mustJSON t @ ''}''"

text \<open>The text and the offset in the literal of \<open>injectJSONString\<close>.\<close>

definition json_insertion :: "'r gjson \<Rightarrow> 'r \<Rightarrow> bytes \<Rightarrow> bytes \<Rightarrow> nat \<times> bytes" where
  "json_insertion g target block beforeMarker =
     (let position = length (gj_raw g target) - 1
      in if beforeMarker \<noteq> [] then
           (case index_of beforeMarker (gj_raw g target) of
              Some marker \<Rightarrow> (marker, block @ [nl, nl])
            | None \<Rightarrow> (position, if gj_string g target \<noteq> [] then [nl, nl] @ block else block))
         else (position, if gj_string g target \<noteq> [] then [nl, nl] @ block else block))"

definition injectJSONString :: "'r gjson \<Rightarrow> bytes \<Rightarrow> 'r \<Rightarrow> bytes \<Rightarrow> bytes \<Rightarrow> bytes" where
  "injectJSONString g body target block beforeMarker =
     (if gj_type g target \<noteq> GString \<or> length (gj_raw g target) < 2 then body
      else (case json_insertion g target block beforeMarker of
        (position, insertion) \<Rightarrow>
          (let encoded = mustJSON insertion
           in insertBytes body (gj_index g target + int position) (take (length encoded - 2) (drop 1 encoded)))))"

definition prependArrayItem :: "'r gjson \<Rightarrow> bytes \<Rightarrow> 'r \<Rightarrow> bytes \<Rightarrow> bytes" where
  "prependArrayItem g body array item =
     (if \<not> gj_is_array g array \<or> length (gj_raw g array) < 2 then body
      else insertBytes body (gj_index g array + 1) (if gj_array g array \<noteq> [] then item @ '','' else item))"

definition appendArrayItem :: "'r gjson \<Rightarrow> bytes \<Rightarrow> 'r \<Rightarrow> bytes \<Rightarrow> bytes" where
  "appendArrayItem g body array item =
     (if \<not> gj_is_array g array \<or> length (gj_raw g array) < 2 then body
      else insertBytes body (gj_index g array + int (length (gj_raw g array)) - 1)
             (if gj_array g array \<noteq> [] then '','' @ item else item))"

definition appendObjectField :: "'r gjson \<Rightarrow> bytes \<Rightarrow> 'r \<Rightarrow> bytes \<Rightarrow> bytes \<Rightarrow> bytes" where
  "appendObjectField g body object key v =
     (let raw = trim_right_set [CHR 0x20, CHR 0x09, CHR 0x0D, CHR 0x0A] (gj_raw g object)
      in if \<not> gj_is_object g object \<or> length raw < 2 then body
         else insertBytes body (gj_index g object + int (length raw) - 1) ('','' @ mustJSON key @ '':'' @ v))"

definition appendRootField :: "'r gjson \<Rightarrow> bytes \<Rightarrow> bytes \<Rightarrow> bytes \<Rightarrow> bytes" where
  "appendRootField g body key v = appendObjectField g body (gj_parse g body) key v"

subsection \<open>Targets\<close>

definition selectText :: "'r list \<Rightarrow> bool \<Rightarrow> 'r option" where
  "selectText results first = (if results = [] then None else if first then Some (hd results) else Some (last results))"

definition textBlockTargets :: "'r gjson \<Rightarrow> 'r \<Rightarrow> bytes \<Rightarrow> 'r list" where
  "textBlockTargets g array requiredType =
     concat (map (\<lambda>part.
       if \<not> gj_is_object g part then []
       else if requiredType \<noteq> [] \<and>
            (gj_type g (gj_sub g part ''type'') \<noteq> GString \<or> gj_string g (gj_sub g part ''type'') \<noteq> requiredType) then []
       else let t = gj_sub g part ''text'' in if gj_type g t = GString then [t] else []) (gj_array g array))"

text \<open>The texts and the arrays one message contributes to \<open>messageInstructionTargets\<close>.\<close>

definition message_targets :: "'r gjson \<Rightarrow> bytes \<Rightarrow> 'r \<Rightarrow> 'r list \<times> 'r list" where
  "message_targets g textType message =
     (if \<not> gj_is_object g message then ([], [])
      else
        let role = gj_sub g message ''role''
        in if gj_string g role \<noteq> ''system'' \<and> gj_string g role \<noteq> ''developer'' then ([], [])
           else
             let content = gj_sub g message ''content''
             in if gj_type g content = GString then ([content], [])
                else if gj_is_array g content then (textBlockTargets g content textType, [content])
                else ([], []))"

definition messageInstructionTargets :: "'r gjson \<Rightarrow> bytes \<Rightarrow> bytes \<Rightarrow> bytes \<Rightarrow> 'r list \<times> 'r list" where
  "messageInstructionTargets g body arrayPath textType =
     (let ts = map (message_targets g textType) (gj_array g (gj_get g body arrayPath))
      in (concat (map fst ts), concat (map snd ts)))"

definition injectOpenAI :: "'r gjson \<Rightarrow> bytes \<Rightarrow> bytes \<Rightarrow> prompt_stage \<Rightarrow> bytes" where
  "injectOpenAI g body block stage =
     (let messages = gj_get g body ''messages'';
          (texts, arrays) = messageInstructionTargets g body ''messages'' ''text''
      in (case selectText texts (stg_first stage) of
            Some selected \<Rightarrow> injectJSONString g body selected block (stg_insert_before stage)
          | None \<Rightarrow>
              (case selectText arrays (stg_first stage) of
                 Some selected \<Rightarrow> appendArrayItem g body selected (textPart ''text'' block)
               | None \<Rightarrow> prependArrayItem g body messages (messagePart block))))"

definition injectResponses :: "'r gjson \<Rightarrow> bytes \<Rightarrow> bytes \<Rightarrow> prompt_stage \<Rightarrow> bytes" where
  "injectResponses g body block stage =
     (let instructions = gj_get g body ''instructions'';
          own = (if gj_type g instructions = GString then [instructions] else []);
          (messageTexts, arrays) = messageInstructionTargets g body ''input'' ''input_text''
      in (case selectText (own @ messageTexts) (stg_first stage) of
            Some selected \<Rightarrow> injectJSONString g body selected block (stg_insert_before stage)
          | None \<Rightarrow>
              (case selectText arrays (stg_first stage) of
                 Some selected \<Rightarrow> appendArrayItem g body selected (textPart ''input_text'' block)
               | None \<Rightarrow> appendRootField g body ''instructions'' (mustJSON block))))"

definition injectClaude :: "'r gjson \<Rightarrow> bytes \<Rightarrow> bytes \<Rightarrow> prompt_stage \<Rightarrow> bytes" where
  "injectClaude g body block stage =
     (let system = gj_get g body ''system''
      in if gj_type g system = GString then injectJSONString g body system block (stg_insert_before stage)
         else if gj_is_array g system then
           (case selectText (textBlockTargets g system ''text'') (stg_first stage) of
              Some selected \<Rightarrow> injectJSONString g body selected block (stg_insert_before stage)
            | None \<Rightarrow> appendArrayItem g body system (textPart ''text'' block))
         else appendRootField g body ''system'' (mustJSON block))"

definition injectGeminiAt :: "'r gjson \<Rightarrow> bytes \<Rightarrow> bytes \<Rightarrow> prompt_stage \<Rightarrow> bytes \<Rightarrow> bytes" where
  "injectGeminiAt g body block stage prefix =
     (let key0 = prefix @ ''systemInstruction'';
          key = (if gj_exists g (gj_get g body key0) then key0 else prefix @ ''system_instruction'');
          system = gj_get g body key
      in if gj_exists g system then
           (let parts = gj_get g body (key @ ''.parts'')
            in (case selectText (textBlockTargets g parts []) (stg_first stage) of
                  Some selected \<Rightarrow> injectJSONString g body selected block (stg_insert_before stage)
                | None \<Rightarrow> appendArrayItem g body parts (geminiTextPart block)))
         else
           (let v = ''{'' @ [quote] @ ''parts'' @ [quote] @ '':['' @ geminiTextPart block @ '']}'';
                parent = (if prefix \<noteq> [] then gj_get g body (trim_suffix ''.'' prefix) else gj_parse g body)
            in appendObjectField g body parent ''systemInstruction'' v))"

definition injectGemini :: "'r gjson \<Rightarrow> bytes \<Rightarrow> bytes \<Rightarrow> prompt_stage \<Rightarrow> bytes" where
  "injectGemini g body block stage = injectGeminiAt g body block stage []"

definition stage_block :: "prompt_stage \<Rightarrow> bytes" where
  "stage_block stage = stg_start stage @ [nl] @ stg_prompt stage @ [nl] @ stg_end stage"

definition injectStage :: "'r gjson \<Rightarrow> bytes \<Rightarrow> bytes \<Rightarrow> prompt_stage \<Rightarrow> bytes" where
  "injectStage g body target stage =
     (if contains (stg_start stage) body \<or> contains (stg_end stage) body then body
      else
        let block = stage_block stage
        in if target = ''openai'' then injectOpenAI g body block stage
           else if target = ''openai-response'' \<or> target = ''codex'' then injectResponses g body block stage
           else if target = ''claude'' then injectClaude g body block stage
           else if target = ''gemini'' then injectGemini g body block stage
           else if target = ''antigravity'' then injectGeminiAt g body block stage ''request.''
           else body)"

definition caveman_stage :: "bytes \<Rightarrow> prompt_stage" where
  "caveman_stage t = \<lparr>stg_start = cavemanStart, stg_end = cavemanEnd, stg_prompt = t,
     stg_insert_before = ponytailStart, stg_first = True\<rparr>"

definition ponytail_stage :: "bytes \<Rightarrow> prompt_stage" where
  "ponytail_stage t = \<lparr>stg_start = ponytailStart, stg_end = ponytailEnd, stg_prompt = t,
     stg_insert_before = [], stg_first = False\<rparr>"

definition Inject :: "'r gjson \<Rightarrow> bytes \<Rightarrow> pair \<Rightarrow> prompt_options \<Rightarrow> bytes" where
  "Inject g body pr options =
     (if CavemanLevel options = [] \<and> PonytailLevel options = [] then body
      else if body = [] \<or> \<not> Eligible pr \<or> \<not> gj_valid g body then body
      else if \<not> gj_is_object g (gj_parse g body) \<or> \<not> supportedShape g body (pair_to pr) then body
      else
        let result1 = (case Caveman (CavemanLevel options) of
                         Some t \<Rightarrow> injectStage g body (pair_to pr) (caveman_stage t) | None \<Rightarrow> body)
        in (case Ponytail (PonytailLevel options) of
              Some t \<Rightarrow> injectStage g result1 (pair_to pr) (ponytail_stage t) | None \<Rightarrow> result1))"

subsection \<open>Every injection is one insertion that carries the stage marker\<close>

text \<open>Bytes that a JSON string literal shows as they are.\<close>

definition plain :: "char \<Rightarrow> bool" where
  "plain c \<longleftrightarrow> c < CHR 0x80 \<and> esc_ascii True c = [c]"

lemma json_esc_plain: "list_all plain s \<Longrightarrow> json_esc True (s @ r) = s @ json_esc True r"
  by (induction s) (auto simp: plain_def)

lemma json_esc_newline: "json_esc True (nl # r) = backslash # CHR ''n'' # json_esc True r"
  by (simp add: esc_ascii_def nl_def quote_def backslash_def less_char_def)

lemma markers_plain:
  "list_all plain cavemanStart" "list_all plain ponytailStart"
  by (simp_all add: cavemanStart_def ponytailStart_def plain_def esc_ascii_def quote_def backslash_def less_char_def)

text \<open>Text after an ASCII byte does not change how the bytes before it are encoded.\<close>

lemma cont_not_ascii: "a < CHR 0x80 \<Longrightarrow> \<not> cont_byte a" "a < CHR 0x80 \<Longrightarrow> \<not> second3 b a" "a < CHR 0x80 \<Longrightarrow> \<not> second4 b a"
  by (auto simp: byte_in_def second3_def second4_def less_char_def less_eq_char_def)

lemma rune_width_ascii_after:
  assumes "a < CHR 0x80"
  shows "rune_width (c # cs @ a # r) = rune_width (c # cs)"
  using cont_not_ascii [OF assms]
  by (cases cs; cases "tl cs"; cases "tl (tl cs)") (auto split: list.splits)

lemma json_esc_ascii_after:
  assumes "a < CHR 0x80"
  shows "json_esc html (s @ a # r) = json_esc html s @ json_esc html (a # r)"
proof (induction html s rule: json_esc.induct)
  case (2 html c cs)
  let ?w = "rune_width (c # cs)"
  have w: "rune_width (c # cs @ a # r) = ?w" by (rule rune_width_ascii_after [OF assms])
  have len: "?w - 1 \<le> length cs" using rune_width_length [of "c # cs"] by simp
  have tk: "take (?w - 1) (cs @ a # r) = take (?w - 1) cs" "drop (?w - 1) (cs @ a # r) = drop (?w - 1) cs @ a # r"
    using len by simp_all
  have sep: "has_prefix p (c # cs @ a # r) = has_prefix p (c # cs)" if "p = line_sep \<or> p = para_sep" for p
    using that assms by (cases cs; cases "tl cs") (auto simp: line_sep_def para_sep_def less_char_def)
  show ?case
    using 2 w tk sep by (simp del: rune_width.simps has_prefix.simps)
qed simp

definition inserted :: "bytes \<Rightarrow> bytes \<Rightarrow> bytes \<Rightarrow> bool" where
  "inserted block body result \<longleftrightarrow>
     (\<exists>n ins. n \<le> length body \<and> contains (json_esc True block) ins \<and> result = take n body @ ins @ drop n body)"

definition stage_effect :: "bytes \<Rightarrow> bytes \<Rightarrow> bytes \<Rightarrow> bool" where
  "stage_effect block body result \<longleftrightarrow> result = body \<or> inserted block body result"

lemma stage_effect_same [simp, intro]: "stage_effect block body body"
  by (simp add: stage_effect_def)

lemma contains_context: "contains m s \<Longrightarrow> contains m (a @ s @ b)"
  by (rule contains_append)

lemma contains_self: "contains m m"
  unfolding contains_iff by (metis append_Nil append_Nil2)

lemma contains_trans: "contains a b \<Longrightarrow> contains b c \<Longrightarrow> contains a c"
  using contains_append by (auto simp: contains_iff [of b c])

lemma insertBytes_effect: "contains (json_esc True block) ins \<Longrightarrow> stage_effect block body (insertBytes body pos ins)"
  by (cases "pos < 0 \<or> pos > int (length body)")
    (auto simp: insertBytes_def inserted_def stage_effect_def intro!: exI [of _ "nat pos"] exI [of _ ins])

lemma contains_pre: "contains m s \<Longrightarrow> contains m (a # s)"
  using contains_context [of m s "[a]" "[]"] by simp

lemma contains_post: "contains m s \<Longrightarrow> contains m (s @ b)"
  using contains_context [of m s "[]" b] by simp

lemma contains_pre_append: "contains m s \<Longrightarrow> contains m (a @ s)"
  using contains_context [of m s a "[]"] by simp

lemma contains_mustJSON: "contains (json_esc True block) (mustJSON block)"
  by (auto simp: mustJSON_def json_string_def json_quote_def intro: contains_pre contains_post contains_self)

lemma parts_contain:
  "contains (json_esc True block) (geminiTextPart block)" "contains (json_esc True block) (textPart k block)"
  "contains (json_esc True block) (messagePart block)"
  using contains_context [OF contains_mustJSON [of block]]
  by (simp_all add: geminiTextPart_def textPart_def messagePart_def flip: append_assoc append_Cons)

lemma array_item_effect:
  "contains (json_esc True block) item \<Longrightarrow> stage_effect block body (appendArrayItem g body array item)"
  "contains (json_esc True block) item \<Longrightarrow> stage_effect block body (prependArrayItem g body array item)"
  by (auto simp: appendArrayItem_def prependArrayItem_def intro!: insertBytes_effect contains_pre contains_post)

lemma object_field_effect:
  "contains (json_esc True block) v \<Longrightarrow> stage_effect block body (appendObjectField g body object key v)"
  "contains (json_esc True block) v \<Longrightarrow> stage_effect block body (appendRootField g body key v)"
  by (auto simp: appendObjectField_def appendRootField_def Let_def
      intro!: insertBytes_effect contains_pre contains_pre_append)

lemma string_effect: "stage_effect block body (injectJSONString g body target block before)"
proof -
  have mid: "take (length (mustJSON s) - 2) (drop 1 (mustJSON s)) = json_esc True s" for s
    by (simp add: mustJSON_def json_string_def json_quote_def)
  have nls: "json_esc True (block @ [nl, nl]) = json_esc True block @ json_esc True [nl, nl]"
    by (rule json_esc_ascii_after) (simp add: nl_def less_char_def)
  have pre: "json_esc True (nl # nl # block) = [backslash, CHR ''n'', backslash, CHR ''n''] @ json_esc True block"
    by (simp only: json_esc_newline append.simps)
  have "contains (json_esc True block) (json_esc True (snd (json_insertion g target block before)))"
    using contains_self [of "json_esc True block"]
    by (auto simp: json_insertion_def Let_def nls pre intro: contains_post contains_pre simp del: json_esc.simps
        split: option.splits)
  then show ?thesis
    unfolding injectJSONString_def Let_def mid
    by (auto intro!: insertBytes_effect split: prod.splits)
qed

lemmas stage_effects = string_effect array_item_effect object_field_effect parts_contain contains_mustJSON

lemma injectStage_effect: "stage_effect (stage_block stage) body (injectStage g body target stage)"
proof -
  have "stage_effect block body (injectOpenAI g body block stage)"
    "stage_effect block body (injectResponses g body block stage)"
    "stage_effect block body (injectClaude g body block stage)"
    "stage_effect block body (injectGeminiAt g body block stage prefix)" for block prefix
    unfolding injectOpenAI_def injectResponses_def injectClaude_def injectGeminiAt_def Let_def
    by (auto intro!: stage_effects contains_pre contains_post split: prod.splits option.splits)
  then show ?thesis by (simp add: injectStage_def Let_def injectGemini_def)
qed

lemma stage_block_marker: "list_all plain (stg_start stage) \<Longrightarrow> contains (stg_start stage) (json_esc True (stage_block stage))"
  by (simp add: stage_block_def json_esc_plain contains_post contains_self)

lemma inserted_marker:
  "list_all plain (stg_start stage) \<Longrightarrow> inserted (stage_block stage) body result \<Longrightarrow> contains (stg_start stage) result"
  unfolding inserted_def using stage_block_marker contains_trans contains_context by metis

lemma injectStage_idem:
  assumes "list_all plain (stg_start stage)"
  shows "injectStage g (injectStage g body target stage) target' stage = injectStage g body target stage
     \<or> injectStage g body target stage = body"
  using injectStage_effect [of stage body g target] inserted_marker [OF assms, of body "injectStage g body target stage"]
  by (auto simp: stage_effect_def injectStage_def [of g "injectStage g body target stage"])

text \<open>The stage an option set with one level selects.\<close>

definition single_stage :: "prompt_options \<Rightarrow> prompt_stage option" where
  "single_stage options =
     (if PonytailLevel options = [] then map_option caveman_stage (Caveman (CavemanLevel options))
      else map_option ponytail_stage (Ponytail (PonytailLevel options)))"

lemma Caveman_empty [simp]: "Caveman [] = None" "Ponytail [] = None"
  by (simp_all add: Caveman_def cavemanPrompts_def Ponytail_def ponytailPrompts_def)

lemma Inject_single:
  assumes "CavemanLevel options = [] \<or> PonytailLevel options = []"
  shows "Inject g body pr options =
     (case single_stage options of
        None \<Rightarrow> body
      | Some stage \<Rightarrow>
          if body = [] \<or> \<not> Eligible pr \<or> \<not> gj_valid g body \<or> \<not> gj_is_object g (gj_parse g body)
             \<or> \<not> supportedShape g body (pair_to pr)
          then body else injectStage g body (pair_to pr) stage)"
  using assms by (auto simp: Inject_def single_stage_def split: option.splits)

lemma single_stage_plain: "single_stage options = Some stage \<Longrightarrow> list_all plain (stg_start stage)"
  using markers_plain by (auto simp: single_stage_def caveman_stage_def ponytail_stage_def split: if_splits)



text \<open>
  C31. Injection only inserts.  The result of one prompt stage is the body itself or the body
  with one contiguous insertion at one place, and the inserted text contains the whole block
  between the two markers in its JSON encoding; an unknown level, an ineligible pair, an invalid
  or an unsupported body is returned as it is.
\<close>
theorem inject_inserts_block:
  assumes "CavemanLevel options = [] \<or> PonytailLevel options = []"
  shows "Inject g body pr options = body \<or>
     (\<exists>stage n ins. single_stage options = Some stage \<and> Eligible pr \<and> gj_valid g body \<and> supportedShape g body (pair_to pr)
        \<and> n \<le> length body \<and> contains (json_esc True (stage_block stage)) ins
        \<and> Inject g body pr options = take n body @ ins @ drop n body)"
proof (cases "single_stage options")
  case None
  then show ?thesis by (simp add: Inject_single [OF assms])
next
  case (Some stage)
  then show ?thesis
    using injectStage_effect [of stage body g "pair_to pr"]
    by (auto simp: Inject_single [OF assms] stage_effect_def inserted_def)
qed

theorem inject_inserts_block_witness:
  "\<exists>n ins. Inject demo_gjson demo_body demo_pair \<lparr>CavemanLevel = [], PonytailLevel = ''lite''\<rparr>
     = take n demo_body @ ins @ drop n demo_body"
proof -
  have "Inject demo_gjson demo_body demo_pair \<lparr>CavemanLevel = [], PonytailLevel = ''lite''\<rparr> = demo_body \<or>
     (\<exists>stage n ins. single_stage \<lparr>CavemanLevel = [], PonytailLevel = ''lite''\<rparr> = Some stage \<and> Eligible demo_pair
        \<and> gj_valid demo_gjson demo_body \<and> supportedShape demo_gjson demo_body (pair_to demo_pair)
        \<and> n \<le> length demo_body \<and> contains (json_esc True (stage_block stage)) ins
        \<and> Inject demo_gjson demo_body demo_pair \<lparr>CavemanLevel = [], PonytailLevel = ''lite''\<rparr> = take n demo_body @ ins @ drop n demo_body)"
    by (rule inject_inserts_block) simp
  moreover have "\<exists>n ins. demo_body = take n demo_body @ ins @ drop n demo_body"
    by (rule exI [of _ 0], rule exI [of _ "[]"]) simp
  ultimately show ?thesis by metis
qed

end
