(* ===== verification/Dedupe.thy ===== *)
theory Dedupe
  imports Prelude
begin

text \<open>
  \<open>internal/saver/dedupe.go\<close>: coalescing of equal in-flight work and the bounded cache of
  its results.  Entries are shared between the map and the waiting calls, so they live in a
  store; an entry's sequence number, unique by construction, is its address.  \<open>Do\<close> takes the
  lock twice, once to enter and once to publish its result, and each locked section is one
  function; between them calls interleave (\<open>dedupe_step\<close>).  Go's map iteration order is a
  parameter \<open>ord\<close>, an enumeration of the keys.
\<close>

definition dedupeTTL :: duration where "dedupeTTL = 5 * second"
definition dedupeMaxEntries :: nat where "dedupeMaxEntries = 64"
definition dedupeMaxBytes :: nat where "dedupeMaxBytes = 8388608"
definition dedupeMaxItemBytes :: nat where "dedupeMaxItemBytes = 1048576"

datatype dedupe_error = WorkError bytes | ErrDedupeWorkPanic

record dedupe_entry =
  de_value :: bytes
  de_err :: "dedupe_error option"
  de_expires_at :: gotime
  de_complete :: bool

definition new_entry :: dedupe_entry where
  "new_entry = \<lparr>de_value = [], de_err = None, de_expires_at = 0, de_complete = False\<rparr>"

record 'k dedupe_cache =
  dd_entries :: "'k \<rightharpoonup> nat"
  dd_store :: "nat \<Rightarrow> dedupe_entry"
  dd_sequence :: nat
  dd_total :: int

definition newDedupe :: "'k dedupe_cache" where
  "newDedupe = \<lparr>dd_entries = Map.empty, dd_store = (\<lambda>_. new_entry), dd_sequence = 0, dd_total = 0\<rparr>"

type_synonym 'k map_order = "('k \<rightharpoonup> nat) \<Rightarrow> 'k list"

subsection \<open>The locked operations\<close>

definition removeLocked :: "'k \<Rightarrow> nat \<Rightarrow> 'k dedupe_cache \<Rightarrow> 'k dedupe_cache" where
  "removeLocked key entry c =
     (if dd_entries c key \<noteq> Some entry then c
      else
        let c1 = c\<lparr>dd_entries := mdelete (dd_entries c) key\<rparr>
        in if de_complete (dd_store c1 entry)
           then (let t = dd_total c1 - int (length (de_value (dd_store c1 entry)))
                 in c1\<lparr>dd_total := (if t < 0 then 0 else t)\<rparr>)
           else c1)"

fun expire_loop :: "gotime \<Rightarrow> 'k list \<Rightarrow> 'k dedupe_cache \<Rightarrow> 'k dedupe_cache" where
  "expire_loop now [] c = c"
| "expire_loop now (key # keys) c =
     expire_loop now keys
       (case dd_entries c key of
          None \<Rightarrow> c
        | Some entry \<Rightarrow>
            if de_complete (dd_store c entry) \<and> \<not> now < de_expires_at (dd_store c entry)
            then removeLocked key entry c else c)"

definition expireLocked :: "'k map_order \<Rightarrow> gotime \<Rightarrow> 'k dedupe_cache \<Rightarrow> 'k dedupe_cache" where
  "expireLocked ord now c = expire_loop now (ord (dd_entries c)) c"

fun oldest_loop :: "'k dedupe_cache \<Rightarrow> 'k list \<Rightarrow> ('k \<times> nat) option \<Rightarrow> ('k \<times> nat) option" where
  "oldest_loop c [] selected = selected"
| "oldest_loop c (key # keys) selected =
     oldest_loop c keys
       (case dd_entries c key of
          None \<Rightarrow> selected
        | Some entry \<Rightarrow>
            if \<not> de_complete (dd_store c entry) \<or> (case selected of None \<Rightarrow> False | Some (_, s) \<Rightarrow> entry \<ge> s)
            then selected else Some (key, entry))"

definition oldestCompletedLocked :: "'k map_order \<Rightarrow> 'k dedupe_cache \<Rightarrow> ('k \<times> nat) option" where
  "oldestCompletedLocked ord c = oldest_loop c (ord (dd_entries c)) None"

text \<open>
  The two eviction loops.  Each pass removes an entry, so as many passes as there are entries
  are enough (\<open>makeRoom_enough\<close>, \<open>enforce_enough\<close>).
\<close>

fun makeRoom_loop :: "nat \<Rightarrow> 'k map_order \<Rightarrow> 'k dedupe_cache \<Rightarrow> 'k dedupe_cache" where
  "makeRoom_loop 0 ord c = c"
| "makeRoom_loop (Suc n) ord c =
     (if length (ord (dd_entries c)) \<ge> dedupeMaxEntries then
        (case oldestCompletedLocked ord c of
           None \<Rightarrow> c
         | Some (key, entry) \<Rightarrow> makeRoom_loop n ord (removeLocked key entry c))
      else c)"

definition makeRoomLocked :: "'k map_order \<Rightarrow> 'k dedupe_cache \<Rightarrow> 'k dedupe_cache" where
  "makeRoomLocked ord c = makeRoom_loop (Suc (length (ord (dd_entries c)))) ord c"

fun enforce_loop :: "nat \<Rightarrow> 'k map_order \<Rightarrow> 'k dedupe_cache \<Rightarrow> 'k dedupe_cache" where
  "enforce_loop 0 ord c = c"
| "enforce_loop (Suc n) ord c =
     (if dd_total c > int dedupeMaxBytes then
        (case oldestCompletedLocked ord c of
           None \<Rightarrow> c
         | Some (key, entry) \<Rightarrow> enforce_loop n ord (removeLocked key entry c))
      else c)"

definition enforceByteBudgetLocked :: "'k map_order \<Rightarrow> 'k dedupe_cache \<Rightarrow> 'k dedupe_cache" where
  "enforceByteBudgetLocked ord c = enforce_loop (Suc (length (ord (dd_entries c)))) ord c"

text \<open>What the call does after its first locked section.\<close>

datatype entered = Wait nat | Bypass | Run nat

definition do_enter :: "'k map_order \<Rightarrow> gotime \<Rightarrow> 'k \<Rightarrow> 'k dedupe_cache \<Rightarrow> entered \<times> 'k dedupe_cache" where
  "do_enter ord now key c =
     (let c1 = expireLocked ord now c
      in case dd_entries c1 key of
           Some existing \<Rightarrow> (Wait existing, c1)
         | None \<Rightarrow>
             let c2 = makeRoomLocked ord c1
             in if length (ord (dd_entries c2)) \<ge> dedupeMaxEntries then (Bypass, c2)
                else
                  let c3 = c2\<lparr>dd_sequence := dd_sequence c2 + 1\<rparr>;
                      entry = dd_sequence c3
                  in (Run entry, c3\<lparr>dd_store := (dd_store c3)(entry := new_entry),
                                    dd_entries := (dd_entries c3)(key \<mapsto> entry)\<rparr>))"

text \<open>The work returns a value and an error, or panics.\<close>

datatype work_result = WorkReturns bytes "dedupe_error option" | WorkPanics

fun runDedupeWork :: "work_result \<Rightarrow> bytes \<times> dedupe_error option" where
  "runDedupeWork (WorkReturns value err) = (value, err)"
| "runDedupeWork WorkPanics = ([], Some ErrDedupeWorkPanic)"

definition do_complete :: "'k map_order \<Rightarrow> gotime \<Rightarrow> 'k \<Rightarrow> nat \<Rightarrow> work_result \<Rightarrow> 'k dedupe_cache \<Rightarrow> 'k dedupe_cache" where
  "do_complete ord now key entry result c =
     (let (value, err) = runDedupeWork result;
          c1 = c\<lparr>dd_store := (dd_store c)(entry :=
                   \<lparr>de_value = value, de_err = err, de_expires_at = now + dedupeTTL, de_complete = True\<rparr>)\<rparr>
      in if err \<noteq> None \<or> length value > dedupeMaxItemBytes
         then c1\<lparr>dd_entries := mdelete (dd_entries c1) key\<rparr>
         else enforceByteBudgetLocked ord (c1\<lparr>dd_total := dd_total c1 + int (length value)\<rparr>))"

text \<open>What \<open>Do\<close> returns: a waiter the entry's result, a runner its own.\<close>

definition waiter_result :: "nat \<Rightarrow> 'k dedupe_cache \<Rightarrow> bytes \<times> bool \<times> dedupe_error option" where
  "waiter_result entry c = (de_value (dd_store c entry), True, de_err (dd_store c entry))"

definition runner_result :: "work_result \<Rightarrow> bytes \<times> bool \<times> dedupe_error option" where
  "runner_result result = (case runDedupeWork result of (value, err) \<Rightarrow> (value, False, err))"

subsection \<open>The invariant\<close>

definition enumerates :: "'k map_order \<Rightarrow> bool" where
  "enumerates ord \<longleftrightarrow> (\<forall>m. finite (dom m) \<longrightarrow> distinct (ord m) \<and> set (ord m) = dom m)"

definition entry_size :: "'k dedupe_cache \<Rightarrow> 'k \<Rightarrow> nat" where
  "entry_size c k = length (de_value (dd_store c (the (dd_entries c k))))"

definition entry_total :: "'k dedupe_cache \<Rightarrow> nat" where
  "entry_total c = (\<Sum>k\<in>dom (dd_entries c). entry_size c k)"

text \<open>Well-formed relative to the set \<open>R\<close> of the shared calls that run their work.\<close>

definition entries_ok :: "('k \<times> nat) set \<Rightarrow> 'k dedupe_cache \<Rightarrow> bool" where
  "entries_ok R c \<longleftrightarrow>
     finite (dom (dd_entries c)) \<and>
     (\<forall>k a. dd_entries c k = Some a \<longrightarrow> a \<le> dd_sequence c) \<and>
     (\<forall>k k' a. dd_entries c k = Some a \<longrightarrow> dd_entries c k' = Some a \<longrightarrow> k = k') \<and>
     (\<forall>k a. dd_entries c k = Some a \<longrightarrow>
        (if de_complete (dd_store c a)
         then de_err (dd_store c a) = None \<and> length (de_value (dd_store c a)) \<le> dedupeMaxItemBytes
         else de_value (dd_store c a) = [] \<and> (k, a) \<in> R)) \<and>
     (\<forall>(k, a) \<in> R. dd_entries c k = Some a \<and> \<not> de_complete (dd_store c a)) \<and>
     dd_total c = int (entry_total c)"

definition bounded :: "'k dedupe_cache \<Rightarrow> bool" where
  "bounded c \<longleftrightarrow> card (dom (dd_entries c)) \<le> dedupeMaxEntries \<and> dd_total c \<le> int dedupeMaxBytes"

lemma entries_ok_entry:
  "entries_ok R c \<Longrightarrow> dd_entries c k = Some a \<Longrightarrow>
     (if de_complete (dd_store c a)
      then de_err (dd_store c a) = None \<and> length (de_value (dd_store c a)) \<le> dedupeMaxItemBytes
      else de_value (dd_store c a) = [] \<and> (k, a) \<in> R)"
  unfolding entries_ok_def by blast

lemma entries_ok_running: "entries_ok R c \<Longrightarrow> (k, a) \<in> R \<Longrightarrow> dd_entries c k = Some a"
  unfolding entries_ok_def by blast

lemma entry_size_delete:
  "k' \<noteq> k \<Longrightarrow> entry_size (c\<lparr>dd_entries := mdelete (dd_entries c) k\<rparr>) k' = entry_size c k'"
  by (simp add: entry_size_def)

lemma remove_ok:
  assumes ok: "entries_ok R c" and k: "dd_entries c k = Some a" and complete: "de_complete (dd_store c a)"
  shows "entries_ok R (removeLocked k a c)"
    and "dom (dd_entries (removeLocked k a c)) = dom (dd_entries c) - {k}"
    and "dd_total (removeLocked k a c) = dd_total c - int (entry_size c k)"
    and "dd_store (removeLocked k a c) = dd_store c" "dd_sequence (removeLocked k a c) = dd_sequence c"
    and "dd_entries (removeLocked k a c) = mdelete (dd_entries c) k"
proof -
  let ?E = "dd_entries c"
  have fin: "finite (dom ?E)" using ok by (simp add: entries_ok_def)
  have sums: "entry_total (c\<lparr>dd_entries := mdelete ?E k, dd_total := u\<rparr>) = (\<Sum>x\<in>dom ?E - {k}. entry_size c x)" for u
    unfolding entry_total_def by (simp, intro sum.cong) (auto simp: entry_size_def)
  have "entry_total c = entry_size c k + (\<Sum>x\<in>dom ?E - {k}. entry_size c x)"
    unfolding entry_total_def using fin k by (intro sum.remove) auto
  then have t: "dd_total c = int (entry_size c k) + int (entry_total (c\<lparr>dd_entries := mdelete ?E k, dd_total := u\<rparr>))" for u
    using ok sums by (simp add: entries_ok_def)
  have size: "length (de_value (dd_store c a)) = entry_size c k" using k by (simp add: entry_size_def)
  have r: "removeLocked k a c = c\<lparr>dd_entries := mdelete ?E k, dd_total := dd_total c - int (entry_size c k)\<rparr>"
  proof -
    have "\<not> dd_total c - int (entry_size c k) < 0" using t [of 0] by linarith
    then show ?thesis using k complete size by (simp add: removeLocked_def Let_def)
  qed
  show "dom (dd_entries (removeLocked k a c)) = dom ?E - {k}" by (simp add: r)
  show "dd_total (removeLocked k a c) = dd_total c - int (entry_size c k)" by (simp add: r)
  show "dd_store (removeLocked k a c) = dd_store c" "dd_sequence (removeLocked k a c) = dd_sequence c"
    "dd_entries (removeLocked k a c) = mdelete (dd_entries c) k"
    by (simp_all add: r)
  have "(k, a) \<notin> R" using ok complete by (auto simp: entries_ok_def)
  then have notR: "(k, b) \<notin> R" for b using ok k by (auto simp: entries_ok_def)
  show "entries_ok R (removeLocked k a c)"
    using ok notR t [of "dd_total c - int (entry_size c k)"] unfolding r entries_ok_def
    by (auto split: if_splits)
qed

lemmas remove_effect = remove_ok(2-6)

subsection \<open>Expiry\<close>

lemma mdelete_le: "mdelete m k \<subseteq>\<^sub>m m"
  by (simp add: map_le_def)

definition shrinks :: "('k \<times> nat) set \<Rightarrow> 'k dedupe_cache \<Rightarrow> 'k dedupe_cache \<Rightarrow> bool" where
  "shrinks R c c' \<longleftrightarrow> entries_ok R c' \<and> dd_entries c' \<subseteq>\<^sub>m dd_entries c \<and> dd_total c' \<le> dd_total c
     \<and> dd_store c' = dd_store c \<and> dd_sequence c' = dd_sequence c"

lemma shrinks_refl: "entries_ok R c \<Longrightarrow> shrinks R c c"
  by (simp add: shrinks_def)

lemma shrinks_trans: "shrinks R c c' \<Longrightarrow> shrinks R c' c'' \<Longrightarrow> shrinks R c c''"
  by (auto simp: shrinks_def intro: map_le_trans)

lemma remove_shrinks:
  "entries_ok R c \<Longrightarrow> dd_entries c k = Some a \<Longrightarrow> de_complete (dd_store c a) \<Longrightarrow> shrinks R c (removeLocked k a c)"
  using remove_ok [of R c k a] by (simp add: shrinks_def mdelete_le)

lemma shrinks_card: "entries_ok R c \<Longrightarrow> shrinks R c c' \<Longrightarrow> card (dom (dd_entries c')) \<le> card (dom (dd_entries c))"
  by (simp add: shrinks_def entries_ok_def card_mono map_le_implies_dom_le)

definition expire_one :: "gotime \<Rightarrow> 'k \<Rightarrow> 'k dedupe_cache \<Rightarrow> 'k dedupe_cache" where
  "expire_one now key c =
     (case dd_entries c key of
        None \<Rightarrow> c
      | Some entry \<Rightarrow>
          if de_complete (dd_store c entry) \<and> \<not> now < de_expires_at (dd_store c entry)
          then removeLocked key entry c else c)"

lemma expire_one_shrinks: "entries_ok R c \<Longrightarrow> shrinks R c (expire_one now key c)"
  by (auto simp: expire_one_def shrinks_refl remove_shrinks split: option.split)

lemma expire_loop_Cons: "expire_loop now (key # keys) c = expire_loop now keys (expire_one now key c)"
  by (simp add: expire_one_def)

declare expire_loop.simps(2) [simp del]

lemma expire_loop_shrinks: "entries_ok R c \<Longrightarrow> shrinks R c (expire_loop now keys c)"
proof (induction keys arbitrary: c)
  case (Cons key keys)
  have s: "shrinks R c (expire_one now key c)" by (rule expire_one_shrinks [OF Cons.prems])
  then have "entries_ok R (expire_one now key c)" by (simp add: shrinks_def)
  from shrinks_trans [OF s Cons.IH [OF this]] show ?case by (simp add: expire_loop_Cons)
qed (simp add: shrinks_refl)

lemma expire_loop_fresh:
  "entries_ok R c \<Longrightarrow> k \<in> set keys \<Longrightarrow> dd_entries (expire_loop now keys c) k = Some a \<Longrightarrow>
   de_complete (dd_store c a) \<Longrightarrow> now < de_expires_at (dd_store c a)"
proof (induction keys arbitrary: c)
  case (Cons key keys)
  let ?c = "expire_one now key c"
  have s: "shrinks R c ?c" by (rule expire_one_shrinks [OF Cons.prems(1)])
  then have ok: "entries_ok R ?c" and st: "dd_store ?c = dd_store c" by (simp_all add: shrinks_def)
  show ?case
  proof (cases "k \<in> set keys")
    case True
    then show ?thesis using Cons.IH [OF ok True] Cons.prems(3,4) st by (simp add: expire_loop_Cons)
  next
    case False
    with Cons.prems(2) have k: "k = key" by simp
    have "dd_entries (expire_loop now keys ?c) \<subseteq>\<^sub>m dd_entries ?c"
      using expire_loop_shrinks [OF ok] by (simp add: shrinks_def)
    with Cons.prems(3) have a: "dd_entries ?c key = Some a"
      by (auto simp: expire_loop_Cons k map_le_def dom_def)
    show ?thesis
    proof (rule ccontr)
      assume n: "\<not> now < de_expires_at (dd_store c a)"
      have e: "dd_entries c key = Some a"
        using a s by (auto simp: shrinks_def map_le_def dom_def)
      with n Cons.prems(4) have "?c = removeLocked key a c" by (simp add: expire_one_def)
      with remove_ok(6) [OF Cons.prems(1) e Cons.prems(4)] a show False by simp
    qed
  qed
qed simp

subsection \<open>The oldest completed entry\<close>

definition completed :: "'k dedupe_cache \<Rightarrow> 'k \<Rightarrow> nat \<Rightarrow> bool" where
  "completed c k a \<longleftrightarrow> dd_entries c k = Some a \<and> de_complete (dd_store c a)"

lemma oldest_loop_sound:
  "oldest_loop c keys sel = r \<Longrightarrow> (\<And>k a. sel = Some (k, a) \<Longrightarrow> completed c k a) \<Longrightarrow>
   (case r of
      Some (k, a) \<Rightarrow> completed c k a \<and> (\<forall>k' a'. sel = Some (k', a') \<longrightarrow> a \<le> a')
        \<and> (\<forall>k' \<in> set keys. \<forall>a'. completed c k' a' \<longrightarrow> a \<le> a')
    | None \<Rightarrow> sel = None \<and> (\<forall>k' \<in> set keys. \<forall>a'. \<not> completed c k' a'))"
proof (induction c keys sel arbitrary: r rule: oldest_loop.induct)
  case (1 c sel)
  then show ?case by (cases sel) auto
next
  case (2 c key keys sel)
  define sel' where "sel' = (case dd_entries c key of
          None \<Rightarrow> sel
        | Some entry \<Rightarrow>
            if \<not> de_complete (dd_store c entry) \<or> (case sel of None \<Rightarrow> False | Some (_, s) \<Rightarrow> entry \<ge> s)
            then sel else Some (key, entry))"
  have IH: "case r of
      Some (k, a) \<Rightarrow> completed c k a \<and> (\<forall>k' a'. sel' = Some (k', a') \<longrightarrow> a \<le> a')
        \<and> (\<forall>k' \<in> set keys. \<forall>a'. completed c k' a' \<longrightarrow> a \<le> a')
    | None \<Rightarrow> sel' = None \<and> (\<forall>k' \<in> set keys. \<forall>a'. \<not> completed c k' a')"
    by (rule 2(1) [folded sel'_def]) (use 2(2,3) in \<open>auto simp: completed_def sel'_def split: option.splits if_splits\<close>)
  consider "sel' = sel" "\<And>a'. \<not> completed c key a'"
    | k0 s entry where "sel' = sel" "sel = Some (k0, s)" "completed c key entry" "s \<le> entry"
    | entry where "sel' = Some (key, entry)" "completed c key entry" "\<And>k0 s. sel = Some (k0, s) \<Longrightarrow> entry \<le> s"
  proof (cases "dd_entries c key")
    case None
    then show ?thesis using that(1) by (simp add: sel'_def completed_def)
  next
    case (Some entry)
    show ?thesis
    proof (cases "de_complete (dd_store c entry)")
      case False
      with Some show ?thesis by (intro that(1)) (auto simp: sel'_def completed_def)
    next
      case True
      with Some have e: "completed c key entry" by (simp add: completed_def)
      show ?thesis
      proof (cases "\<exists>k0 s. sel = Some (k0, s) \<and> s \<le> entry")
        case True
        with e Some \<open>de_complete (dd_store c entry)\<close> show ?thesis
          using that(2) by (auto simp: sel'_def)
      next
        case False
        with Some \<open>de_complete (dd_store c entry)\<close> have "sel' = Some (key, entry)"
          by (auto simp: sel'_def split: option.splits)
        with e False show ?thesis using that(3) by (metis linear)
      qed
    qed
  qed
  then show ?case
  proof cases
    case 1
    then show ?thesis using IH by (auto split: option.splits)
  next
    case 2
    obtain k a where r: "r = Some (k, a)" using IH 2(1,2) by (cases r) auto
    have "completed c k a" "a \<le> s" "\<forall>k' \<in> set keys. \<forall>a'. completed c k' a' \<longrightarrow> a \<le> a'"
      using IH 2(1,2) r by simp_all
    moreover have "completed c key a' \<Longrightarrow> s \<le> a'" for a' using 2(3,4) by (simp add: completed_def)
    ultimately show ?thesis using 2(2) by (auto simp: r intro: le_trans)
  next
    case 3
    obtain k a where r: "r = Some (k, a)" using IH 3(1) by (cases r) auto
    have "completed c k a" "a \<le> entry" "\<forall>k' \<in> set keys. \<forall>a'. completed c k' a' \<longrightarrow> a \<le> a'"
      using IH 3(1) r by simp_all
    moreover have "completed c key a' \<Longrightarrow> entry \<le> a'" for a' using 3(2) by (simp add: completed_def)
    ultimately show ?thesis using 3(3) by (auto simp: r intro: le_trans)
  qed
qed

lemma oldest_completed:
  assumes "enumerates ord" "entries_ok R c"
  shows "oldestCompletedLocked ord c = Some (k, a) \<Longrightarrow> completed c k a \<and> (\<forall>k' a'. completed c k' a' \<longrightarrow> a \<le> a')"
    and "oldestCompletedLocked ord c = None \<longleftrightarrow> (\<forall>k a. \<not> completed c k a)"
proof -
  have keys: "set (ord (dd_entries c)) = dom (dd_entries c)"
    using assms by (auto simp: enumerates_def entries_ok_def)
  have "case oldestCompletedLocked ord c of
      Some (k, a) \<Rightarrow> completed c k a \<and> (\<forall>k' \<in> dom (dd_entries c). \<forall>a'. completed c k' a' \<longrightarrow> a \<le> a')
    | None \<Rightarrow> (\<forall>k' \<in> dom (dd_entries c). \<forall>a'. \<not> completed c k' a')"
    using oldest_loop_sound [of c "ord (dd_entries c)" None "oldestCompletedLocked ord c"] keys
    by (auto simp: oldestCompletedLocked_def split: option.splits)
  then show "oldestCompletedLocked ord c = Some (k, a) \<Longrightarrow> completed c k a \<and> (\<forall>k' a'. completed c k' a' \<longrightarrow> a \<le> a')"
    and "oldestCompletedLocked ord c = None \<longleftrightarrow> (\<forall>k a. \<not> completed c k a)"
    by (auto simp: completed_def dom_def split: option.splits)
qed

subsection \<open>The eviction loops reach their bounds\<close>

lemma ord_length: "enumerates ord \<Longrightarrow> entries_ok R c \<Longrightarrow> length (ord (dd_entries c)) = card (dom (dd_entries c))"
  using distinct_card [of "ord (dd_entries c)"] by (simp add: enumerates_def entries_ok_def)

lemma oldest_remove:
  assumes "enumerates ord" "entries_ok R c" "oldestCompletedLocked ord c = Some (k, a)"
  shows "shrinks R c (removeLocked k a c)" "card (dom (dd_entries (removeLocked k a c))) < card (dom (dd_entries c))"
proof -
  have ka: "dd_entries c k = Some a" "de_complete (dd_store c a)"
    using oldest_completed(1) [OF assms] by (simp_all add: completed_def)
  show "shrinks R c (removeLocked k a c)" by (rule remove_shrinks [OF assms(2) ka])
  have "finite (dom (dd_entries c))" using assms(2) by (simp add: entries_ok_def)
  then show "card (dom (dd_entries (removeLocked k a c))) < card (dom (dd_entries c))"
    using ka(1) remove_ok(2) [OF assms(2) ka] by (auto intro!: psubset_card_mono)
qed

lemma makeRoom_enough:
  "enumerates ord \<Longrightarrow> entries_ok R c \<Longrightarrow> card (dom (dd_entries c)) < n \<Longrightarrow>
   shrinks R c (makeRoom_loop n ord c)
   \<and> (card (dom (dd_entries (makeRoom_loop n ord c))) < dedupeMaxEntries
      \<or> (\<forall>k a. \<not> completed (makeRoom_loop n ord c) k a))"
proof (induction n arbitrary: c)
  case (Suc n)
  show ?case
  proof (cases "card (dom (dd_entries c)) < dedupeMaxEntries \<or> oldestCompletedLocked ord c = None")
    case True
    then have "makeRoom_loop (Suc n) ord c = c"
      using ord_length [OF Suc.prems(1,2)] by auto
    with True oldest_completed(2) [OF Suc.prems(1,2)] show ?thesis
      by (auto simp: shrinks_refl [OF Suc.prems(2)])
  next
    case False
    then obtain k a where ka: "oldestCompletedLocked ord c = Some (k, a)" by auto
    note rm = oldest_remove [OF Suc.prems(1,2) ka]
    have eq: "makeRoom_loop (Suc n) ord c = makeRoom_loop n ord (removeLocked k a c)"
      using False ka ord_length [OF Suc.prems(1,2)] by auto
    have "entries_ok R (removeLocked k a c)" using rm(1) by (simp add: shrinks_def)
    from Suc.IH [OF Suc.prems(1) this] rm Suc.prems(3) show ?thesis
      unfolding eq by (auto intro: shrinks_trans)
  qed
qed simp

lemma total_none_completed:
  assumes "entries_ok R c" "\<And>k a. \<not> completed c k a"
  shows "dd_total c = 0"
proof -
  have "entry_size c k = 0" if "k \<in> dom (dd_entries c)" for k
    using that assms by (fastforce simp: entries_ok_def completed_def entry_size_def)
  then show ?thesis using assms(1) by (simp add: entries_ok_def entry_total_def)
qed

lemma enforce_enough:
  "enumerates ord \<Longrightarrow> entries_ok R c \<Longrightarrow> card (dom (dd_entries c)) < n \<Longrightarrow>
   shrinks R c (enforce_loop n ord c) \<and> dd_total (enforce_loop n ord c) \<le> int dedupeMaxBytes"
proof (induction n arbitrary: c)
  case (Suc n)
  show ?case
  proof (cases "dd_total c \<le> int dedupeMaxBytes")
    case True
    then show ?thesis by (simp add: shrinks_refl [OF Suc.prems(2)])
  next
    case False
    then have "oldestCompletedLocked ord c \<noteq> None"
      using oldest_completed(2) [OF Suc.prems(1,2)] total_none_completed [OF Suc.prems(2)] by auto
    then obtain k a where ka: "oldestCompletedLocked ord c = Some (k, a)" by auto
    note rm = oldest_remove [OF Suc.prems(1,2) ka]
    have eq: "enforce_loop (Suc n) ord c = enforce_loop n ord (removeLocked k a c)"
      using False ka by auto
    have "entries_ok R (removeLocked k a c)" using rm(1) by (simp add: shrinks_def)
    from Suc.IH [OF Suc.prems(1) this] rm Suc.prems(3) show ?thesis
      unfolding eq by (auto intro: shrinks_trans)
  qed
qed simp

lemma makeRoomLocked_ok:
  "enumerates ord \<Longrightarrow> entries_ok R c \<Longrightarrow> shrinks R c (makeRoomLocked ord c)"
  using makeRoom_enough [of ord R c "Suc (length (ord (dd_entries c)))"] ord_length [of ord R c]
  by (simp add: makeRoomLocked_def del: makeRoom_loop.simps)

lemma enforceByteBudgetLocked_ok:
  "enumerates ord \<Longrightarrow> entries_ok R c \<Longrightarrow> shrinks R c (enforceByteBudgetLocked ord c)
     \<and> dd_total (enforceByteBudgetLocked ord c) \<le> int dedupeMaxBytes"
  using enforce_enough [of ord R c "Suc (length (ord (dd_entries c)))"] ord_length [of ord R c]
  by (simp add: enforceByteBudgetLocked_def del: enforce_loop.simps)

subsection \<open>Entering and completing\<close>

lemma new_entry_ok:
  assumes "entries_ok R c" "dd_entries c key = None"
  shows "entries_ok (insert (key, Suc (dd_sequence c)) R)
    (c\<lparr>dd_sequence := Suc (dd_sequence c), dd_store := (dd_store c)(Suc (dd_sequence c) := new_entry),
       dd_entries := (dd_entries c)(key \<mapsto> Suc (dd_sequence c))\<rparr>)" (is "entries_ok _ ?c")
proof -
  have le: "dd_entries c k = Some a \<Longrightarrow> a \<le> dd_sequence c" for k a
    using assms(1) by (auto simp: entries_ok_def)
  then have ne: "dd_entries c k \<noteq> Some (Suc (dd_sequence c))" for k by force
  have fin: "finite (dom (dd_entries c))" using assms(1) by (simp add: entries_ok_def)
  have other: "entry_size ?c k = entry_size c k" if "k \<in> dom (dd_entries c)" for k
    using that assms(2) ne by (auto simp: entry_size_def)
  have "(\<Sum>k\<in>dom (dd_entries ?c). entry_size ?c k) = entry_size ?c key + (\<Sum>k\<in>dom (dd_entries c). entry_size ?c k)"
    using fin assms(2) by (simp add: domIff)
  also have "\<dots> = (\<Sum>k\<in>dom (dd_entries c). entry_size c k)"
    using other by (simp add: entry_size_def new_entry_def)
  finally have sum: "entry_total ?c = entry_total c" unfolding entry_total_def .
  show ?thesis
    unfolding entries_ok_def sum
    using assms fin ne le
    by (auto simp: entries_ok_def new_entry_def le_Suc_eq split: if_splits) (metis+)?
qed

lemma do_enter_ok:
  assumes ord: "enumerates ord" and ok: "entries_ok R c" and bd: "bounded c"
  shows "case do_enter ord now key c of
      (Wait a, c') \<Rightarrow> shrinks R c c' \<and> dd_entries c' key = Some a
        \<and> (de_complete (dd_store c' a) \<longrightarrow> now < de_expires_at (dd_store c' a))
    | (Bypass, c') \<Rightarrow> shrinks R c c' \<and> (\<forall>a. (key, a) \<notin> R)
    | (Run a, c') \<Rightarrow> entries_ok (insert (key, a) R) c' \<and> a = Suc (dd_sequence c) \<and> (\<forall>b. (key, b) \<notin> R)
        \<and> bounded c' \<and> dd_sequence c' = a \<and> dd_store c' = (dd_store c)(a := new_entry)"
proof -
  define c1 where "c1 = expireLocked ord now c"
  have s1: "shrinks R c c1" using expire_loop_shrinks [OF ok] by (simp add: c1_def expireLocked_def)
  then have ok1: "entries_ok R c1" by (simp add: shrinks_def)
  show ?thesis
  proof (cases "dd_entries c1 key")
    case (Some a)
    have "set (ord (dd_entries c)) = dom (dd_entries c)" using ord ok by (simp add: enumerates_def entries_ok_def)
    moreover have "key \<in> dom (dd_entries c)"
      using s1 Some by (auto simp: shrinks_def map_le_def dom_def)
    ultimately have "de_complete (dd_store c a) \<longrightarrow> now < de_expires_at (dd_store c a)"
      using expire_loop_fresh [OF ok, of key "ord (dd_entries c)" now a] Some
      by (simp add: c1_def expireLocked_def)
    then show ?thesis using Some s1 by (simp add: do_enter_def c1_def [symmetric] shrinks_def)
  next
    case None
    define c2 where "c2 = makeRoomLocked ord c1"
    have s2: "shrinks R c1 c2" using makeRoomLocked_ok [OF ord ok1] by (simp add: c2_def)
    have ok2: "entries_ok R c2" and s: "shrinks R c c2" using s2 shrinks_trans [OF s1 s2] by (simp_all add: shrinks_def)
    have none: "dd_entries c2 key = None"
    proof (rule ccontr)
      assume "dd_entries c2 key \<noteq> None"
      then have "dd_entries c1 key = dd_entries c2 key" using s2 unfolding shrinks_def map_le_def by (metis domIff)
      with None \<open>dd_entries c2 key \<noteq> None\<close> show False by simp
    qed
    have notR: "(key, b) \<notin> R" for b using ok2 none by (auto simp: entries_ok_def)
    have len: "length (ord (dd_entries c2)) = card (dom (dd_entries c2))" by (rule ord_length [OF ord ok2])
    have seq: "dd_sequence c2 = dd_sequence c" "dd_store c2 = dd_store c" "dd_total c2 \<le> dd_total c"
      using s by (simp_all add: shrinks_def)
    have fin: "finite (dom (dd_entries c2))" using ok2 by (simp add: entries_ok_def)
    show ?thesis
    proof (cases "length (ord (dd_entries c2)) \<ge> dedupeMaxEntries")
      case True
      then show ?thesis using None s notR
        by (simp add: do_enter_def c1_def [symmetric] c2_def [symmetric] Let_def)
    next
      case False
      define c3 where "c3 = c2\<lparr>dd_sequence := Suc (dd_sequence c2), dd_store := (dd_store c2)(Suc (dd_sequence c2) := new_entry),
         dd_entries := (dd_entries c2)(key \<mapsto> Suc (dd_sequence c2))\<rparr>"
      have enter: "do_enter ord now key c = (Run (Suc (dd_sequence c2)), c3)"
        using None False by (simp add: do_enter_def c1_def [symmetric] c2_def [symmetric] Let_def c3_def)
      have "card (dom (dd_entries c3)) = Suc (card (dom (dd_entries c2)))"
        using fin none by (simp add: c3_def domIff)
      then have "bounded c3" using False len bd seq by (simp add: bounded_def c3_def)
      then show ?thesis
        using new_entry_ok [OF ok2 none] notR seq unfolding enter by (simp add: c3_def)
    qed
  qed
qed

lemma complete_store_ok:
  assumes ok: "entries_ok R c" and r: "(key, a) \<in> R" and e: "de_complete e" "de_err e = None" "length (de_value e) \<le> dedupeMaxItemBytes"
  shows "entries_ok (R - {(key, a)}) (c\<lparr>dd_store := (dd_store c)(a := e), dd_total := dd_total c + int (length (de_value e))\<rparr>)"
    (is "entries_ok _ ?c")
proof -
  have ka: "dd_entries c key = Some a" "de_value (dd_store c a) = []" "finite (dom (dd_entries c))"
    using ok r by (auto simp: entries_ok_def)
  have inj: "dd_entries c k = Some a \<Longrightarrow> k = key" for k using ok ka(1) by (auto simp: entries_ok_def)
  have other: "entry_size ?c k = entry_size c k" if "k \<in> dom (dd_entries c) - {key}" for k
    using that inj by (auto simp: entry_size_def)
  have "(\<Sum>k\<in>dom (dd_entries c). entry_size ?c k) = entry_size ?c key + (\<Sum>k\<in>dom (dd_entries c) - {key}. entry_size ?c k)"
    using ka by (intro sum.remove) auto
  moreover have "(\<Sum>k\<in>dom (dd_entries c). entry_size c k) = entry_size c key + (\<Sum>k\<in>dom (dd_entries c) - {key}. entry_size c k)"
    using ka by (intro sum.remove) auto
  moreover have "(\<Sum>k\<in>dom (dd_entries c) - {key}. entry_size ?c k) = (\<Sum>k\<in>dom (dd_entries c) - {key}. entry_size c k)"
    using other by (intro sum.cong) auto
  moreover have "entry_size ?c key = length (de_value e)" "entry_size c key = 0"
    using ka by (simp_all add: entry_size_def)
  ultimately have sum: "entry_total ?c = length (de_value e) + entry_total c"
    by (simp add: entry_total_def)
  have Ra: "(k, b) \<in> R - {(key, a)} \<Longrightarrow> b \<noteq> a" for k b using ok inj by (auto simp: entries_ok_def)
  show ?thesis
    using ok e inj Ra ka(1) unfolding entries_ok_def sum
    by (auto split: if_splits)
qed

lemma delete_running_ok:
  assumes ok: "entries_ok R c" and r: "(key, a) \<in> R" and e: "de_complete e"
  shows "entries_ok (R - {(key, a)}) (c\<lparr>dd_store := (dd_store c)(a := e), dd_entries := mdelete (dd_entries c) key\<rparr>)"
    (is "entries_ok _ ?c")
proof -
  have ka: "dd_entries c key = Some a" "de_value (dd_store c a) = []" "finite (dom (dd_entries c))"
    using ok r by (auto simp: entries_ok_def)
  have inj: "dd_entries c k = Some a \<Longrightarrow> k = key" for k using ok ka(1) by (auto simp: entries_ok_def)
  have other: "entry_size ?c k = entry_size c k" if "k \<in> dom (dd_entries c) - {key}" for k
    using that inj by (auto simp: entry_size_def)
  have "(\<Sum>k\<in>dom (dd_entries c). entry_size c k) = entry_size c key + (\<Sum>k\<in>dom (dd_entries c) - {key}. entry_size c k)"
    using ka by (intro sum.remove) auto
  moreover have "(\<Sum>k\<in>dom (dd_entries c) - {key}. entry_size ?c k) = (\<Sum>k\<in>dom (dd_entries c) - {key}. entry_size c k)"
    using other by (intro sum.cong) auto
  moreover have "entry_size c key = 0" using ka by (simp add: entry_size_def)
  ultimately have sum: "entry_total ?c = entry_total c"
    by (simp add: entry_total_def)
  have Rk: "(k, b) \<in> R - {(key, a)} \<Longrightarrow> k \<noteq> key \<and> b \<noteq> a" for k b
    using ok ka(1) inj by (fastforce simp: entries_ok_def)
  show ?thesis
    using ok inj Rk ka unfolding entries_ok_def sum
    by (auto split: if_splits)
qed

lemma do_complete_ok:
  assumes ord: "enumerates ord" and ok: "entries_ok R c" and bd: "bounded c" and r: "(key, a) \<in> R"
  shows "entries_ok (R - {(key, a)}) (do_complete ord now key a result c)"
    "bounded (do_complete ord now key a result c)"
    "dd_store (do_complete ord now key a result c) = (dd_store c)(a :=
        \<lparr>de_value = fst (runDedupeWork result), de_err = snd (runDedupeWork result),
         de_expires_at = now + dedupeTTL, de_complete = True\<rparr>)"
    "dd_sequence (do_complete ord now key a result c) = dd_sequence c"
proof -
  obtain v err where w: "runDedupeWork result = (v, err)" by (metis prod.collapse)
  define e where "e = \<lparr>de_value = v, de_err = err, de_expires_at = now + dedupeTTL, de_complete = True\<rparr>"
  have card: "card (dom (dd_entries c)) \<le> dedupeMaxEntries" and tot: "dd_total c \<le> int dedupeMaxBytes"
    and fin: "finite (dom (dd_entries c))" using bd ok by (simp_all add: bounded_def entries_ok_def)
  have *: "entries_ok (R - {(key, a)}) (do_complete ord now key a result c)
     \<and> bounded (do_complete ord now key a result c)
     \<and> dd_store (do_complete ord now key a result c) = (dd_store c)(a := e)
     \<and> dd_sequence (do_complete ord now key a result c) = dd_sequence c"
  proof (cases "err \<noteq> None \<or> length v > dedupeMaxItemBytes")
    case True
    have eq: "do_complete ord now key a result c
        = c\<lparr>dd_store := (dd_store c)(a := e), dd_entries := mdelete (dd_entries c) key\<rparr>"
      using True w by (simp add: do_complete_def e_def)
    have "card (dom (dd_entries c) - {key}) \<le> card (dom (dd_entries c))" using fin by (intro card_mono) auto
    then show ?thesis
      using delete_running_ok [OF ok r, of e] card tot unfolding eq by (simp add: e_def bounded_def)
  next
    case False
    define c2 where "c2 = c\<lparr>dd_store := (dd_store c)(a := e), dd_total := dd_total c + int (length v)\<rparr>"
    have eq: "do_complete ord now key a result c = enforceByteBudgetLocked ord c2"
      using False w by (auto simp: do_complete_def e_def c2_def)
    have ok2: "entries_ok (R - {(key, a)}) c2"
      using complete_store_ok [OF ok r, of e] False by (simp add: c2_def e_def)
    note enf = enforceByteBudgetLocked_ok [OF ord ok2]
    have "card (dom (dd_entries (enforceByteBudgetLocked ord c2))) \<le> card (dom (dd_entries c2))"
      using enf shrinks_card [OF ok2] by blast
    with enf card show ?thesis unfolding eq by (auto simp: shrinks_def bounded_def c2_def)
  qed
  then show "entries_ok (R - {(key, a)}) (do_complete ord now key a result c)"
    "bounded (do_complete ord now key a result c)"
    "dd_store (do_complete ord now key a result c) = (dd_store c)(a :=
        \<lparr>de_value = fst (runDedupeWork result), de_err = snd (runDedupeWork result),
         de_expires_at = now + dedupeTTL, de_complete = True\<rparr>)"
    "dd_sequence (do_complete ord now key a result c) = dd_sequence c"
    by (simp_all add: e_def w)
qed

subsection \<open>Interleaved calls\<close>

text \<open>
  The calls in progress: those that run shared work (with the entry they own), and those that
  wait on an entry.  \<open>ds_results\<close> records what each shared run produced.
\<close>

record 'k dedupe_system =
  ds_cache :: "'k dedupe_cache"
  ds_running :: "('k \<times> nat) set"
  ds_waiting :: "nat multiset"
  ds_results :: "nat \<rightharpoonup> work_result"

inductive dedupe_step :: "'k map_order \<Rightarrow> 'k dedupe_system \<Rightarrow> 'k dedupe_system \<Rightarrow> bool" for ord where
  dedupe_wait: "do_enter ord now key (ds_cache s) = (Wait a, c) \<Longrightarrow>
     dedupe_step ord s (s\<lparr>ds_cache := c, ds_waiting := add_mset a (ds_waiting s)\<rparr>)"
| dedupe_bypass: "do_enter ord now key (ds_cache s) = (Bypass, c) \<Longrightarrow> dedupe_step ord s (s\<lparr>ds_cache := c\<rparr>)"
| dedupe_run: "do_enter ord now key (ds_cache s) = (Run a, c) \<Longrightarrow>
     dedupe_step ord s (s\<lparr>ds_cache := c, ds_running := insert (key, a) (ds_running s)\<rparr>)"
| dedupe_complete: "(key, a) \<in> ds_running s \<Longrightarrow>
     dedupe_step ord s (s\<lparr>ds_cache := do_complete ord now key a result (ds_cache s),
       ds_running := ds_running s - {(key, a)}, ds_results := (ds_results s)(a \<mapsto> result)\<rparr>)"
| dedupe_wake: "a \<in># ds_waiting s \<Longrightarrow> de_complete (dd_store (ds_cache s) a) \<Longrightarrow>
     dedupe_step ord s (s\<lparr>ds_waiting := ds_waiting s - {#a#}\<rparr>)"

definition dedupe_start :: "'k dedupe_system" where
  "dedupe_start = \<lparr>ds_cache = newDedupe, ds_running = {}, ds_waiting = {#}, ds_results = Map.empty\<rparr>"

inductive dedupe_reach :: "'k map_order \<Rightarrow> 'k dedupe_system \<Rightarrow> bool" for ord where
  dedupe_reach_start: "dedupe_reach ord dedupe_start"
| dedupe_reach_step: "dedupe_reach ord s \<Longrightarrow> dedupe_step ord s s' \<Longrightarrow> dedupe_reach ord s'"

text \<open>A finished entry holds the result of its run; every waiter's entry is finished or being run.\<close>

definition results_ok :: "'k dedupe_system \<Rightarrow> bool" where
  "results_ok s \<longleftrightarrow>
     (\<forall>a. de_complete (dd_store (ds_cache s) a) \<longrightarrow>
        a \<le> dd_sequence (ds_cache s) \<and>
        (\<exists>r. ds_results s a = Some r \<and> runDedupeWork r = (de_value (dd_store (ds_cache s) a), de_err (dd_store (ds_cache s) a)))) \<and>
     (\<forall>a \<in># ds_waiting s. a \<le> dd_sequence (ds_cache s) \<and>
        (de_complete (dd_store (ds_cache s) a) \<or> (\<exists>k. (k, a) \<in> ds_running s))) \<and>
     (\<forall>(k, a) \<in> ds_running s. a \<le> dd_sequence (ds_cache s))"

definition dedupe_inv :: "'k dedupe_system \<Rightarrow> bool" where
  "dedupe_inv s \<longleftrightarrow> entries_ok (ds_running s) (ds_cache s) \<and> bounded (ds_cache s) \<and> results_ok s"

lemma bounded_shrinks: "entries_ok R c \<Longrightarrow> shrinks R c c' \<Longrightarrow> bounded c \<Longrightarrow> bounded c'"
  using shrinks_card [of R c c'] by (auto simp: bounded_def shrinks_def)

lemma dedupe_inv_step:
  assumes "dedupe_step ord s s'" "enumerates ord" "dedupe_inv s"
  shows "dedupe_inv s'"
  using assms
proof (cases rule: dedupe_step.cases)
  case (dedupe_wait now key a c)
  have h: "shrinks (ds_running s) (ds_cache s) c" "dd_entries c key = Some a"
    using do_enter_ok [where ord = ord and R = "ds_running s" and c = "ds_cache s" and now = now and key = key] assms(2,3) dedupe_wait(2) by (auto simp: dedupe_inv_def)
  then have ok: "entries_ok (ds_running s) c" and st: "dd_store c = dd_store (ds_cache s)" "dd_sequence c = dd_sequence (ds_cache s)"
    by (simp_all add: shrinks_def)
  have "a \<le> dd_sequence c" "de_complete (dd_store c a) \<or> (key, a) \<in> ds_running s"
    using ok h(2) entries_ok_entry [OF ok h(2)] unfolding entries_ok_def by (blast, metis)
  then show ?thesis
    using assms(3) ok st bounded_shrinks [OF _ h(1)] unfolding dedupe_wait(1) dedupe_inv_def results_ok_def by auto
next
  case (dedupe_bypass now key c)
  have h: "shrinks (ds_running s) (ds_cache s) c"
    using do_enter_ok [where ord = ord and R = "ds_running s" and c = "ds_cache s" and now = now and key = key] assms(2,3) dedupe_bypass(2) by (auto simp: dedupe_inv_def)
  then have ok: "entries_ok (ds_running s) c" and st: "dd_store c = dd_store (ds_cache s)" "dd_sequence c = dd_sequence (ds_cache s)"
    by (simp_all add: shrinks_def)
  then show ?thesis
    using assms(3) bounded_shrinks [OF _ h] unfolding dedupe_bypass(1) dedupe_inv_def results_ok_def by auto
next
  case (dedupe_run now key a c)
  have h: "entries_ok (insert (key, a) (ds_running s)) c" "a = Suc (dd_sequence (ds_cache s))" "bounded c"
      "dd_sequence c = a" "dd_store c = (dd_store (ds_cache s))(a := new_entry)"
    using do_enter_ok [where ord = ord and R = "ds_running s" and c = "ds_cache s" and now = now and key = key] assms(2,3) dedupe_run(2) by (auto simp: dedupe_inv_def)
  then show ?thesis
    using assms(3) unfolding dedupe_run(1) dedupe_inv_def results_ok_def
    by (auto simp: new_entry_def split: if_splits; fastforce)
next
  case (dedupe_complete key a now result)
  note h = do_complete_ok [of ord "ds_running s" "ds_cache s" key a]
  have i: "enumerates ord" "entries_ok (ds_running s) (ds_cache s)" "bounded (ds_cache s)" "results_ok s"
    using assms by (simp_all add: dedupe_inv_def)
  have "results_ok s'"
    using i(4) h(3,4) [OF i(1-3) dedupe_complete(2)] dedupe_complete(2)
    unfolding dedupe_complete(1) results_ok_def by (auto split: if_splits; fastforce)
  then show ?thesis
    using h(1,2) [OF i(1-3) dedupe_complete(2)] unfolding dedupe_complete(1) dedupe_inv_def by simp
next
  case (dedupe_wake a)
  then show ?thesis using assms(3) by (auto simp: dedupe_inv_def results_ok_def dest: in_diffD)
qed

lemma dedupe_reach_inv: "dedupe_reach ord s \<Longrightarrow> enumerates ord \<Longrightarrow> dedupe_inv s"
proof (induction rule: dedupe_reach.induct)
  case dedupe_reach_start
  show ?case
    by (simp add: dedupe_inv_def entries_ok_def bounded_def results_ok_def dedupe_start_def newDedupe_def
        new_entry_def entry_total_def)
next
  case (dedupe_reach_step s s')
  then show ?case by (blast intro: dedupe_inv_step)
qed

text \<open>A concrete order of iteration, for keys of type \<open>bool\<close>.\<close>

definition bool_order :: "bool map_order" where
  "bool_order m = filter (\<lambda>k. m k \<noteq> None) [False, True]"

lemma bool_order_enumerates: "enumerates bool_order"
proof -
  have "k \<in> set (bool_order m) \<longleftrightarrow> k \<in> dom m" for k m by (cases k) (auto simp: bool_order_def)
  then have "set (bool_order m) = dom m" for m by blast
  then show ?thesis unfolding enumerates_def by (simp add: bool_order_def)
qed

lemma bool_order_run: "do_enter bool_order 0 True newDedupe =
   (Run 1, newDedupe\<lparr>dd_sequence := 1, dd_store := (\<lambda>_. new_entry)(1 := new_entry), dd_entries := [True \<mapsto> 1]\<rparr>)"
  by (simp add: do_enter_def expireLocked_def bool_order_def newDedupe_def makeRoomLocked_def dedupeMaxEntries_def Let_def)

lemma bool_order_reach: "dedupe_reach bool_order
   (dedupe_start\<lparr>ds_cache := snd (do_enter bool_order 0 True newDedupe), ds_running := {(True, 1)}\<rparr>)"
proof -
  have "dedupe_step bool_order dedupe_start (dedupe_start\<lparr>ds_cache := snd (do_enter bool_order 0 True newDedupe),
      ds_running := insert (True, 1) (ds_running dedupe_start)\<rparr>)"
    by (rule dedupe_run [of bool_order 0 True]) (simp add: bool_order_run dedupe_start_def)
  from dedupe_reach_step [OF dedupe_reach_start this] show ?thesis by (simp add: dedupe_start_def)
qed

text \<open>
  C14. The cache stays within its bounds in every interleaving: at most 64 entries and 8 MiB of
  cached bytes, the byte counter exact, and every cached result free of error and at most 1 MiB.
\<close>
theorem dedupe_bounds:
  assumes "enumerates ord" "dedupe_reach ord s"
  shows "card (dom (dd_entries (ds_cache s))) \<le> 64
     \<and> dd_total (ds_cache s) = int (\<Sum>k\<in>dom (dd_entries (ds_cache s)). entry_size (ds_cache s) k)
     \<and> dd_total (ds_cache s) \<le> 8388608
     \<and> (\<forall>k a. completed (ds_cache s) k a \<longrightarrow>
          de_err (dd_store (ds_cache s) a) = None \<and> length (de_value (dd_store (ds_cache s) a)) \<le> 1048576)"
proof -
  have i: "entries_ok (ds_running s) (ds_cache s)" "bounded (ds_cache s)"
    using dedupe_reach_inv [OF assms(2,1)] by (simp_all add: dedupe_inv_def)
  have "de_err (dd_store (ds_cache s) a) = None \<and> length (de_value (dd_store (ds_cache s) a)) \<le> 1048576"
    if "completed (ds_cache s) k a" for k a
    using entries_ok_entry [OF i(1), of k a] that by (simp add: completed_def dedupeMaxItemBytes_def)
  moreover have "dd_total (ds_cache s) = int (\<Sum>k\<in>dom (dd_entries (ds_cache s)). entry_size (ds_cache s) k)"
    using i(1) unfolding entries_ok_def entry_total_def by blast
  ultimately show ?thesis
    using i(2) by (simp add: bounded_def dedupeMaxEntries_def dedupeMaxBytes_def)
qed

theorem dedupe_bounds_witness:
  "dd_total (ds_cache (dedupe_start\<lparr>ds_cache := snd (do_enter bool_order 0 True newDedupe), ds_running := {(True, 1)}\<rparr>)) \<le> 8388608"
  using dedupe_bounds [OF bool_order_enumerates bool_order_reach] by blast

text \<open>
  C23. Equal work is shared and nobody waits forever.  In every interleaving at most one shared
  call runs per key; every waiting call waits for a run that is still going on or already
  finished; and what it then returns is exactly the value and the error of that run, a panic of
  the work included.
\<close>
theorem dedupe_coalesces:
  assumes "enumerates ord" "dedupe_reach ord s"
  shows "(\<forall>k a b. (k, a) \<in> ds_running s \<longrightarrow> (k, b) \<in> ds_running s \<longrightarrow> a = b)
     \<and> (\<forall>a \<in># ds_waiting s. (\<exists>k. (k, a) \<in> ds_running s) \<or>
          (\<exists>r. ds_results s a = Some r \<and>
             waiter_result a (ds_cache s) = (fst (runDedupeWork r), True, snd (runDedupeWork r))))"
proof -
  have i: "entries_ok (ds_running s) (ds_cache s)" "results_ok s"
    using dedupe_reach_inv [OF assms(2,1)] by (simp_all add: dedupe_inv_def)
  have "a = b" if "(k, a) \<in> ds_running s" "(k, b) \<in> ds_running s" for k a b
    using entries_ok_running [OF i(1) that(1)] entries_ok_running [OF i(1) that(2)] by simp
  moreover have "(\<exists>k. (k, a) \<in> ds_running s) \<or>
      (\<exists>r. ds_results s a = Some r \<and> waiter_result a (ds_cache s) = (fst (runDedupeWork r), True, snd (runDedupeWork r)))"
    if "a \<in># ds_waiting s" for a
    using i(2) that unfolding results_ok_def waiter_result_def by (metis fst_conv snd_conv)
  ultimately show ?thesis by blast
qed

lemma bool_order_panic_reach: "dedupe_reach bool_order
   \<lparr>ds_cache = do_complete bool_order 7 True 1 WorkPanics (snd (do_enter bool_order 0 True newDedupe)),
    ds_running = {}, ds_waiting = {#1#}, ds_results = [1 \<mapsto> WorkPanics]\<rparr>"
proof -
  let ?c = "snd (do_enter bool_order 0 True newDedupe)"
  let ?s = "dedupe_start\<lparr>ds_cache := ?c, ds_running := {(True, 1::nat)}\<rparr>"
  have again: "do_enter bool_order 0 True (ds_cache ?s) = (Wait 1, ?c)"
    unfolding bool_order_run dedupe_start_def
    by (simp add: do_enter_def expireLocked_def bool_order_def newDedupe_def new_entry_def
        expire_loop_Cons expire_one_def Let_def)
  have "dedupe_reach bool_order (?s\<lparr>ds_cache := ?c, ds_waiting := add_mset 1 (ds_waiting ?s)\<rparr>)"
    by (rule dedupe_reach_step [OF bool_order_reach dedupe_wait [OF again]])
  from dedupe_reach_step [OF this dedupe_complete [where key = True and a = 1 and now = 7 and result = WorkPanics]] show ?thesis
    by (simp add: dedupe_start_def)
qed

theorem dedupe_coalesces_witness:
  "waiter_result 1 (do_complete bool_order 7 True 1 WorkPanics (snd (do_enter bool_order 0 True newDedupe)))
     = ([], True, Some ErrDedupeWorkPanic)"
  using dedupe_coalesces [OF bool_order_enumerates bool_order_panic_reach] by simp

text \<open>
  C26. Nothing stale is served: a call joins an entry only if the entry's run is still going on
  or its five seconds are not over, and whenever there is no such entry the work is run.
\<close>
theorem dedupe_no_stale:
  assumes "enumerates ord" "dedupe_reach ord s"
    and "do_enter ord now key (ds_cache s) = (Wait a, c')"
  shows "dd_entries (ds_cache s) key = Some a \<and>
     ((key, a) \<in> ds_running s \<or> now < de_expires_at (dd_store (ds_cache s) a))"
proof -
  have i: "entries_ok (ds_running s) (ds_cache s)" "bounded (ds_cache s)"
    using dedupe_reach_inv [OF assms(2,1)] by (simp_all add: dedupe_inv_def)
  have h: "shrinks (ds_running s) (ds_cache s) c'" "dd_entries c' key = Some a"
     "de_complete (dd_store c' a) \<longrightarrow> now < de_expires_at (dd_store c' a)"
    using do_enter_ok [OF assms(1) i, where now = now and key = key] assms(3) by auto
  then have e: "dd_entries (ds_cache s) key = Some a" and st: "dd_store c' = dd_store (ds_cache s)"
    by (auto simp: shrinks_def map_le_def dom_def)
  have "de_complete (dd_store (ds_cache s) a) \<or> (key, a) \<in> ds_running s"
    using entries_ok_entry [OF i(1) e] by metis
  with e st h(3) show ?thesis by auto
qed

theorem dedupe_no_stale_witness:
  "dd_entries (snd (do_enter bool_order 0 True newDedupe)) True = Some 1"
proof -
  have w: "do_enter bool_order 0 True (ds_cache (dedupe_start\<lparr>ds_cache := snd (do_enter bool_order 0 True newDedupe), ds_running := {(True, 1)}\<rparr>))
     = (Wait 1, snd (do_enter bool_order 0 True newDedupe))"
    unfolding bool_order_run dedupe_start_def
    by (simp add: do_enter_def expireLocked_def bool_order_def newDedupe_def new_entry_def
        expire_loop_Cons expire_one_def Let_def)
  from dedupe_no_stale [OF bool_order_enumerates bool_order_reach w] show ?thesis by simp
qed

subsection \<open>The key\<close>

text \<open>\<open>Request\<close> of \<open>internal/saver/pipeline.go\<close>, and the bytes \<open>dedupeKey\<close> hashes.\<close>

record request =
  rq_from :: bytes
  rq_to :: bytes
  rq_model :: bytes
  rq_stream :: bool
  rq_body :: bytes

definition be64 :: "nat \<Rightarrow> bytes" where
  "be64 n = map (\<lambda>i. char_of (n div 256 ^ i)) [7, 6, 5, 4, 3, 2, 1, 0]"

definition writeHashField :: "bytes \<Rightarrow> bytes" where
  "writeHashField v = be64 (length v) @ v"

definition dedupe_preimage :: "u64 \<Rightarrow> request \<Rightarrow> bytes" where
  "dedupe_preimage generation r =
     be64 (unat generation) @ writeHashField (rq_from r) @ writeHashField (rq_to r) @ writeHashField (rq_model r)
       @ (if rq_stream r then [CHR 0x01] else [CHR 0x00]) @ writeHashField (rq_body r)"

text \<open>\<open>sha256\<close> is the hash of the byte sequence written.\<close>

definition dedupeKey :: "(bytes \<Rightarrow> 'd) \<Rightarrow> u64 \<Rightarrow> request \<Rightarrow> 'd" where
  "dedupeKey sha256 generation r = sha256 (dedupe_preimage generation r)"

lemma length_be64 [simp]: "length (be64 n) = 8"
  by (simp add: be64_def)

lemma be64_inj: "be64 m = be64 n \<Longrightarrow> m < 2 ^ 64 \<Longrightarrow> n < 2 ^ 64 \<Longrightarrow> m = n"
proof -
  assume eq: "be64 m = be64 n" and m: "m < 2 ^ 64" and n: "n < 2 ^ 64"
  have byte: "m div 256 ^ i mod 256 = n div 256 ^ i mod 256" if "i \<le> 7" for i
  proof -
    have "\<forall>j \<in> set [7, 6, 5, 4, 3, 2, 1, 0 :: nat]. (char_of (m div 256 ^ j) :: char) = char_of (n div 256 ^ j)"
      using eq by (simp add: be64_def)
    moreover have "i \<in> set [7, 6, 5, 4, 3, 2, 1, 0 :: nat]" using that by auto
    ultimately show ?thesis by (metis of_char_of)
  qed
  have dig: "k \<le> 8 \<Longrightarrow> m mod 256 ^ k = n mod 256 ^ k" for k
  proof (induction k)
    case (Suc k)
    have "x mod 256 ^ Suc k = x mod 256 ^ k + 256 ^ k * (x div 256 ^ k mod 256)" for x :: nat
      using mod_mult2_eq [of x "256 ^ k" 256] by (simp add: mult.commute)
    then show ?case using Suc byte [of k] by simp
  qed simp
  from dig [of 8] m n show "m = n" by simp
qed

lemma writeHashField_inj:
  assumes "writeHashField u @ s = writeHashField v @ t" "length u < 2 ^ 64" "length v < 2 ^ 64"
  shows "u = v \<and> s = t"
proof -
  have "be64 (length u) = be64 (length v)" "u @ s = v @ t"
    using assms(1) by (simp_all add: writeHashField_def append_eq_append_conv)
  then show ?thesis using be64_inj assms(2,3) by (metis append_eq_append_conv)
qed

text \<open>
  The key separates requests: two requests whose fields a Go string can hold get the same key
  only if generation and all five fields are equal, or the hash function itself collides.
\<close>
theorem dedupe_key_separates:
  assumes "\<forall>f \<in> {rq_from, rq_to, rq_model, rq_body}. length (f r) < 2 ^ 63 \<and> length (f r') < 2 ^ 63"
    and "dedupeKey sha256 g r = dedupeKey sha256 g' r'"
  shows "(g = g' \<and> r = r') \<or> (\<exists>x y. x \<noteq> y \<and> sha256 x = sha256 y)"
proof (cases "dedupe_preimage g r = dedupe_preimage g' r'")
  case True
  have len: "length (rq_from r) < 2 ^ 64" "length (rq_to r) < 2 ^ 64" "length (rq_model r) < 2 ^ 64" "length (rq_body r) < 2 ^ 64"
    "length (rq_from r') < 2 ^ 64" "length (rq_to r') < 2 ^ 64" "length (rq_model r') < 2 ^ 64" "length (rq_body r') < 2 ^ 64"
    using assms(1) by auto
  have "be64 (unat g) = be64 (unat g')" and rest: "writeHashField (rq_from r) @ writeHashField (rq_to r) @ writeHashField (rq_model r)
       @ (if rq_stream r then [CHR 0x01] else [CHR 0x00]) @ writeHashField (rq_body r)
     = writeHashField (rq_from r') @ writeHashField (rq_to r') @ writeHashField (rq_model r')
       @ (if rq_stream r' then [CHR 0x01] else [CHR 0x00]) @ writeHashField (rq_body r')"
    using True by (simp_all add: dedupe_preimage_def append_eq_append_conv)
  moreover have "unat g < 2 ^ 64" "unat g' < 2 ^ 64"
    using unsigned_less [of g, where 'a = nat] unsigned_less [of g', where 'a = nat] by simp_all
  ultimately have g: "g = g'" using be64_inj by (metis word_unat_eq_iff)
  note f1 = writeHashField_inj [OF rest len(1,5)]
  note f2 = writeHashField_inj [OF f1 [THEN conjunct2] len(2,6)]
  note f3 = writeHashField_inj [OF f2 [THEN conjunct2] len(3,7)]
  have st: "rq_stream r = rq_stream r'" and b: "writeHashField (rq_body r) @ [] = writeHashField (rq_body r') @ []"
    using f3 by (auto split: if_splits)
  note f4 = writeHashField_inj [OF b len(4,8)]
  show ?thesis using g f1 f2 f3 f4 st by simp
next
  case False
  with assms(2) show ?thesis unfolding dedupeKey_def by blast
qed

theorem dedupe_key_separates_witness:
  "dedupeKey id 1 \<lparr>rq_from = ''a'', rq_to = ''bc'', rq_model = [], rq_stream = True, rq_body = []\<rparr>
     \<noteq> dedupeKey id 1 \<lparr>rq_from = ''ab'', rq_to = ''c'', rq_model = [], rq_stream = True, rq_body = []\<rparr>"
  using dedupe_key_separates [of "\<lparr>rq_from = ''a'', rq_to = ''bc'', rq_model = [], rq_stream = True, rq_body = []\<rparr>"
      "\<lparr>rq_from = ''ab'', rq_to = ''c'', rq_model = [], rq_stream = True, rq_body = []\<rparr>" id 1 1]
  by auto

end
