(* ===== verification/Metrics.thy ===== *)
theory Metrics
  imports GoStrings
begin

text \<open>
  \<open>internal/metrics/metrics.go\<close>: the process-lifetime counters.  Every operation of the
  registry runs under its mutex, so an operation is one function on the registry, and the
  concurrent behaviour is the interleaving of operations (\<open>metrics_step\<close>).  \<open>Stage\<close> and
  \<open>Outcome\<close> are Go strings; their named constants are constructors and every other string
  value is the last constructor.  Counters are 64-bit words and wrap as Go's do.  The nil
  receiver guards are not modelled: \<open>New\<close> never returns nil.
\<close>

subsection \<open>Stages, outcomes and snapshots\<close>

datatype stage = StagePipeline | StageRTK | StageHeadroom | StageCaveman | StagePonytail
  | StageUnknown bytes

datatype outcome = OutcomeExecuted | OutcomeBypassed | OutcomeFailOpen | OutcomeTimeout
  | OutcomeSaturated | OutcomeUnknown bytes

record stage_snapshot =
  ss_executed :: u64
  ss_bypassed :: u64
  ss_fail_open :: u64
  ss_timeout :: u64
  ss_saturated :: u64
  ss_input :: u64
  ss_output :: u64
  ss_duration :: u64

definition zero_stage :: stage_snapshot where
  "zero_stage = \<lparr>ss_executed = 0, ss_bypassed = 0, ss_fail_open = 0, ss_timeout = 0,
     ss_saturated = 0, ss_input = 0, ss_output = 0, ss_duration = 0\<rparr>"

record stage_projection =
  sp_pipeline :: stage_snapshot
  sp_rtk :: stage_snapshot
  sp_headroom :: stage_snapshot
  sp_caveman :: stage_snapshot
  sp_ponytail :: stage_snapshot

record outcome_projection =
  op_executed :: u64
  op_bypassed :: u64
  op_fail_open :: u64
  op_timeout :: u64
  op_saturated :: u64

definition zero_outcomes :: outcome_projection where
  "zero_outcomes = \<lparr>op_executed = 0, op_bypassed = 0, op_fail_open = 0, op_timeout = 0, op_saturated = 0\<rparr>"

record route_projection =
  rp_pipeline :: outcome_projection
  rp_rtk :: outcome_projection
  rp_headroom :: outcome_projection
  rp_caveman :: outcome_projection
  rp_ponytail :: outcome_projection

definition zero_routes :: route_projection where
  "zero_routes = \<lparr>rp_pipeline = zero_outcomes, rp_rtk = zero_outcomes, rp_headroom = zero_outcomes,
     rp_caveman = zero_outcomes, rp_ponytail = zero_outcomes\<rparr>"

datatype route_key = RouteKey (rk_from: bytes) (rk_to: bytes)

record route_snapshot =
  rs_from :: bytes
  rs_to :: bytes
  rs_stages :: route_projection

record generation_snapshot =
  gs_generation :: u64
  gs_in_flight :: u64

record metrics_snapshot =
  ms_started_at :: gotime
  ms_stages :: stage_projection
  ms_current :: generation_snapshot
  ms_previous :: generation_snapshot

record registry =
  reg_started_at :: gotime
  reg_stages :: stage_projection
  reg_routes :: "route_key \<rightharpoonup> route_projection"
  reg_current :: u64
  reg_previous :: u64
  reg_inflight :: "u64 \<rightharpoonup> u64"

text \<open>The order \<open>RouteOutcomes\<close> sorts by, as the library's type class.\<close>

instantiation route_key :: linorder
begin

definition less_eq_route_key :: "route_key \<Rightarrow> route_key \<Rightarrow> bool" where
  "less_eq_route_key a b = (if rk_from a = rk_from b then rk_to a \<le> rk_to b else rk_from a < rk_from b)"

definition less_route_key :: "route_key \<Rightarrow> route_key \<Rightarrow> bool" where
  "less_route_key a b = (if rk_from a = rk_from b then rk_to a < rk_to b else rk_from a < rk_from b)"

instance
proof
  fix x y z :: route_key
  show "x < y \<longleftrightarrow> x \<le> y \<and> \<not> y \<le> x"
    by (auto simp: less_eq_route_key_def less_route_key_def)
  show "x \<le> x" by (simp add: less_eq_route_key_def)
  show "x \<le> y \<Longrightarrow> y \<le> z \<Longrightarrow> x \<le> z"
    by (auto simp: less_eq_route_key_def split: if_splits)
  show "x \<le> y \<Longrightarrow> y \<le> x \<Longrightarrow> x = y"
    by (auto simp: less_eq_route_key_def split: if_splits intro: route_key.expand)
  show "x \<le> y \<or> y \<le> x" by (auto simp: less_eq_route_key_def)
qed

end

definition New :: "gotime \<Rightarrow> registry" where
  "New started = \<lparr>reg_started_at = started,
     reg_stages = \<lparr>sp_pipeline = zero_stage, sp_rtk = zero_stage, sp_headroom = zero_stage,
       sp_caveman = zero_stage, sp_ponytail = zero_stage\<rparr>,
     reg_routes = Map.empty, reg_current = 0, reg_previous = 0, reg_inflight = Map.empty\<rparr>"

subsection \<open>Counting stage outcomes\<close>

fun validOutcome :: "outcome \<Rightarrow> bool" where
  "validOutcome (OutcomeUnknown _) = False"
| "validOutcome _ = True"

text \<open>\<open>stageLocked\<close> returns a pointer into the projection: here, the update through it.\<close>

fun stageLocked :: "stage \<Rightarrow> ((stage_snapshot \<Rightarrow> stage_snapshot) \<Rightarrow> stage_projection \<Rightarrow> stage_projection) option" where
  "stageLocked StagePipeline = Some sp_pipeline_update"
| "stageLocked StageRTK = Some sp_rtk_update"
| "stageLocked StageHeadroom = Some sp_headroom_update"
| "stageLocked StageCaveman = Some sp_caveman_update"
| "stageLocked StagePonytail = Some sp_ponytail_update"
| "stageLocked (StageUnknown _) = None"

fun count_outcome :: "outcome \<Rightarrow> stage_snapshot \<Rightarrow> stage_snapshot" where
  "count_outcome OutcomeExecuted c = c\<lparr>ss_executed := ss_executed c + 1\<rparr>"
| "count_outcome OutcomeBypassed c = c\<lparr>ss_bypassed := ss_bypassed c + 1\<rparr>"
| "count_outcome OutcomeTimeout c = c\<lparr>ss_fail_open := ss_fail_open c + 1, ss_timeout := ss_timeout c + 1\<rparr>"
| "count_outcome OutcomeSaturated c = c\<lparr>ss_fail_open := ss_fail_open c + 1, ss_saturated := ss_saturated c + 1\<rparr>"
| "count_outcome _ c = c\<lparr>ss_fail_open := ss_fail_open c + 1\<rparr>"

text \<open>The three guarded additions at the end of \<open>Record\<close>.\<close>

definition add_sizes :: "int \<Rightarrow> int \<Rightarrow> duration \<Rightarrow> stage_snapshot \<Rightarrow> stage_snapshot" where
  "add_sizes inputBytes outputBytes dur c =
     (let c1 = (if inputBytes > 0 then c\<lparr>ss_input := ss_input c + of_int inputBytes\<rparr> else c);
          c2 = (if outputBytes > 0 then c1\<lparr>ss_output := ss_output c1 + of_int outputBytes\<rparr> else c1)
      in if dur > 0 then c2\<lparr>ss_duration := ss_duration c2 + of_int dur\<rparr> else c2)"

definition Record :: "stage \<Rightarrow> outcome \<Rightarrow> int \<Rightarrow> int \<Rightarrow> duration \<Rightarrow> registry \<Rightarrow> registry" where
  "Record st oc inputBytes outputBytes dur reg =
     (let (upd, oc') =
            (case stageLocked st of
               Some u \<Rightarrow> if validOutcome oc then (u, oc) else (sp_pipeline_update, OutcomeFailOpen)
             | None \<Rightarrow> (sp_pipeline_update, OutcomeFailOpen))
      in reg\<lparr>reg_stages :=
           upd (\<lambda>c. add_sizes inputBytes outputBytes dur (count_outcome oc' c)) (reg_stages reg)\<rparr>)"

text \<open>The body of the loop over the five counters in \<open>RecordAllBypassed\<close>.\<close>

definition bypass_one :: "int \<Rightarrow> stage_snapshot \<Rightarrow> stage_snapshot" where
  "bypass_one sz c =
     (let c1 = c\<lparr>ss_bypassed := ss_bypassed c + 1\<rparr>
      in if sz > 0 then c1\<lparr>ss_input := ss_input c1 + of_int sz, ss_output := ss_output c1 + of_int sz\<rparr>
         else c1)"

definition RecordAllBypassed :: "int \<Rightarrow> registry \<Rightarrow> registry" where
  "RecordAllBypassed sz reg =
     reg\<lparr>reg_stages :=
       foldl (\<lambda>p upd. upd (bypass_one sz) p) (reg_stages reg)
         [sp_rtk_update, sp_headroom_update, sp_caveman_update, sp_ponytail_update, sp_pipeline_update]\<rparr>"

subsection \<open>Routes\<close>

definition known_formats :: "bytes list" where
  "known_formats = [''openai'', ''openai-response'', ''codex'', ''claude'', ''gemini'', ''interactions'', ''antigravity'']"

definition knownFormat :: "bytes \<Rightarrow> bytes" where
  "knownFormat format = (if List.member known_formats format then format else ''other'')"

definition normalizedRouteKey :: "bytes \<Rightarrow> bytes \<Rightarrow> route_key" where
  "normalizedRouteKey fromFormat toFormat = RouteKey (knownFormat fromFormat) (knownFormat toFormat)"

fun routeStage :: "stage \<Rightarrow> ((outcome_projection \<Rightarrow> outcome_projection) \<Rightarrow> route_projection \<Rightarrow> route_projection) option" where
  "routeStage StagePipeline = Some rp_pipeline_update"
| "routeStage StageRTK = Some rp_rtk_update"
| "routeStage StageHeadroom = Some rp_headroom_update"
| "routeStage StageCaveman = Some rp_caveman_update"
| "routeStage StagePonytail = Some rp_ponytail_update"
| "routeStage (StageUnknown _) = None"

fun recordRouteOutcome :: "outcome \<Rightarrow> outcome_projection \<Rightarrow> outcome_projection" where
  "recordRouteOutcome OutcomeExecuted c = c\<lparr>op_executed := op_executed c + 1\<rparr>"
| "recordRouteOutcome OutcomeBypassed c = c\<lparr>op_bypassed := op_bypassed c + 1\<rparr>"
| "recordRouteOutcome OutcomeTimeout c = c\<lparr>op_fail_open := op_fail_open c + 1, op_timeout := op_timeout c + 1\<rparr>"
| "recordRouteOutcome OutcomeSaturated c = c\<lparr>op_fail_open := op_fail_open c + 1, op_saturated := op_saturated c + 1\<rparr>"
| "recordRouteOutcome _ c = c\<lparr>op_fail_open := op_fail_open c + 1\<rparr>"

definition route_lookup :: "registry \<Rightarrow> route_key \<Rightarrow> route_projection" where
  "route_lookup reg key = (case reg_routes reg key of None \<Rightarrow> zero_routes | Some p \<Rightarrow> p)"

definition RecordRoute :: "stage \<Rightarrow> outcome \<Rightarrow> bytes \<Rightarrow> bytes \<Rightarrow> registry \<Rightarrow> registry" where
  "RecordRoute st oc fromFormat toFormat reg =
     (let key = normalizedRouteKey fromFormat toFormat;
          (upd, oc') =
            (case routeStage st of
               Some u \<Rightarrow> if validOutcome oc then (u, oc) else (rp_pipeline_update, OutcomeFailOpen)
             | None \<Rightarrow> (rp_pipeline_update, OutcomeFailOpen))
      in reg\<lparr>reg_routes := (reg_routes reg)(key \<mapsto> upd (recordRouteOutcome oc') (route_lookup reg key))\<rparr>)"

definition RecordAllBypassedRoute :: "bytes \<Rightarrow> bytes \<Rightarrow> registry \<Rightarrow> registry" where
  "RecordAllBypassedRoute fromFormat toFormat reg =
     (let key = normalizedRouteKey fromFormat toFormat;
          bump = (\<lambda>c. c\<lparr>op_bypassed := op_bypassed c + 1\<rparr>)
      in reg\<lparr>reg_routes := (reg_routes reg)(key \<mapsto>
           foldl (\<lambda>p upd. upd bump p) (route_lookup reg key)
             [rp_rtk_update, rp_headroom_update, rp_caveman_update, rp_ponytail_update, rp_pipeline_update])\<rparr>)"

text \<open>
  \<open>RouteOutcomes\<close> ranges over the map, whose iteration order Go leaves open: \<open>iter\<close> is the
  order of this call, an enumeration of the map's keys.  Sorting by the route key is stable
  and total, so \<open>sort_key\<close> is what \<open>sort.Slice\<close> does here.
\<close>

definition route_snapshot_of :: "registry \<Rightarrow> route_key \<Rightarrow> route_snapshot" where
  "route_snapshot_of reg key = \<lparr>rs_from = rk_from key, rs_to = rk_to key, rs_stages = route_lookup reg key\<rparr>"

definition route_order :: "route_snapshot \<Rightarrow> route_key" where
  "route_order s = RouteKey (rs_from s) (rs_to s)"

definition RouteOutcomes :: "route_key list \<Rightarrow> registry \<Rightarrow> route_snapshot list" where
  "RouteOutcomes iter reg = sort_key route_order (map (route_snapshot_of reg) iter)"

subsection \<open>Generations\<close>

definition PublishGeneration :: "u64 \<Rightarrow> registry \<Rightarrow> registry" where
  "PublishGeneration generation reg =
     (if reg_current reg \<noteq> generation then
        let stale = reg_previous reg;
            reg1 = reg\<lparr>reg_previous := reg_current reg, reg_current := generation\<rparr>
        in if stale \<noteq> reg_current reg1 \<and> stale \<noteq> reg_previous reg1 \<and> mget (reg_inflight reg1) stale = 0
           then reg1\<lparr>reg_inflight := mdelete (reg_inflight reg1) stale\<rparr> else reg1
      else reg)"

definition Begin :: "u64 \<Rightarrow> registry \<Rightarrow> registry" where
  "Begin generation reg =
     reg\<lparr>reg_inflight := (reg_inflight reg)(generation \<mapsto> mget (reg_inflight reg) generation + 1)\<rparr>"

text \<open>The completion hook \<open>Begin\<close> returns, the first (and, by \<open>sync.Once\<close>, only) time it runs.\<close>

definition End :: "u64 \<Rightarrow> registry \<Rightarrow> registry" where
  "End generation reg =
     (let reg1 = (if mget (reg_inflight reg) generation > 0
                  then reg\<lparr>reg_inflight := (reg_inflight reg)(generation \<mapsto> mget (reg_inflight reg) generation - 1)\<rparr>
                  else reg)
      in if mget (reg_inflight reg1) generation = 0 \<and> generation \<noteq> reg_current reg1 \<and> generation \<noteq> reg_previous reg1
         then reg1\<lparr>reg_inflight := mdelete (reg_inflight reg1) generation\<rparr> else reg1)"

definition Snapshot :: "registry \<Rightarrow> metrics_snapshot" where
  "Snapshot reg = \<lparr>ms_started_at = reg_started_at reg, ms_stages = reg_stages reg,
     ms_current = \<lparr>gs_generation = reg_current reg, gs_in_flight = mget (reg_inflight reg) (reg_current reg)\<rparr>,
     ms_previous = \<lparr>gs_generation = reg_previous reg, gs_in_flight = mget (reg_inflight reg) (reg_previous reg)\<rparr>\<rparr>"

definition SavedBytes :: "stage_snapshot \<Rightarrow> u64" where
  "SavedBytes snapshot = (if ss_output snapshot \<ge> ss_input snapshot then 0 else ss_input snapshot - ss_output snapshot)"

subsection \<open>What one record changes\<close>

text \<open>Events counted by one stage, and by the whole projection.\<close>

definition stage_events :: "stage_snapshot \<Rightarrow> u64" where
  "stage_events c = ss_executed c + ss_bypassed c + ss_fail_open c"

definition all_events :: "stage_projection \<Rightarrow> u64" where
  "all_events p = stage_events (sp_pipeline p) + stage_events (sp_rtk p) + stage_events (sp_headroom p)
     + stage_events (sp_caveman p) + stage_events (sp_ponytail p)"

lemma stage_events_add_sizes [simp]: "stage_events (add_sizes i j d c) = stage_events c"
  by (simp add: add_sizes_def stage_events_def Let_def)

lemma stage_events_count [simp]: "stage_events (count_outcome oc c) = stage_events c + 1"
  by (cases oc) (simp_all add: stage_events_def)

lemma stage_events_bypass_one [simp]: "stage_events (bypass_one n c) = stage_events c + 1"
  by (simp add: bypass_one_def stage_events_def Let_def)

lemma all_events_Record: "all_events (reg_stages (Record st oc i j d reg)) = all_events (reg_stages reg) + 1"
  by (cases st; cases oc) (simp_all add: Record_def all_events_def del: count_outcome.simps)

lemma Record_other_fields [simp]:
  "reg_routes (Record st oc i j d reg) = reg_routes reg"
  "reg_current (Record st oc i j d reg) = reg_current reg"
  "reg_previous (Record st oc i j d reg) = reg_previous reg"
  "reg_inflight (Record st oc i j d reg) = reg_inflight reg"
  "reg_started_at (Record st oc i j d reg) = reg_started_at reg"
  by (auto simp: Record_def Let_def split: option.splits prod.splits)

text \<open>\<open>RecordAllBypassed\<close> is the five calls of \<open>Record\<close> it stands for.\<close>

lemma add_sizes_bypassed: "add_sizes n n 0 (count_outcome OutcomeBypassed c) = bypass_one n c"
  by (simp add: add_sizes_def bypass_one_def Let_def)

lemma RecordAllBypassed_fold:
  "RecordAllBypassed n reg =
     foldl (\<lambda>r st. Record st OutcomeBypassed n n 0 r) reg
       [StageRTK, StageHeadroom, StageCaveman, StagePonytail, StagePipeline]"
  by (simp add: RecordAllBypassed_def Record_def add_sizes_bypassed del: count_outcome.simps)

lemma RecordAllBypassedRoute_fold:
  "RecordAllBypassedRoute f t reg =
     foldl (\<lambda>r st. RecordRoute st OutcomeBypassed f t r) reg
       [StageRTK, StageHeadroom, StageCaveman, StagePonytail, StagePipeline]"
proof -
  have "recordRouteOutcome OutcomeBypassed = (\<lambda>c. c\<lparr>op_bypassed := op_bypassed c + 1\<rparr>)"
    by (rule ext) simp
  then show ?thesis
    by (simp add: RecordAllBypassedRoute_def RecordRoute_def route_lookup_def Let_def)
qed

subsection \<open>Route keys\<close>

definition label_formats :: "bytes list" where
  "label_formats = ''other'' # known_formats"

lemma knownFormat_label: "knownFormat f \<in> set label_formats"
  by (simp add: knownFormat_def label_formats_def)

lemma knownFormat_idem: "knownFormat (knownFormat f) = knownFormat f"
  by (simp add: knownFormat_def known_formats_def)

definition route_keys_known :: "registry \<Rightarrow> bool" where
  "route_keys_known reg \<longleftrightarrow>
     (\<forall>k \<in> dom (reg_routes reg). rk_from k \<in> set label_formats \<and> rk_to k \<in> set label_formats)"

lemma route_keys_known_card:
  assumes "route_keys_known reg"
  shows "finite (dom (reg_routes reg)) \<and> card (dom (reg_routes reg)) \<le> 64"
proof -
  let ?K = "(\<lambda>(f, t). RouteKey f t) ` (set label_formats \<times> set label_formats)"
  have sub: "dom (reg_routes reg) \<subseteq> ?K"
  proof
    fix k assume "k \<in> dom (reg_routes reg)"
    with assms have "rk_from k \<in> set label_formats" "rk_to k \<in> set label_formats"
      by (auto simp: route_keys_known_def)
    then show "k \<in> ?K" by (intro image_eqI [of _ _ "(rk_from k, rk_to k)"]) auto
  qed
  have fin: "finite ?K" by simp
  have "card ?K \<le> card (set label_formats \<times> set label_formats)" by (rule card_image_le) simp
  also have "\<dots> \<le> length label_formats * length label_formats"
    by (simp add: card_cartesian_product mult_le_mono card_length)
  also have "\<dots> = 64" by (simp add: label_formats_def known_formats_def)
  finally have "card ?K \<le> 64" .
  with sub fin show ?thesis by (meson card_mono finite_subset order_trans)
qed

lemma RouteOutcomes_deterministic:
  assumes "distinct iter" "set iter = dom (reg_routes reg)"
    and "distinct iter'" "set iter' = dom (reg_routes reg)"
  shows "RouteOutcomes iter reg = RouteOutcomes iter' reg"
proof -
  have "mset iter = mset iter'"
    using assms by (metis set_eq_iff_mset_eq_distinct)
  then have "mset (map (route_snapshot_of reg) iter) = mset (map (route_snapshot_of reg) iter')"
    by simp
  moreover have "inj_on route_order (set (map (route_snapshot_of reg) iter))"
    by (auto simp: inj_on_def route_order_def route_snapshot_of_def) (metis route_key.expand)
  moreover have "sorted (map route_order (sort_key route_order (map (route_snapshot_of reg) iter')))"
    by simp
  ultimately show ?thesis
    unfolding RouteOutcomes_def by (intro sort_key_inj_key_eq) auto
qed

lemma RouteOutcomes_ordered: "sorted (map route_order (RouteOutcomes iter reg))"
  by (simp add: RouteOutcomes_def)

lemma RouteOutcomes_set: "set (RouteOutcomes iter reg) = route_snapshot_of reg ` set iter"
  by (simp add: RouteOutcomes_def)

subsection \<open>Interleavings: in-flight accounting\<close>

text \<open>
  A state is the registry and the multiset of generations whose completion hook has not run.
  Each live hook is a goroutine, so there are fewer than 2^64 of them.
\<close>

type_synonym metrics_state = "registry \<times> u64 multiset"

inductive metrics_step :: "metrics_state \<Rightarrow> metrics_state \<Rightarrow> bool" where
  step_begin: "Suc (size live) < 2 ^ 64 \<Longrightarrow> metrics_step (reg, live) (Begin g reg, add_mset g live)"
| step_end: "g \<in># live \<Longrightarrow> metrics_step (reg, live) (End g reg, live - {#g#})"
| step_publish: "metrics_step (reg, live) (PublishGeneration g reg, live)"
| step_record: "metrics_step (reg, live) (Record st oc i j d reg, live)"
| step_record_route: "metrics_step (reg, live) (RecordRoute st oc f t reg, live)"
| step_all_bypassed: "metrics_step (reg, live) (RecordAllBypassed n reg, live)"
| step_all_bypassed_route: "metrics_step (reg, live) (RecordAllBypassedRoute f t reg, live)"

inductive metrics_reach :: "metrics_state \<Rightarrow> bool" where
  reach_new: "metrics_reach (New t0, {#})"
| reach_step: "metrics_reach s \<Longrightarrow> metrics_step s s' \<Longrightarrow> metrics_reach s'"

inductive_cases metrics_step_cases: "metrics_step (reg, live) s'"

definition inflight_exact :: "metrics_state \<Rightarrow> bool" where
  "inflight_exact s \<longleftrightarrow> size (snd s) < 2 ^ 64 \<and>
     (\<forall>g. unat (mget (reg_inflight (fst s)) g) = count (snd s) g)"

definition inflight_bounded :: "metrics_state \<Rightarrow> bool" where
  "inflight_bounded s \<longleftrightarrow>
     (\<forall>g \<in> dom (reg_inflight (fst s)). g = reg_current (fst s) \<or> g = reg_previous (fst s) \<or> g \<in># snd s)"

definition metrics_inv :: "metrics_state \<Rightarrow> bool" where
  "metrics_inv s \<longleftrightarrow> inflight_exact s \<and> inflight_bounded s \<and> route_keys_known (fst s)"

lemma route_keys_known_New: "route_keys_known (New t)"
  by (simp add: route_keys_known_def New_def)

lemma route_keys_known_RecordRoute: "route_keys_known reg \<Longrightarrow> route_keys_known (RecordRoute st oc f t reg)"
  by (auto simp: route_keys_known_def RecordRoute_def normalizedRouteKey_def knownFormat_label Let_def
      split: option.splits prod.splits)

lemma RecordRoute_other_fields [simp]:
  "reg_stages (RecordRoute st oc f t reg) = reg_stages reg"
  "reg_current (RecordRoute st oc f t reg) = reg_current reg"
  "reg_previous (RecordRoute st oc f t reg) = reg_previous reg"
  "reg_inflight (RecordRoute st oc f t reg) = reg_inflight reg"
  by (auto simp: RecordRoute_def Let_def split: option.splits prod.splits)

lemma PublishGeneration_other_fields [simp]:
  "reg_stages (PublishGeneration g reg) = reg_stages reg"
  "reg_routes (PublishGeneration g reg) = reg_routes reg"
  "reg_current (PublishGeneration g reg) = g"
  by (auto simp: PublishGeneration_def Let_def)

lemma Begin_other_fields [simp]:
  "reg_stages (Begin g reg) = reg_stages reg" "reg_routes (Begin g reg) = reg_routes reg"
  "reg_current (Begin g reg) = reg_current reg" "reg_previous (Begin g reg) = reg_previous reg"
  by (simp_all add: Begin_def)

lemma End_other_fields [simp]:
  "reg_stages (End g reg) = reg_stages reg" "reg_routes (End g reg) = reg_routes reg"
  "reg_current (End g reg) = reg_current reg" "reg_previous (End g reg) = reg_previous reg"
  by (simp_all add: End_def Let_def)

lemma mget_publish [simp]: "mget (reg_inflight (PublishGeneration g reg)) h = mget (reg_inflight reg) h"
  by (simp add: PublishGeneration_def Let_def)

lemma mget_begin: "mget (reg_inflight (Begin g reg)) h =
    (if h = g then mget (reg_inflight reg) g + 1 else mget (reg_inflight reg) h)"
  by (simp add: Begin_def)

lemma mget_end: "mget (reg_inflight (End g reg)) h =
    (if h = g \<and> mget (reg_inflight reg) g \<noteq> 0 then mget (reg_inflight reg) g - 1 else mget (reg_inflight reg) h)"
  by (auto simp: End_def Let_def word_gt_0_iff)

lemma inflight_exact_step:
  assumes "inflight_exact (reg, live)"
  shows "Suc (size live) < 2 ^ 64 \<Longrightarrow> inflight_exact (Begin g reg, add_mset g live)"
    and "g \<in># live \<Longrightarrow> inflight_exact (End g reg, live - {#g#})"
    and "inflight_exact (PublishGeneration g reg, live)"
proof -
  from assms have sz: "size live < 2 ^ 64"
    and ex: "\<And>h. unat (mget (reg_inflight reg) h) = count live h"
    by (simp_all add: inflight_exact_def)
  show "inflight_exact (Begin g reg, add_mset g live)" if "Suc (size live) < 2 ^ 64"
  proof -
    have "Suc (unat (mget (reg_inflight reg) g)) < 2 ^ 64"
      using ex [of g] count_le_size_nat [of live g] that by linarith
    then show ?thesis
      using that ex by (simp add: inflight_exact_def mget_begin unat_word64_Suc)
  qed
  show "inflight_exact (End g reg, live - {#g#})" if "g \<in># live"
  proof -
    have "mget (reg_inflight reg) g \<noteq> 0"
      using ex [of g] that by (metis count_greater_zero_iff less_irrefl unat_0)
    then show ?thesis
      using that ex sz
      by (auto simp: inflight_exact_def mget_end unat_word64_pred size_Diff_singleton)
  qed
  show "inflight_exact (PublishGeneration g reg, live)"
    using sz ex by (simp add: inflight_exact_def)
qed

lemma inflight_bounded_step:
  assumes "inflight_exact (reg, live)" "inflight_bounded (reg, live)"
  shows "inflight_bounded (Begin g reg, add_mset g live)"
    and "g \<in># live \<Longrightarrow> inflight_bounded (End g reg, live - {#g#})"
    and "inflight_bounded (PublishGeneration g reg, live)"
proof -
  from assms(1) have ex: "\<And>h. unat (mget (reg_inflight reg) h) = count live h"
    by (simp add: inflight_exact_def)
  then have live_iff: "mget (reg_inflight reg) h \<noteq> 0 \<longleftrightarrow> h \<in># live" for h
    by (metis count_greater_zero_iff gr0I less_irrefl unat_0 unat_eq_zero)
  show "inflight_bounded (Begin g reg, add_mset g live)"
    using assms(2) by (auto simp: inflight_bounded_def Begin_def)
  show "inflight_bounded (PublishGeneration g reg, live)"
    using assms(2) live_iff by (auto simp: inflight_bounded_def PublishGeneration_def Let_def)
  show "inflight_bounded (End g reg, live - {#g#})" if "g \<in># live"
  proof -
    have nz: "mget (reg_inflight reg) g \<noteq> 0" using live_iff that by simp
    have last: "g \<in># live - {#g#}" if "mget (reg_inflight reg) g - 1 \<noteq> 0"
    proof -
      have "unat (mget (reg_inflight reg) g - 1) \<noteq> 0" using that by (simp add: unat_eq_0)
      then have "count live g > 1" using ex [of g] nz by (simp add: unat_word64_pred)
      then show ?thesis by (simp add: in_diff_count)
    qed
    show ?thesis
      using assms(2) nz last that
      by (auto simp: inflight_bounded_def End_def Let_def word_gt_0_iff in_diff_count split: if_splits)
  qed
qed

lemma reg_fields_bypass [simp]:
  "reg_current (RecordAllBypassed n reg) = reg_current reg"
  "reg_previous (RecordAllBypassed n reg) = reg_previous reg"
  "reg_inflight (RecordAllBypassed n reg) = reg_inflight reg"
  "reg_routes (RecordAllBypassed n reg) = reg_routes reg"
  by (simp_all add: RecordAllBypassed_def)

lemma reg_fields_bypass_route [simp]:
  "reg_current (RecordAllBypassedRoute f t reg) = reg_current reg"
  "reg_previous (RecordAllBypassedRoute f t reg) = reg_previous reg"
  "reg_inflight (RecordAllBypassedRoute f t reg) = reg_inflight reg"
  "reg_stages (RecordAllBypassedRoute f t reg) = reg_stages reg"
  by (simp_all add: RecordAllBypassedRoute_def Let_def)

lemma route_keys_known_bypass_route:
  "route_keys_known reg \<Longrightarrow> route_keys_known (RecordAllBypassedRoute f t reg)"
  by (simp add: RecordAllBypassedRoute_fold route_keys_known_RecordRoute)

lemma metrics_inv_New: "metrics_inv (New t0, {#})"
  by (simp add: metrics_inv_def inflight_exact_def inflight_bounded_def route_keys_known_New)
    (simp add: New_def)

lemma metrics_inv_step: "metrics_step s s' \<Longrightarrow> metrics_inv s \<Longrightarrow> metrics_inv s'"
proof (induction rule: metrics_step.induct)
  case (step_begin live reg g)
  then show ?case
    by (simp add: metrics_inv_def inflight_exact_step inflight_bounded_step route_keys_known_def)
next
  case (step_end g live reg)
  then show ?case
    by (simp add: metrics_inv_def inflight_exact_step inflight_bounded_step route_keys_known_def)
next
  case (step_publish reg live g)
  then show ?case
    by (simp add: metrics_inv_def inflight_exact_step inflight_bounded_step route_keys_known_def)
next
  case (step_record_route reg live st oc f t)
  then show ?case
    by (simp add: metrics_inv_def route_keys_known_RecordRoute inflight_exact_def inflight_bounded_def)
next
  case (step_all_bypassed_route reg live f t)
  then show ?case
    by (simp add: metrics_inv_def route_keys_known_bypass_route inflight_exact_def inflight_bounded_def)
qed (simp_all add: metrics_inv_def inflight_exact_def inflight_bounded_def route_keys_known_def)

lemma metrics_reach_inv: "metrics_reach s \<Longrightarrow> metrics_inv s"
  by (induction rule: metrics_reach.induct) (auto intro: metrics_inv_New metrics_inv_step)

lemma inflight_keys_card:
  assumes "inflight_bounded (reg, live)"
  shows "card (dom (reg_inflight reg)) \<le> 2 + size live"
proof -
  have sub: "dom (reg_inflight reg) \<subseteq> {reg_current reg, reg_previous reg} \<union> set_mset live"
    using assms by (auto simp: inflight_bounded_def)
  have "card (dom (reg_inflight reg)) \<le> card ({reg_current reg, reg_previous reg} \<union> set_mset live)"
    by (rule card_mono [OF _ sub]) simp
  also have "\<dots> \<le> card {reg_current reg, reg_previous reg} + card (set_mset live)"
    by (rule card_Un_le)
  also have "\<dots> \<le> 2 + size live"
    by (intro add_mono card_set_mset_le) (simp add: card_insert_if)
  finally show ?thesis .
qed

lemma SavedBytes_nat: "unat (SavedBytes c) = unat (ss_input c) - unat (ss_output c)"
  by (auto simp: SavedBytes_def word_le_nat_alt unat_sub_if')

subsection \<open>Properties\<close>



text \<open>
  In every interleaving the route map has at most 64 keys: unknown formats fold into one
  label, so request data cannot grow the metrics.
\<close>
theorem metrics_routes_bounded:
  assumes "metrics_reach (reg, live)"
  shows "finite (dom (reg_routes reg)) \<and> card (dom (reg_routes reg)) \<le> 64"
  using metrics_reach_inv [OF assms] by (simp add: metrics_inv_def route_keys_known_card)

theorem metrics_routes_bounded_witness:
  "metrics_reach (RecordRoute StageRTK OutcomeExecuted ''x'' ''claude'' (New 0), {#})
     \<and> card (dom (reg_routes (RecordRoute StageRTK OutcomeExecuted ''x'' ''claude'' (New 0)))) \<le> 64"
proof -
  have r: "metrics_reach (RecordRoute StageRTK OutcomeExecuted ''x'' ''claude'' (New 0), {#})"
    by (rule reach_step [OF reach_new step_record_route])
  show ?thesis using r metrics_routes_bounded [OF r] by simp
qed

text \<open>
  Each \<open>Record\<close>, whatever stage and outcome strings it is given, counts exactly one event
  (executed, bypassed or fail-open) in exactly one stage, modulo 2^64; and the safe-off fast
  path \<open>RecordAllBypassed\<close> under one lock equals the five separate records.
\<close>
theorem metrics_record_counts_once:
  "all_events (reg_stages (Record st oc i j d reg)) = all_events (reg_stages reg) + 1
     \<and> RecordAllBypassed n reg =
         foldl (\<lambda>r st. Record st OutcomeBypassed n n 0 r) reg
           [StageRTK, StageHeadroom, StageCaveman, StagePonytail, StagePipeline]
     \<and> RecordAllBypassedRoute f t reg =
         foldl (\<lambda>r st. RecordRoute st OutcomeBypassed f t r) reg
           [StageRTK, StageHeadroom, StageCaveman, StagePonytail, StagePipeline]"
  by (intro conjI all_events_Record RecordAllBypassed_fold RecordAllBypassedRoute_fold)

text \<open>
  The dashboard's route table does not depend on Go's map iteration order: any two
  enumerations of the keys give the same list, in increasing route order, with one row per key.
\<close>
theorem metrics_route_outcomes_stable:
  assumes "distinct iter" "set iter = dom (reg_routes reg)"
    and "distinct iter'" "set iter' = dom (reg_routes reg)"
  shows "RouteOutcomes iter reg = RouteOutcomes iter' reg
     \<and> sorted (map route_order (RouteOutcomes iter reg))
     \<and> set (RouteOutcomes iter reg) = route_snapshot_of reg ` dom (reg_routes reg)"
  using assms by (auto simp: RouteOutcomes_deterministic [OF assms] RouteOutcomes_ordered RouteOutcomes_set)

theorem metrics_route_outcomes_stable_witness:
  "RouteOutcomes [RouteKey ''a'' ''b'', RouteKey ''a'' ''a'']
       ((New 0)\<lparr>reg_routes := [RouteKey ''a'' ''b'' \<mapsto> zero_routes, RouteKey ''a'' ''a'' \<mapsto> zero_routes]\<rparr>)
   = RouteOutcomes [RouteKey ''a'' ''a'', RouteKey ''a'' ''b'']
       ((New 0)\<lparr>reg_routes := [RouteKey ''a'' ''b'' \<mapsto> zero_routes, RouteKey ''a'' ''a'' \<mapsto> zero_routes]\<rparr>)"
  by (rule metrics_route_outcomes_stable [THEN conjunct1]) auto

end
