(* ===== verification/Circuit.thy ===== *)
theory Circuit
  imports Prelude
begin

text \<open>
  The circuit breaker of \<open>internal/headroom/client.go\<close> (\<open>circuitBreaker\<close>) and its use by
  concurrent calls of \<open>Client.Compress\<close> under the client's one-slot semaphore.  Each breaker
  operation runs under its mutex, so it is one function; a call is the sequence begin,
  select, exchange, finish, and calls interleave between these.  The zero \<open>openUntil\<close> is
  \<open>None\<close>.
\<close>

datatype circuit_state = CircuitClosed | CircuitOpen | CircuitHalfOpen

definition failureWindow :: duration where "failureWindow = 60 * second"

definition circuitOpenDuration :: duration where "circuitOpenDuration = 60 * second"

record breaker =
  cb_consecutive :: nat
  cb_failures :: "gotime list"
  cb_open_until :: "gotime option"
  cb_half_open :: bool

definition breaker_zero :: breaker where
  "breaker_zero = \<lparr>cb_consecutive = 0, cb_failures = [], cb_open_until = None, cb_half_open = False\<rparr>"

definition breaker_state :: "gotime \<Rightarrow> breaker \<Rightarrow> circuit_state" where
  "breaker_state now b =
     (case cb_open_until b of
        None \<Rightarrow> CircuitClosed
      | Some until \<Rightarrow> if cb_half_open b \<or> \<not> now < until then CircuitHalfOpen else CircuitOpen)"

text \<open>\<open>begin\<close>: (probe, allowed) and the breaker after it.\<close>

definition breaker_begin :: "gotime \<Rightarrow> breaker \<Rightarrow> (bool \<times> bool) \<times> breaker" where
  "breaker_begin now b =
     (case cb_open_until b of
        None \<Rightarrow> ((False, True), b)
      | Some until \<Rightarrow>
          if now < until \<or> cb_half_open b then ((False, False), b)
          else ((True, True), b\<lparr>cb_half_open := True\<rparr>))"

definition breaker_cancel :: "bool \<Rightarrow> breaker \<Rightarrow> breaker" where
  "breaker_cancel probe b = (if \<not> probe then b else b\<lparr>cb_half_open := False\<rparr>)"

definition breaker_finish :: "gotime \<Rightarrow> bool \<Rightarrow> bool \<Rightarrow> breaker \<Rightarrow> breaker" where
  "breaker_finish now probe success b =
     (if probe then
        let b1 = b\<lparr>cb_half_open := False\<rparr>
        in if success then b1\<lparr>cb_open_until := None, cb_consecutive := 0, cb_failures := []\<rparr>
           else b1\<lparr>cb_open_until := Some (now + circuitOpenDuration)\<rparr>
      else if success then b\<lparr>cb_consecutive := 0\<rparr>
      else
        let cutoff = now - failureWindow;
            kept = filter (\<lambda>failure. \<not> failure < cutoff) (cb_failures b);
            b1 = b\<lparr>cb_failures := kept @ [now], cb_consecutive := cb_consecutive b + 1\<rparr>
        in if cb_consecutive b1 \<ge> 3 \<or> length (cb_failures b1) \<ge> 5
           then b1\<lparr>cb_open_until := Some (now + circuitOpenDuration), cb_half_open := False\<rparr>
           else b1)"

subsection \<open>Admission agrees with the reported state\<close>

lemma begin_allowed_iff:
  "snd (fst (breaker_begin now b)) \<longleftrightarrow>
     breaker_state now b = CircuitClosed \<or> (breaker_state now b = CircuitHalfOpen \<and> \<not> cb_half_open b)"
  by (auto simp: breaker_begin_def breaker_state_def split: option.splits)

lemma begin_probe_iff:
  "fst (fst (breaker_begin now b)) \<longleftrightarrow> breaker_state now b = CircuitHalfOpen \<and> \<not> cb_half_open b"
  by (auto simp: breaker_begin_def breaker_state_def split: option.splits)

lemma begin_rejected_unchanged: "\<not> snd (fst (breaker_begin now b)) \<Longrightarrow> snd (breaker_begin now b) = b"
  by (auto simp: breaker_begin_def split: option.splits if_splits)

subsection \<open>The trip condition against the history of results\<close>

text \<open>
  The specification: over the history of results of ordinary calls, oldest first, the number
  of failures since the last success, and the number of failures not older than the window.
\<close>

type_synonym history = "(gotime \<times> bool) list"

definition trailing_failures :: "history \<Rightarrow> nat" where
  "trailing_failures h = length (takeWhile (\<lambda>(t, ok). \<not> ok) (rev h))"

definition window_failures :: "gotime \<Rightarrow> history \<Rightarrow> nat" where
  "window_failures now h = length (filter (\<lambda>(t, ok). \<not> ok \<and> now - failureWindow \<le> t) h)"

definition trips :: "history \<Rightarrow> bool" where
  "trips h \<longleftrightarrow> h \<noteq> [] \<and> \<not> snd (last h) \<and> (3 \<le> trailing_failures h \<or> 5 \<le> window_failures (fst (last h)) h)"

definition replay :: "history \<Rightarrow> breaker" where
  "replay h = foldl (\<lambda>b (t, ok). breaker_finish t False ok b) breaker_zero h"

lemma replay_Nil [simp]: "replay [] = breaker_zero"
  by (simp add: replay_def)

lemma replay_snoc [simp]: "replay (h @ [(t, ok)]) = breaker_finish t False ok (replay h)"
  by (simp add: replay_def)

lemma finish_consecutive: "cb_consecutive (breaker_finish t False ok b) = (if ok then 0 else Suc (cb_consecutive b))"
  by (simp add: breaker_finish_def Let_def)

lemma finish_failures: "cb_failures (breaker_finish t False ok b) =
    (if ok then cb_failures b else filter (\<lambda>f. t - failureWindow \<le> f) (cb_failures b) @ [t])"
  by (simp add: breaker_finish_def Let_def not_less)

lemma finish_open: "cb_open_until (breaker_finish t False ok b) =
    (if \<not> ok \<and> (3 \<le> Suc (cb_consecutive b) \<or> 5 \<le> length (cb_failures (breaker_finish t False ok b)))
     then Some (t + circuitOpenDuration) else cb_open_until b)"
  by (simp add: breaker_finish_def Let_def)

lemma replay_consecutive: "cb_consecutive (replay h) = trailing_failures h"
proof (induction h rule: rev_induct)
  case (snoc x h)
  then show ?case
    by (cases x) (simp add: finish_consecutive trailing_failures_def)
qed (simp add: trailing_failures_def breaker_zero_def)

lemma replay_failures:
  assumes "sorted (map fst h)" "\<And>t. t \<in> fst ` set h \<Longrightarrow> t \<le> now"
  shows "filter (\<lambda>f. now - failureWindow \<le> f) (cb_failures (replay h))
    = map fst (filter (\<lambda>(t, ok). \<not> ok \<and> now - failureWindow \<le> t) h)"
  using assms
proof (induction h rule: rev_induct)
  case (snoc x h)
  obtain t ok where x: "x = (t, ok)" by (cases x)
  have IH: "filter (\<lambda>f. now - failureWindow \<le> f) (cb_failures (replay h))
    = map fst (filter (\<lambda>(t, ok). \<not> ok \<and> now - failureWindow \<le> t) h)"
    using snoc by (auto simp: sorted_append)
  have "t \<le> now" using snoc.prems(2) [of t] x by simp
  then have "filter (\<lambda>f. now - failureWindow \<le> f) (filter (\<lambda>f. t - failureWindow \<le> f) fs)
      = filter (\<lambda>f. now - failureWindow \<le> f) fs" for fs
    unfolding filter_filter by (intro filter_cong) auto
  with IH show ?case by (simp add: x finish_failures)
qed (simp add: breaker_zero_def)

lemma replay_failures_length:
  assumes "sorted (map fst (h @ [(t, False)]))"
  shows "length (cb_failures (replay (h @ [(t, False)]))) = window_failures t (h @ [(t, False)])"
proof -
  have "filter (\<lambda>f. t - failureWindow \<le> f) (cb_failures (replay h))
      = map fst (filter (\<lambda>(u, ok). \<not> ok \<and> t - failureWindow \<le> u) h)"
    using assms by (intro replay_failures) (auto simp: sorted_append)
  then show ?thesis
    by (simp add: finish_failures window_failures_def failureWindow_def)
qed

lemma replay_open_iff:
  assumes "sorted (map fst h)"
  shows "cb_open_until (replay h) \<noteq> None \<longleftrightarrow> (\<exists>n \<le> length h. trips (take n h))"
  using assms
proof (induction h rule: rev_induct)
  case Nil
  then show ?case by (simp add: breaker_zero_def trips_def)
next
  case (snoc x h)
  obtain t ok where x: "x = (t, ok)" by (cases x)
  have IH: "cb_open_until (replay h) \<noteq> None \<longleftrightarrow> (\<exists>n \<le> length h. trips (take n h))"
    using snoc by (auto simp: sorted_append)
  have split: "(\<exists>n \<le> length (h @ [x]). trips (take n (h @ [x]))) \<longleftrightarrow>
      (\<exists>n \<le> length h. trips (take n h)) \<or> trips (h @ [x])"
    by (auto simp: le_Suc_eq)
  have trip: "trips (h @ [x]) \<longleftrightarrow> \<not> ok \<and>
      (3 \<le> Suc (cb_consecutive (replay h)) \<or> 5 \<le> length (cb_failures (breaker_finish t False ok (replay h))))"
    using replay_failures_length [of h t] snoc.prems
    by (cases ok) (auto simp: trips_def x trailing_failures_def replay_consecutive)
  have "cb_open_until (replay (h @ [x])) \<noteq> None \<longleftrightarrow> cb_open_until (replay h) \<noteq> None \<or> trips (h @ [x])"
    unfolding trip by (simp only: x replay_snoc finish_open split: if_split) blast
  with IH split show ?case by blast
qed

subsection \<open>Concurrent calls\<close>

text \<open>
  A call that passed \<open>begin\<close> carries its probe flag; \<open>Selecting\<close> is before the semaphore
  select, \<open>InFlight\<close> holds the slot.  Times are arbitrary, so the system also covers clocks
  that move between the steps of different calls in any order.
\<close>

datatype call_phase = Selecting bool | InFlight bool

record call_system =
  cs_breaker :: breaker
  cs_slot :: bool
  cs_calls :: "call_phase multiset"

inductive call_step :: "call_system \<Rightarrow> call_system \<Rightarrow> bool" where
  call_begin: "breaker_begin now (cs_breaker s) = ((probe, True), b) \<Longrightarrow>
     call_step s (s\<lparr>cs_breaker := b, cs_calls := add_mset (Selecting probe) (cs_calls s)\<rparr>)"
| call_acquire: "Selecting probe \<in># cs_calls s \<Longrightarrow> \<not> cs_slot s \<Longrightarrow>
     call_step s (s\<lparr>cs_slot := True,
       cs_calls := add_mset (InFlight probe) (cs_calls s - {#Selecting probe#})\<rparr>)"
| call_give_up: "Selecting probe \<in># cs_calls s \<Longrightarrow>
     call_step s (s\<lparr>cs_breaker := breaker_cancel probe (cs_breaker s),
       cs_calls := cs_calls s - {#Selecting probe#}\<rparr>)"
| call_finish: "InFlight probe \<in># cs_calls s \<Longrightarrow>
     call_step s (s\<lparr>cs_breaker := breaker_finish now probe success (cs_breaker s), cs_slot := False,
       cs_calls := cs_calls s - {#InFlight probe#}\<rparr>)"

inductive call_reach :: "call_system \<Rightarrow> bool" where
  calls_start: "call_reach \<lparr>cs_breaker = breaker_zero, cs_slot = False, cs_calls = {#}\<rparr>"
| calls_step: "call_reach s \<Longrightarrow> call_step s s' \<Longrightarrow> call_reach s'"

fun in_flight :: "call_phase \<Rightarrow> bool" where
  "in_flight (InFlight _) = True"
| "in_flight (Selecting _) = False"

fun phase_probe :: "call_phase \<Rightarrow> bool" where
  "phase_probe (InFlight p) = p"
| "phase_probe (Selecting p) = p"

definition slot_exact :: "call_system \<Rightarrow> bool" where
  "slot_exact s \<longleftrightarrow> size (filter_mset in_flight (cs_calls s)) = (if cs_slot s then 1 else 0)"

definition half_open_owned :: "call_system \<Rightarrow> bool" where
  "half_open_owned s \<longleftrightarrow> (cb_half_open (cs_breaker s) \<longrightarrow> (\<exists>c \<in># cs_calls s. phase_probe c))"

definition closed_below_trip :: "call_system \<Rightarrow> bool" where
  "closed_below_trip s \<longleftrightarrow> (cb_open_until (cs_breaker s) = None \<longrightarrow>
     cb_consecutive (cs_breaker s) < 3 \<and> length (cb_failures (cs_breaker s)) < 5 \<and> \<not> cb_half_open (cs_breaker s))"

definition call_inv :: "call_system \<Rightarrow> bool" where
  "call_inv s \<longleftrightarrow> slot_exact s \<and> half_open_owned s \<and> closed_below_trip s"

lemma slot_exact_step: "call_step s s' \<Longrightarrow> slot_exact s \<Longrightarrow> slot_exact s'"
  by (induction rule: call_step.induct)
    (auto simp: slot_exact_def size_Diff_singleton filter_diff_mset split: if_splits
      dest: multi_member_split)

lemma remove_nonprobe:
  assumes "\<exists>c \<in># M. phase_probe c" "\<not> phase_probe d"
  shows "\<exists>c \<in># M - {#d#}. phase_probe c"
proof -
  obtain c where "c \<in># M" "phase_probe c" using assms(1) by blast
  moreover have "c \<noteq> d" using assms(2) \<open>phase_probe c\<close> by auto
  ultimately show ?thesis by (auto simp: in_diff_count intro!: bexI [of _ c])
qed

lemma half_open_owned_step: "call_step s s' \<Longrightarrow> half_open_owned s \<Longrightarrow> half_open_owned s'"
proof (induction rule: call_step.induct)
  case (call_begin now s probe b)
  then show ?case
    by (auto simp: half_open_owned_def breaker_begin_def split: option.splits if_splits)
next
  case (call_acquire probe s)
  then show ?case
    using remove_nonprobe [of "cs_calls s" "Selecting probe"]
    by (cases probe) (auto simp: half_open_owned_def)
next
  case (call_give_up probe s)
  then show ?case
    using remove_nonprobe [of "cs_calls s" "Selecting probe"]
    by (cases probe) (auto simp: half_open_owned_def breaker_cancel_def)
next
  case (call_finish probe s now success)
  then show ?case
    using remove_nonprobe [of "cs_calls s" "InFlight probe"]
    by (cases probe) (auto simp: half_open_owned_def breaker_finish_def Let_def)
qed

lemma closed_below_trip_step: "call_step s s' \<Longrightarrow> closed_below_trip s \<Longrightarrow> closed_below_trip s'"
  by (induction rule: call_step.induct)
    (auto simp: closed_below_trip_def breaker_begin_def breaker_cancel_def breaker_finish_def Let_def
      split: option.splits if_splits)

lemma call_inv_step: "call_step s s' \<Longrightarrow> call_inv s \<Longrightarrow> call_inv s'"
  by (simp add: call_inv_def slot_exact_step half_open_owned_step closed_below_trip_step)

lemma call_reach_inv: "call_reach s \<Longrightarrow> call_inv s"
proof (induction rule: call_reach.induct)
  case calls_start
  show ?case
    by (simp add: call_inv_def slot_exact_def half_open_owned_def closed_below_trip_def breaker_zero_def)
next
  case (calls_step s s')
  then show ?case by (blast intro: call_inv_step)
qed

lemmas call_reach_invs = call_reach_inv [unfolded call_inv_def, THEN conjunct1]
  call_reach_inv [unfolded call_inv_def, THEN conjunct2, THEN conjunct1]
  call_reach_inv [unfolded call_inv_def, THEN conjunct2, THEN conjunct2]

text \<open>
  C22. The breaker trips exactly on the documented condition.  Over any history of ordinary
  call results in time order, it is open after the history if and only if, after some call
  of it, the last result was a failure and there were three failures in a row or five within
  the last 60 seconds (the successes in between notwithstanding).
\<close>
theorem circuit_trips_on_history:
  assumes "sorted (map fst h)"
  shows "breaker_state (fst (last h)) (replay h) \<noteq> CircuitClosed \<longleftrightarrow> (\<exists>n \<le> length h. trips (take n h))"
  using replay_open_iff [OF assms] by (auto simp: breaker_state_def split: option.splits)

theorem circuit_trips_on_history_witness:
  "breaker_state 4 (replay [(1, False), (2, True), (3, False), (4, False)]) = CircuitClosed
     \<and> breaker_state 5 (replay [(1, False), (2, True), (3, False), (4, False), (5, False)]) \<noteq> CircuitClosed"
proof
  have t: "\<not> trips (take n [(1, False), (2, True), (3, False), (4, False)])" if "n \<le> 4" for n
    using that by (auto simp: trips_def trailing_failures_def window_failures_def failureWindow_def numeral_eq_Suc le_Suc_eq)
  show "breaker_state 4 (replay [(1, False), (2, True), (3, False), (4, False)]) = CircuitClosed"
    using circuit_trips_on_history [of "[(1, False), (2, True), (3, False), (4, False)]"] t by auto
  have "trips (take 5 [(1, False), (2, True), (3, False), (4, False), (5, False)])"
    by (simp add: trips_def trailing_failures_def)
  then show "breaker_state 5 (replay [(1, False), (2, True), (3, False), (4, False), (5, False)]) \<noteq> CircuitClosed"
    using circuit_trips_on_history [of "[(1, False), (2, True), (3, False), (4, False), (5, False)]"] by fastforce
qed



end
