(* ===== verification/GoUrl.thy ===== *)
theory GoUrl
  imports GoStrings
begin

text \<open>
  \<open>net/url\<close> as the program's three URL checks use it: \<open>Parse\<close>, \<open>Hostname\<close>, \<open>Port\<close> and
  \<open>String\<close>, in the order of the standard library's own functions.  A URL is rejected with
  \<open>None\<close>.  The user information is kept only as a flag (every caller tests it against nil),
  and an address in brackets other than \<open>::1\<close> is rejected while parsing, where the library
  would accept further IPv6 addresses: every caller rejects those by their host name.
\<close>

record url =
  u_scheme :: bytes
  u_opaque :: bytes
  u_user :: bool
  u_host :: bytes
  u_path :: bytes
  u_raw_path :: bytes
  u_raw_query :: bytes
  u_force_query :: bool
  u_fragment :: bytes

definition url_zero :: url where
  "url_zero = \<lparr>u_scheme = [], u_opaque = [], u_user = False, u_host = [], u_path = [], u_raw_path = [],
     u_raw_query = [], u_force_query = False, u_fragment = []\<rparr>"

subsection \<open>Escaping\<close>

definition is_alpha :: "char \<Rightarrow> bool" where
  "is_alpha c = (CHR ''A'' \<le> c \<and> c \<le> CHR ''Z'' \<or> CHR ''a'' \<le> c \<and> c \<le> CHR ''z'')"

definition unreserved :: "char \<Rightarrow> bool" where
  "unreserved c = (is_alpha c \<or> is_digit c \<or> List.member ''-_.~'' c)"

text \<open>\<open>shouldEscape\<close> for the path and the host modes.\<close>

definition escape_in_path :: "char \<Rightarrow> bool" where
  "escape_in_path c = (\<not> (unreserved c \<or> List.member ''$&+,/:;=@'' c))"

definition escape_in_host :: "char \<Rightarrow> bool" where
  "escape_in_host c = (\<not> (unreserved c \<or> c = CHR 0x22 \<or> c = CHR 0x27 \<or> List.member ''!$&()*+,;=:[]<>'' c))"

definition unhex :: "char \<Rightarrow> nat option" where
  "unhex c =
     (if is_digit c then Some (digit_val c)
      else if CHR ''a'' \<le> c \<and> c \<le> CHR ''f'' then Some (of_char c - 87)
      else if CHR ''A'' \<le> c \<and> c \<le> CHR ''F'' then Some (of_char c - 55)
      else None)"

text \<open>
  \<open>unescape\<close>: the bytes of a component; in the host only \<open>%25\<close> and bytes above ASCII may be
  escaped, and an ASCII byte that needs escaping must not occur.
\<close>

fun unescape :: "bool \<Rightarrow> bytes \<Rightarrow> bytes option" where
  "unescape host [] = Some []"
| "unescape host (c # cs) =
     (if c = CHR ''%'' then
        (case cs of
           a # b # r \<Rightarrow>
             (case (unhex a, unhex b) of
                (Some x, Some y) \<Rightarrow>
                  if host \<and> x < 8 \<and> \<not> (a = CHR ''2'' \<and> b = CHR ''5'') then None
                  else map_option (\<lambda>t. char_of (16 * x + y) # t) (unescape host r)
              | _ \<Rightarrow> None)
         | _ \<Rightarrow> None)
      else if host \<and> c < CHR 0x80 \<and> escape_in_host c then None
      else map_option ((#) c) (unescape host cs))"

definition upper_hex :: "nat \<Rightarrow> char" where
  "upper_hex d = ''0123456789ABCDEF'' ! d"

definition escape :: "(char \<Rightarrow> bool) \<Rightarrow> bytes \<Rightarrow> bytes" where
  "escape should s =
     concat (map (\<lambda>c. if should c then [CHR ''%'', upper_hex (of_char c div 16), upper_hex (of_char c mod 16)] else [c]) s)"

subsection \<open>Parsing\<close>

text \<open>\<open>getScheme\<close>: \<open>None\<close> is the error of a leading colon; no scheme is the empty one.\<close>

fun get_scheme_from :: "bytes \<Rightarrow> bytes \<Rightarrow> bytes \<Rightarrow> (bytes \<times> bytes) option" where
  "get_scheme_from raw acc [] = Some ([], raw)"
| "get_scheme_from raw acc (c # cs) =
     (if is_alpha c then get_scheme_from raw (acc @ [c]) cs
      else if is_digit c \<or> List.member ''+-.'' c then
        (if acc = [] then Some ([], raw) else get_scheme_from raw (acc @ [c]) cs)
      else if c = CHR '':'' then (if acc = [] then None else Some (acc, cs))
      else Some ([], raw))"

definition valid_optional_port :: "bytes \<Rightarrow> bool" where
  "valid_optional_port p = (case p of [] \<Rightarrow> True | c # ds \<Rightarrow> c = CHR '':'' \<and> list_all is_digit ds)"

definition parse_host :: "bytes \<Rightarrow> bytes option" where
  "parse_host host =
     (case last_index_byte (CHR ''['') host of
        Some (Suc _) \<Rightarrow> None
      | Some 0 \<Rightarrow>
          (case last_index_byte (CHR '']'') host of
             None \<Rightarrow> None
           | Some close \<Rightarrow>
               if valid_optional_port (drop (Suc close) host) \<and> take (close - 1) (drop 1 host) = ''::1''
               then Some host else None)
      | None \<Rightarrow>
          (case index_byte (CHR '':'') host of
             Some i \<Rightarrow> if valid_optional_port (drop i host) then unescape True host else None
           | None \<Rightarrow> unescape True host))"

definition valid_userinfo :: "bytes \<Rightarrow> bool" where
  "valid_userinfo s = list_all (\<lambda>c. is_alpha c \<or> is_digit c \<or> c = CHR 0x27 \<or> List.member ''-._:~!$&()*+,;=%@'' c) s"

definition userinfo_ok :: "bytes \<Rightarrow> bool" where
  "userinfo_ok s =
     (valid_userinfo s \<and>
      (case index_byte (CHR '':'') s of
         None \<Rightarrow> unescape False s \<noteq> None
       | Some i \<Rightarrow> unescape False (take i s) \<noteq> None \<and> unescape False (drop (Suc i) s) \<noteq> None))"

text \<open>\<open>parseAuthority\<close>: whether there is user information, and the host.\<close>

definition parse_authority :: "bytes \<Rightarrow> (bool \<times> bytes) option" where
  "parse_authority a =
     (case last_index_byte (CHR ''@'') a of
        None \<Rightarrow> map_option (\<lambda>h. (False, h)) (parse_host a)
      | Some i \<Rightarrow>
          (case parse_host (drop (Suc i) a) of
             None \<Rightarrow> None
           | Some h \<Rightarrow> if userinfo_ok (take i a) then Some (True, h) else None))"

definition set_path :: "bytes \<Rightarrow> url \<Rightarrow> url option" where
  "set_path p u =
     map_option (\<lambda>path. u\<lparr>u_path := path, u_raw_path := (if p = escape escape_in_path path then [] else p)\<rparr>)
       (unescape False p)"

definition split_query :: "bytes \<Rightarrow> url \<Rightarrow> bytes \<times> url" where
  "split_query rest u =
     (if has_suffix ''?'' rest \<and> count_list rest (CHR ''?'') = 1
      then (take (length rest - 1) rest, u\<lparr>u_force_query := True\<rparr>)
      else (case index_byte (CHR ''?'') rest of
              None \<Rightarrow> (rest, u)
            | Some i \<Rightarrow> (take i rest, u\<lparr>u_raw_query := drop (Suc i) rest\<rparr>)))"

definition parse_no_frag :: "bytes \<Rightarrow> url option" where
  "parse_no_frag raw =
     (if list_ex (\<lambda>c. c < CHR 0x20 \<or> c = CHR 0x7F) raw then None
      else if raw = ''*'' then Some (url_zero\<lparr>u_path := ''*''\<rparr>)
      else
        (case get_scheme_from raw [] raw of
           None \<Rightarrow> None
         | Some (scheme, rest0) \<Rightarrow>
             (case split_query rest0 (url_zero\<lparr>u_scheme := to_lower scheme\<rparr>) of
                (rest, u) \<Rightarrow>
                  if \<not> has_prefix ''/'' rest then
                    (if u_scheme u \<noteq> [] then Some (u\<lparr>u_opaque := rest\<rparr>)
                     else if List.member (hd (split_byte (CHR ''/'') rest)) (CHR '':'') then None
                     else set_path rest u)
                  else if (u_scheme u \<noteq> [] \<or> \<not> has_prefix ''///'' rest) \<and> has_prefix ''//'' rest then
                    (let a = drop 2 rest;
                         n = (case index_byte (CHR ''/'') a of None \<Rightarrow> length a | Some i \<Rightarrow> i)
                     in case parse_authority (take n a) of
                          None \<Rightarrow> None
                        | Some (user, host) \<Rightarrow> set_path (drop n a) (u\<lparr>u_user := user, u_host := host\<rparr>))
                  else set_path rest u)))"

definition url_parse :: "bytes \<Rightarrow> url option" where
  "url_parse raw =
     (case index_byte (CHR ''#'') raw of
        None \<Rightarrow> parse_no_frag raw
      | Some i \<Rightarrow>
          (case parse_no_frag (take i raw) of
             None \<Rightarrow> None
           | Some u \<Rightarrow>
               if drop (Suc i) raw = [] then Some u
               else map_option (\<lambda>f. u\<lparr>u_fragment := f\<rparr>) (unescape False (drop (Suc i) raw))))"

subsection \<open>Parts of a parsed URL\<close>

definition split_host_port :: "bytes \<Rightarrow> bytes \<times> bytes" where
  "split_host_port hp =
     (let (host, port) =
            (case last_index_byte (CHR '':'') hp of
               Some i \<Rightarrow> if valid_optional_port (drop i hp) then (take i hp, drop (Suc i) hp) else (hp, [])
             | None \<Rightarrow> (hp, []))
      in (if has_prefix ''['' host \<and> has_suffix '']'' host then take (length host - 2) (drop 1 host) else host, port))"

definition Hostname :: "url \<Rightarrow> bytes" where "Hostname u = fst (split_host_port (u_host u))"

definition Port :: "url \<Rightarrow> bytes" where "Port u = snd (split_host_port (u_host u))"

text \<open>\<open>URL.String\<close> for the URLs it is called on: no opaque part, no user, no fragment.\<close>

definition url_string :: "url \<Rightarrow> bytes" where
  "url_string u =
     (if u_scheme u \<noteq> [] then u_scheme u @ '':'' else [])
     @ (if u_host u \<noteq> [] then ''//'' @ escape escape_in_host (u_host u) else [])
     @ escape escape_in_path (u_path u)
     @ (if u_force_query u \<or> u_raw_query u \<noteq> [] then ''?'' @ u_raw_query u else [])"

subsection \<open>Loopback authorities\<close>

text \<open>The host strings that name a loopback literal: with or without a port.\<close>

definition loopback_hosts :: "bytes list" where
  "loopback_hosts = [''127.0.0.1'', ''[::1]'']"

definition loopback_authority :: "bytes \<Rightarrow> bool" where
  "loopback_authority a \<longleftrightarrow>
     (\<exists>h \<in> set loopback_hosts. a = h \<or> (\<exists>ds. list_all is_digit ds \<and> a = h @ CHR '':'' # ds))"

lemma digit_facts:
  "is_digit c \<Longrightarrow> c \<noteq> CHR '':'' \<and> c \<noteq> CHR ''['' \<and> c \<noteq> CHR '']'' \<and> c \<noteq> CHR ''@'' \<and> c \<noteq> CHR ''/''
     \<and> c \<noteq> CHR ''?'' \<and> c \<noteq> CHR ''#'' \<and> c \<noteq> CHR ''%'' \<and> \<not> c < CHR 0x20 \<and> c \<noteq> CHR 0x7F \<and> \<not> escape_in_host c"
  by (auto simp: is_digit_def less_eq_char_def less_char_def escape_in_host_def unreserved_def)

lemma digits_not_mem:
  assumes "list_all is_digit ds"
  shows "CHR '':'' \<notin> set ds" "CHR ''['' \<notin> set ds" "CHR '']'' \<notin> set ds" "CHR ''@'' \<notin> set ds"
    "CHR ''/'' \<notin> set ds" "CHR ''?'' \<notin> set ds" "CHR ''#'' \<notin> set ds"
  using assms digit_facts by (auto simp: list_all_iff)

lemma unescape_plain:
  "(\<And>c. c \<in> set s \<Longrightarrow> c \<noteq> CHR ''%'' \<and> \<not> escape_in_host c) \<Longrightarrow> unescape host s = Some s"
  by (induction s) auto

lemma last_index_byte_append:
  "c \<notin> set ys \<Longrightarrow> last_index_byte c (xs @ c # ys) = Some (length xs)"
proof (induction xs)
  case Nil
  then show ?case by (auto simp: last_index_byte_None split: option.splits)
qed auto

lemma index_byte_append: "c \<notin> set xs \<Longrightarrow> index_byte c (xs @ ys) = map_option ((+) (length xs)) (index_byte c ys)"
  by (cases "index_byte c ys"; induction xs) auto

lemma split_host_port_loopback:
  assumes "list_all is_digit ds" "h \<in> set loopback_hosts"
  shows "split_host_port (h @ CHR '':'' # ds) = (if h = ''[::1]'' then ''::1'' else ''127.0.0.1'', ds)"
    and "split_host_port h = (if h = ''[::1]'' then ''::1'' else ''127.0.0.1'', [])"
  using assms last_index_byte_append [OF digits_not_mem(1), of ds h]
  by (auto simp: split_host_port_def loopback_hosts_def valid_optional_port_def has_suffix_def is_digit_def
      less_eq_char_def)

subsection \<open>What the host parser yields for a loopback name\<close>

lemma unescape_host_mem:
  "unescape True a = Some t \<Longrightarrow> c \<in> set t \<Longrightarrow> c \<in> {CHR '':'', CHR ''[''} \<Longrightarrow> c \<in> set a"
proof (induction True a arbitrary: t rule: unescape.induct)
  case (2 c' cs)
  have esc: "char_of (16 * x + y) \<notin> {CHR '':'', CHR ''[''}"
    if "\<not> (x < 8 \<and> \<not> (a = CHR ''2'' \<and> b = CHR ''5''))" "unhex a = Some x" "unhex b = Some y" for a b and x y :: nat
  proof -
    have xy: "x < 16" "y < 16" using that(2,3)
      by (auto simp: unhex_def digit_val_def is_digit_def less_eq_char_def split: if_splits)
    have "a = CHR ''2'' \<and> b = CHR ''5'' \<Longrightarrow> char_of (16 * x + y) = CHR ''%''" using that(2,3)
      by (auto simp: unhex_def digit_val_def is_digit_def less_eq_char_def char_of_def bit_0)
    moreover have "char_of (16 * x + y) \<notin> {CHR '':'', CHR ''[''}" if "\<not> x < 8"
    proof
      have v: "of_char (char_of (16 * x + y) :: char) = 16 * x + y" using xy by simp
      assume "char_of (16 * x + y) \<in> {CHR '':'', CHR ''[''}"
      then have "16 * x + y = of_char (CHR '':'') \<or> 16 * x + y = of_char (CHR ''['')"
        using v by (metis insertE singletonD)
      with that show False by auto
    qed
    ultimately show ?thesis using that(1) by (cases "x < 8") (simp, blast)
  qed
  show ?case
  proof (cases "c' = CHR ''%''")
    case True
    with 2(3) obtain a b r x y t' where cs: "cs = a # b # r" and h: "unhex a = Some x" "unhex b = Some y"
      "\<not> (x < 8 \<and> \<not> (a = CHR ''2'' \<and> b = CHR ''5''))" "unescape True r = Some t'"
      "t = char_of (16 * x + y) # t'"
      by (auto split: list.splits option.splits if_splits)
    have "c \<noteq> char_of (16 * x + y)" using esc [OF h(3,1,2)] 2(5) by metis
    then have "c \<in> set t'" using 2(4) h(5) by simp
    moreover have "\<not> (True \<and> x < 8 \<and> \<not> (a = CHR ''2'' \<and> b = CHR ''5''))" using h(3) by blast
    ultimately have "c \<in> set r"
      using 2(1) [OF True cs refl refl h(1) h(2) _ h(4)] 2(5) by blast
    then show ?thesis using cs by simp
  next
    case False
    then show ?thesis using 2 by (auto split: if_splits)
  qed
qed simp

lemma unescape_host_port:
  assumes "list_all is_digit ds"
  shows "unescape True (p @ CHR '':'' # ds) = map_option (\<lambda>t. t @ CHR '':'' # ds) (unescape True p)"
proof (induction True p rule: unescape.induct)
  case 1
  have "unescape True (CHR '':'' # ds) = Some (CHR '':'' # ds)"
    using assms digit_facts
    by (intro unescape_plain) (auto simp: list_all_iff escape_in_host_def unreserved_def)
  then show ?case by simp
next
  case (2 c cs)
  have colon: "unhex (CHR '':'') = None" by (simp add: unhex_def is_digit_def less_eq_char_def)
  show ?case
  proof (cases "c = CHR ''%''")
    case True
    show ?thesis
    proof (cases cs)
      case Nil
      with True colon show ?thesis by (cases ds) auto
    next
      case (Cons a as)
      show ?thesis
      proof (cases as)
        case Nil
        with True Cons colon show ?thesis by (auto split: option.splits)
      next
        case (Cons b r)
        with True \<open>cs = a # as\<close> 2(1) show ?thesis
          by (auto simp: option.map_comp comp_def split: option.splits)
      qed
    qed
  next
    case False
    with 2(2) show ?thesis by (auto simp: option.map_comp comp_def)
  qed
qed

lemma valid_optional_port_cases:
  "valid_optional_port p \<Longrightarrow> p = [] \<or> (\<exists>ds. p = CHR '':'' # ds \<and> list_all is_digit ds)"
  by (auto simp: valid_optional_port_def split: list.splits)

lemma parse_host_loopback:
  assumes "parse_host a = Some h" "fst (split_host_port h) \<in> {''127.0.0.1'', ''::1''}"
  shows "loopback_authority h"
proof (cases "last_index_byte (CHR ''['') a")
  case (Some i)
  with assms(1) obtain close where c: "last_index_byte (CHR '']'') a = Some close" "i = 0" "h = a"
    "valid_optional_port (drop (Suc close) a)" "take (close - 1) (drop 1 a) = ''::1''"
    by (auto simp: parse_host_def split: nat.splits option.splits if_splits)
  have a0: "a \<noteq> []" "a ! 0 = CHR ''[''" using last_index_byte_Some [OF Some] c(2) by auto
  have cl: "close < length a" "a ! close = CHR '']''" using last_index_byte_Some [OF c(1)] by auto
  have "close \<noteq> 0" using c(5) by (cases close) auto
  have "a = take close a @ a ! close # drop (Suc close) a" using cl(1) by (rule id_take_nth_drop)
  moreover have "take close a = CHR ''['' # take (close - 1) (drop 1 a)"
    using a0 \<open>close \<noteq> 0\<close> by (cases a; cases close) auto
  ultimately have "a = ''[::1]'' @ drop (Suc close) a" using c(5) cl(2) by simp
  then show ?thesis
    using valid_optional_port_cases [OF c(4)] c(3)
    unfolding loopback_authority_def loopback_hosts_def by (metis append_Nil2 list.set_intros)
next
  case None
  then have nb: "CHR ''['' \<notin> set a" by (simp add: last_index_byte_None)
  show ?thesis
  proof (cases "index_byte (CHR '':'') a")
    case idx: None
    with None assms(1) have u: "unescape True a = Some h" by (simp add: parse_host_def)
    have "CHR '':'' \<notin> set a" using idx by (simp add: index_byte_None)
    with unescape_host_mem [OF u] nb have h: "CHR '':'' \<notin> set h" "CHR ''['' \<notin> set h" by blast+
    then have "last_index_byte (CHR '':'') h = None" by (simp add: last_index_byte_None)
    with h(2) have "split_host_port h = (h, [])"
      by (cases h) (auto simp: split_host_port_def)
    with assms(2) h(1) show ?thesis by (auto simp: loopback_authority_def loopback_hosts_def)
  next
    case idx: (Some i)
    with None assms(1) have v: "valid_optional_port (drop i a)" and u: "unescape True a = Some h"
      by (auto simp: parse_host_def split: if_splits)
    note ib = index_byte_Some [OF idx] index_byte_split [OF idx]
    obtain ds where ds: "list_all is_digit ds" "drop i a = CHR '':'' # ds"
      using valid_optional_port_cases [OF v] ib(1) by fastforce
    then have a: "a = take i a @ CHR '':'' # ds" by (metis append_take_drop_id)
    then obtain t where t: "unescape True (take i a) = Some t" "h = t @ CHR '':'' # ds"
      using u unescape_host_port [OF ds(1), of "take i a"] by (metis (no_types, lifting) map_option_eq_Some)
    have nt: "CHR '':'' \<notin> set t" "CHR ''['' \<notin> set t"
      using unescape_host_mem [OF t(1)] ib(1) nb by (auto dest: in_set_takeD)
    have "last_index_byte (CHR '':'') h = Some (length t)"
      unfolding t(2) by (rule last_index_byte_append) (rule digits_not_mem(1) [OF ds(1)])
    then have "split_host_port h = (t, ds)"
      using nt(2) ds(1) t(2) by (cases t) (auto simp: split_host_port_def valid_optional_port_def)
    with assms(2) nt(1) t(2) ds(1) show ?thesis
      by (auto simp: loopback_authority_def loopback_hosts_def)
  qed
qed

text \<open>The URL of a loopback authority parses to itself.\<close>

definition loopback_url :: "bytes \<Rightarrow> url" where
  "loopback_url h = url_zero\<lparr>u_scheme := ''http'', u_host := h\<rparr>"

lemma loopback_authorityE:
  assumes "loopback_authority h"
  obtains g ds where "g \<in> set loopback_hosts" "list_all is_digit ds" "h = g \<or> h = g @ CHR '':'' # ds"
  using assms that(1) [of _ "[]"] that(1) unfolding loopback_authority_def by fastforce

lemma loopback_authority_chars:
  assumes "loopback_authority h"
  shows "CHR ''/'' \<notin> set h" "CHR ''?'' \<notin> set h" "CHR ''#'' \<notin> set h" "CHR ''@'' \<notin> set h"
    "\<not> list_ex (\<lambda>c. c < CHR 0x20 \<or> c = CHR 0x7F) h" "h \<noteq> []" "escape escape_in_host h = h"
proof -
  have base: "g \<in> set loopback_hosts \<Longrightarrow> CHR ''/'' \<notin> set g \<and> CHR ''?'' \<notin> set g \<and> CHR ''#'' \<notin> set g \<and> CHR ''@'' \<notin> set g
     \<and> \<not> list_ex (\<lambda>c. c < CHR 0x20 \<or> c = CHR 0x7F) g \<and> g \<noteq> [] \<and> escape escape_in_host g = g" for g
    by (auto simp: loopback_hosts_def less_char_def escape_def escape_in_host_def unreserved_def is_digit_def less_eq_char_def)
  have dig: "escape escape_in_host ds = ds \<and> \<not> list_ex (\<lambda>c. c < CHR 0x20 \<or> c = CHR 0x7F) ds"
    if "list_all is_digit ds" for ds
    using that digit_facts by (induction ds) (auto simp: escape_def)
  have app: "escape f (xs @ ys) = escape f xs @ escape f ys" for f xs ys by (simp add: escape_def)
  have colon: "escape escape_in_host '':'' = '':''" "\<not> CHR '':'' < CHR 0x20"
    by (simp_all add: escape_def escape_in_host_def unreserved_def less_char_def)
  define bad where "bad s \<longleftrightarrow> list_ex (\<lambda>c. c < CHR 0x20 \<or> c = CHR 0x7F) s" for s
  have bad_app: "bad (xs @ ys) \<longleftrightarrow> bad xs \<or> bad ys" for xs ys by (simp add: bad_def)
  obtain g ds where g: "g \<in> set loopback_hosts" and d: "list_all is_digit ds" and h: "h = g \<or> h = g @ '':'' @ ds"
    by (rule loopback_authorityE [OF assms]) simp
  have "\<not> bad g" "\<not> bad ds" "\<not> bad '':''" using base [OF g] dig [OF d] colon by (auto simp: bad_def)
  then have "\<not> bad (g @ '':'' @ ds)" "\<not> bad g" using bad_app by blast+
  then have "\<not> bad h" using h by blast
  then show "\<not> list_ex (\<lambda>c. c < CHR 0x20 \<or> c = CHR 0x7F) h" unfolding bad_def .
  have "escape escape_in_host (g @ '':'' @ ds) = g @ '':'' @ ds"
    using base [OF g] dig [OF d] colon(1) unfolding app by simp
  then show "escape escape_in_host h = h" using h base [OF g] by blast
  show "CHR ''/'' \<notin> set h" "CHR ''?'' \<notin> set h" "CHR ''#'' \<notin> set h" "CHR ''@'' \<notin> set h" "h \<noteq> []"
    using h base [OF g] digits_not_mem [OF d] by (elim disjE; simp)+
qed

lemma parse_host_loopback_authority:
  assumes "loopback_authority h"
  shows "parse_host h = Some h"
proof -
  obtain g ds where g: "g \<in> set loopback_hosts" and d: "list_all is_digit ds" and h: "h = g \<or> h = g @ CHR '':'' # ds"
    using assms by (rule loopback_authorityE)
  have lit: "unescape True ''127.0.0.1'' = Some ''127.0.0.1''"
    by code_simp
  note nb = digits_not_mem [OF d]
  consider "g = ''127.0.0.1''" | "g = ''[::1]''" using g by (auto simp: loopback_hosts_def)
  then show ?thesis
  proof cases
    case 1
    have "last_index_byte (CHR ''['') h = None" using 1 h nb by (auto simp: last_index_byte_None)
    moreover have "index_byte (CHR '':'') ''127.0.0.1'' = None" by simp
    ultimately show ?thesis
      using 1 h d lit unescape_host_port [OF d, of "''127.0.0.1''"]
      by (auto simp: parse_host_def valid_optional_port_def simp del: unescape.simps)
  next
    case 2
    have "last_index_byte (CHR ''['') h = Some 0" "last_index_byte (CHR '']'') h = Some 4"
      using 2 h nb by (auto simp: last_index_byte_None eval_nat_numeral split: option.splits)
    then show ?thesis
      using 2 h d by (auto simp: parse_host_def valid_optional_port_def eval_nat_numeral)
  qed
qed

lemma set_path_empty [simp]: "set_path [] u = Some (u\<lparr>u_path := [], u_raw_path := []\<rparr>)"
  by (simp add: set_path_def escape_def)

lemma url_parse_loopback:
  assumes "loopback_authority h"
  shows "url_parse (''http://'' @ h) = Some (loopback_url h)"
proof -
  note ch = loopback_authority_chars [OF assms]
  have frag: "index_byte (CHR ''#'') (''http://'' @ h) = None"
    using ch(3) by (simp add: index_byte_None)
  have sch: "get_scheme_from (''http://'' @ h) [] (''http://'' @ h) = Some (''http'', ''//'' @ h)"
    by (simp add: is_alpha_def less_eq_char_def is_digit_def)
  have low: "to_lower ''http'' = ''http''" by (simp add: lower_byte_def less_eq_char_def)
  have q: "split_query (''//'' @ h) u = (''//'' @ h, u)" for u
  proof -
    have "index_byte (CHR ''?'') h = None" using ch(2) by (simp add: index_byte_None)
    then show ?thesis using ch(2) by (simp add: split_query_def)
  qed
  have slash: "index_byte (CHR ''/'') h = None" using ch(1) by (simp add: index_byte_None)
  have auth: "parse_authority h = Some (False, h)"
  proof -
    have "last_index_byte (CHR ''@'') h = None" using ch(4) by (simp add: last_index_byte_None)
    then show ?thesis using parse_host_loopback_authority [OF assms] by (simp add: parse_authority_def)
  qed
  have ctl: "\<not> list_ex (\<lambda>c. c < CHR 0x20 \<or> c = CHR 0x7F) (''http://'' @ h)"
    using ch(5) by (simp add: less_char_def)
  show ?thesis
    unfolding url_parse_def frag option.case parse_no_frag_def if_not_P [OF ctl] sch low q prod.case
    using slash auth by (simp add: loopback_url_def url_zero_def)
qed

lemma url_string_loopback: "loopback_authority h \<Longrightarrow> url_string (loopback_url h) = ''http://'' @ h"
  by (simp add: url_string_def loopback_url_def url_zero_def loopback_authority_chars escape_def [of escape_in_path])

end
