(* ===== verification/Endpoint.thy ===== *)
theory Endpoint
  imports GoUrl
begin

text \<open>
  The three checks that keep the program on the loopback interface: \<open>normalizeHeadroomURL\<close>
  (\<open>internal/config/config.go\<close>), \<open>fixedEndpoint\<close> (\<open>internal/headroom/client.go\<close>) and
  \<open>managementBaseURL\<close> (\<open>tools/update-verifier/verifier/client.go\<close>).
\<close>

datatype url_error = BlankURL | InvalidURL | NotHTTP | UserInfo | HasQuery | HasFragment | HasPath
  | NotLoopback | BadPort

definition headroomCompressPath :: bytes where "headroomCompressPath = ''/v1/compress''"

definition port_in_range :: "bytes \<Rightarrow> bool" where
  "port_in_range port = (case parse_int port of None \<Rightarrow> False | Some v \<Rightarrow> \<not> (v < 1 \<or> v > 65535))"

definition normalizeHeadroomURL :: "bytes \<Rightarrow> url_error + bytes" where
  "normalizeHeadroomURL raw =
     (if raw = [] \<or> trim_space raw \<noteq> raw then Inl BlankURL
      else (case url_parse raw of
        None \<Rightarrow> Inl InvalidURL
      | Some parsed \<Rightarrow>
          if u_scheme parsed \<noteq> ''http'' \<or> u_opaque parsed \<noteq> [] then Inl NotHTTP
          else if u_user parsed then Inl UserInfo
          else if u_raw_query parsed \<noteq> [] \<or> u_force_query parsed then Inl HasQuery
          else if u_fragment parsed \<noteq> [] then Inl HasFragment
          else if u_path parsed \<noteq> [] \<and> u_path parsed \<noteq> ''/'' \<or> u_raw_path parsed \<noteq> [] then Inl HasPath
          else if Hostname parsed \<noteq> ''127.0.0.1'' \<and> Hostname parsed \<noteq> ''::1'' then Inl NotLoopback
          else if Port parsed \<noteq> [] \<and> \<not> port_in_range (Port parsed) then Inl BadPort
          else Inr (url_string (parsed\<lparr>u_path := [], u_raw_path := []\<rparr>))))"

definition fixedEndpoint :: "bytes \<Rightarrow> url_error + url" where
  "fixedEndpoint raw =
     (if raw = [] \<or> trim_space raw \<noteq> raw then Inl BlankURL
      else (case url_parse raw of
        None \<Rightarrow> Inl InvalidURL
      | Some parsed \<Rightarrow>
          if u_scheme parsed \<noteq> ''http'' \<or> u_opaque parsed \<noteq> [] \<or> u_host parsed = [] then Inl NotHTTP
          else if u_user parsed \<or> u_raw_query parsed \<noteq> [] \<or> u_force_query parsed \<or> u_fragment parsed \<noteq> []
            then Inl HasQuery
          else if (u_path parsed \<noteq> [] \<and> u_path parsed \<noteq> ''/'') \<or> u_raw_path parsed \<noteq> [] then Inl HasPath
          else if Hostname parsed \<noteq> ''127.0.0.1'' \<and> Hostname parsed \<noteq> ''::1'' then Inl NotLoopback
          else if Port parsed \<noteq> [] \<and> \<not> port_in_range (Port parsed) then Inl BadPort
          else Inr (parsed\<lparr>u_path := headroomCompressPath, u_raw_path := []\<rparr>)))"

text \<open>\<open>Config.HeadroomEndpoint\<close> of a base URL.\<close>

definition headroom_endpoint :: "bytes \<Rightarrow> bytes" where
  "headroom_endpoint base = trim_suffix ''/'' base @ headroomCompressPath"

definition managementBaseURL :: "bytes \<Rightarrow> bytes option" where
  "managementBaseURL value =
     (case url_parse (trim_space value) of
        None \<Rightarrow> None
      | Some parsed \<Rightarrow>
          if u_scheme parsed \<noteq> ''http'' \<or> u_user parsed \<or> u_raw_query parsed \<noteq> [] \<or> u_fragment parsed \<noteq> []
             \<or> (u_path parsed \<noteq> [] \<and> u_path parsed \<noteq> ''/'') \<or> Port parsed = []
          then None
          else if Hostname parsed \<noteq> ''127.0.0.1'' \<and> Hostname parsed \<noteq> ''::1'' then None
          else Some (trim_suffix ''/'' (url_string (parsed\<lparr>u_path := []\<rparr>))))"

subsection \<open>What a parsed URL with a loopback host looks like\<close>

definition parsed_host :: "url \<Rightarrow> bool" where
  "parsed_host u \<longleftrightarrow> u_host u = [] \<or> (\<exists>a. parse_host a = Some (u_host u))"

lemma set_path_host [simp]: "set_path p u = Some v \<Longrightarrow> u_host v = u_host u"
  by (auto simp: set_path_def)

lemma split_query_host: "split_query r u = (rest, v) \<Longrightarrow> u_host v = u_host u"
  by (auto simp: split_query_def split: if_splits option.splits)

lemma parse_authority_host: "parse_authority a = Some (usr, h) \<Longrightarrow> \<exists>b. parse_host b = Some h"
  by (auto simp: parse_authority_def split: option.splits if_splits)

lemma parse_no_frag_host: "parse_no_frag raw = Some u \<Longrightarrow> parsed_host u"
  by (auto simp: parse_no_frag_def parsed_host_def url_zero_def Let_def
      dest!: split_query_host set_path_host parse_authority_host
      split: if_splits option.splits prod.splits)

lemma url_parse_host: "url_parse raw = Some u \<Longrightarrow> parsed_host u"
  by (auto simp: url_parse_def parsed_host_def split: option.splits if_splits
      dest!: parse_no_frag_host)

lemma url_parse_loopback_host:
  assumes "url_parse raw = Some u" "Hostname u = ''127.0.0.1'' \<or> Hostname u = ''::1''"
  shows "loopback_authority (u_host u)"
proof -
  have "u_host u \<noteq> []"
    using assms(2) by (auto simp: Hostname_def split_host_port_def)
  then obtain a where "parse_host a = Some (u_host u)"
    using url_parse_host [OF assms(1)] by (auto simp: parsed_host_def)
  then show ?thesis
    using parse_host_loopback assms(2) by (auto simp: Hostname_def)
qed

lemma url_string_http:
  "u_scheme u = ''http'' \<Longrightarrow> loopback_authority (u_host u) \<Longrightarrow> u_path u = [] \<Longrightarrow>
   url_string u = ''http://'' @ u_host u @ (if u_force_query u \<or> u_raw_query u \<noteq> [] then ''?'' @ u_raw_query u else [])"
  by (simp add: url_string_def loopback_authority_chars escape_def [of escape_in_path])

subsection \<open>White space around a loopback URL\<close>

lemma space_width_plain: "c < CHR 0x80 \<Longrightarrow> \<not> ascii_space c \<Longrightarrow> space_width ws (c # cs) = 0"
  by simp

lemma trim_space_plain:
  assumes "a < CHR 0x80" "\<not> ascii_space a" "z < CHR 0x80" "\<not> ascii_space z" "s = a # t" "s = u @ [z]"
  shows "trim_space s = s"
proof -
  have "trim_space_left s = s"
    using assms(1,2) by (simp add: trim_space_left_def assms(5) trim_lead.simps [of _ "a # t"])
  moreover have "rev s = z # rev u" using assms(6) by simp
  then have "trim_lead ws (rev s) = rev s" for ws
    using assms(3,4) by (simp add: trim_lead.simps [of ws])
  ultimately show ?thesis by (simp add: trim_space_def trim_space_right_def)
qed

lemma loopback_last:
  assumes "loopback_authority h"
  shows "\<exists>u z. h = u @ [z] \<and> z < CHR 0x80 \<and> \<not> ascii_space z \<and> z \<noteq> CHR ''/''"
proof -
  obtain g ds where g: "g \<in> set loopback_hosts" and d: "list_all is_digit ds" and h: "h = g \<or> h = g @ CHR '':'' # ds"
    using assms by (rule loopback_authorityE)
  have z: "z < CHR 0x80 \<and> \<not> ascii_space z \<and> z \<noteq> CHR ''/''" if "is_digit z \<or> z = CHR '']'' \<or> z = CHR '':''" for z
    using that by (auto simp: is_digit_def ascii_space_def less_eq_char_def less_char_def)
  have base: "\<exists>u z. g = u @ [z] \<and> (is_digit z \<or> z = CHR '']'')"
    using g by (auto simp: loopback_hosts_def is_digit_def less_eq_char_def
        intro: exI [of _ "''127.0.0.''"] exI [of _ "''[::1''"])
  show ?thesis
  proof (cases "h = g")
    case True
    with base z show ?thesis by blast
  next
    case False
    with h have h': "h = g @ CHR '':'' # ds" by blast
    show ?thesis
    proof (cases ds rule: rev_cases)
      case Nil
      with h' z show ?thesis by blast
    next
      case (snoc ys y)
      then have "h = (g @ CHR '':'' # ys) @ [y]" "is_digit y" using h' d by auto
      with z show ?thesis by blast
    qed
  qed
qed

lemma trim_space_loopback: "loopback_authority h \<Longrightarrow> trim_space (''http://'' @ h) = ''http://'' @ h"
proof -
  assume "loopback_authority h"
  then obtain u z where h: "h = u @ [z]" "z < CHR 0x80" "\<not> ascii_space z"
    using loopback_last by blast
  show ?thesis
    by (rule trim_space_plain [of "CHR ''h''" z _ "''ttp://'' @ h" "''http://'' @ u"])
      (use h in \<open>simp_all add: ascii_space_def less_char_def\<close>)
qed

subsection \<open>The accepted URLs\<close>

lemma loopback_url_fields [simp]:
  "u_scheme (loopback_url h) = ''http''" "u_opaque (loopback_url h) = []" "\<not> u_user (loopback_url h)"
  "u_host (loopback_url h) = h" "u_path (loopback_url h) = []" "u_raw_path (loopback_url h) = []"
  "u_raw_query (loopback_url h) = []" "\<not> u_force_query (loopback_url h)" "u_fragment (loopback_url h) = []"
  by (simp_all add: loopback_url_def url_zero_def)

lemma normalize_accepts:
  assumes "normalizeHeadroomURL raw = Inr u"
  shows "\<exists>h. loopback_authority h \<and> u = ''http://'' @ h
     \<and> (fst (split_host_port h) = ''127.0.0.1'' \<or> fst (split_host_port h) = ''::1'')
     \<and> (snd (split_host_port h) = [] \<or> port_in_range (snd (split_host_port h)))"
proof -
  obtain p where p: "url_parse raw = Some p" "u_scheme p = ''http''" "u_raw_query p = []" "\<not> u_force_query p"
      "Hostname p = ''127.0.0.1'' \<or> Hostname p = ''::1''" "Port p = [] \<or> port_in_range (Port p)"
      "u = url_string (p\<lparr>u_path := [], u_raw_path := []\<rparr>)"
    using assms by (auto simp: normalizeHeadroomURL_def split: if_splits option.splits)
  have h: "loopback_authority (u_host p)" by (rule url_parse_loopback_host [OF p(1,5)])
  then have "u = ''http://'' @ u_host p"
    using url_string_http [of "p\<lparr>u_path := [], u_raw_path := []\<rparr>"] p by simp
  with h p(5,6) show ?thesis by (auto simp: Hostname_def Port_def)
qed

lemma normalize_loopback:
  assumes "loopback_authority h"
    and "fst (split_host_port h) = ''127.0.0.1'' \<or> fst (split_host_port h) = ''::1''"
    and "snd (split_host_port h) = [] \<or> port_in_range (snd (split_host_port h))"
  shows "normalizeHeadroomURL (''http://'' @ h) = Inr (''http://'' @ h)"
    and "fixedEndpoint (''http://'' @ h) = Inr ((loopback_url h)\<lparr>u_path := headroomCompressPath\<rparr>)"
  using assms url_parse_loopback [OF assms(1)] trim_space_loopback [OF assms(1)]
    url_string_loopback [OF assms(1)] loopback_authority_chars(6) [OF assms(1)]
  by (simp_all add: normalizeHeadroomURL_def fixedEndpoint_def Hostname_def Port_def
      loopback_url_def url_zero_def)

lemma endpoint_string:
  assumes "loopback_authority h"
  shows "url_string ((loopback_url h)\<lparr>u_path := headroomCompressPath\<rparr>) = headroom_endpoint (''http://'' @ h)"
proof -
  obtain u z where h: "h = u @ [z]" "z \<noteq> CHR ''/''" using loopback_last [OF assms] by blast
  then have "trim_suffix ''/'' (''http://'' @ h) = ''http://'' @ h"
    by (simp add: trim_suffix_def has_suffix_def)
  moreover have "escape escape_in_path headroomCompressPath = headroomCompressPath" by code_simp
  ultimately show ?thesis
    using loopback_authority_chars(6,7) [OF assms]
    by (simp add: url_string_def headroom_endpoint_def)
qed

text \<open>
  C25. The Headroom URL never leaves the loopback interface.  Whatever text the configuration
  gives, an accepted URL is canonical: scheme http, a literal loopback host with at most a port
  between 1 and 65535, no path, query or user; normalising it again changes nothing; and the
  client built from it posts to exactly the endpoint the configuration advertises.
\<close>
theorem headroom_url_loopback_only:
  assumes "normalizeHeadroomURL raw = Inr u"
  shows "(\<exists>h. loopback_authority h \<and> u = ''http://'' @ h
       \<and> (snd (split_host_port h) = [] \<or> port_in_range (snd (split_host_port h))))
     \<and> normalizeHeadroomURL u = Inr u
     \<and> (\<exists>e. fixedEndpoint u = Inr e \<and> url_string e = headroom_endpoint u)"
proof -
  obtain h where h: "loopback_authority h" "u = ''http://'' @ h"
      "fst (split_host_port h) = ''127.0.0.1'' \<or> fst (split_host_port h) = ''::1''"
      "snd (split_host_port h) = [] \<or> port_in_range (snd (split_host_port h))"
    using normalize_accepts [OF assms] by blast
  show ?thesis
    using h normalize_loopback [OF h(1,3,4)] endpoint_string [OF h(1)] by auto
qed

theorem headroom_url_loopback_only_witness:
  "normalizeHeadroomURL ''http://[::1]:8787'' = Inr ''http://[::1]:8787''
     \<and> (\<exists>e. fixedEndpoint ''http://[::1]:8787'' = Inr e \<and> url_string e = ''http://[::1]:8787/v1/compress'')"
proof -
  have a: "loopback_authority ''[::1]:8787''"
    unfolding loopback_authority_def loopback_hosts_def
    by (rule bexI [of _ "''[::1]''"]) (auto simp: is_digit_def less_eq_char_def intro!: exI [of _ "''8787''"])
  have p: "split_host_port ''[::1]:8787'' = (''::1'', ''8787'')" by code_simp
  have "port_in_range ''8787''"
    by (simp add: port_in_range_def parse_int_def parse_uint_def digits_val_def is_digit_def digit_val_def less_eq_char_def)
  with normalize_loopback(1) [OF a] p
  have n: "normalizeHeadroomURL ''http://[::1]:8787'' = Inr ''http://[::1]:8787''"
    by simp
  have e: "headroom_endpoint ''http://[::1]:8787'' = ''http://[::1]:8787/v1/compress''" by code_simp
  show ?thesis using n headroom_url_loopback_only [OF n] unfolding e by blast
qed

text \<open>
  The two validators of the Headroom URL agree: a text is accepted by the client's
  constructor exactly if the configuration accepts it, so no accepted configuration can fail
  to build its client and the client accepts nothing the configuration would refuse.
\<close>
theorem endpoint_validators_agree:
  "(\<exists>u. normalizeHeadroomURL raw = Inr u) \<longleftrightarrow> (\<exists>e. fixedEndpoint raw = Inr e)"
proof -
  have "u_host p \<noteq> []" if "Hostname p = ''127.0.0.1'' \<or> Hostname p = ''::1''" for p
    using that by (auto simp: Hostname_def split_host_port_def)
  then show ?thesis
    by (auto simp: normalizeHeadroomURL_def fixedEndpoint_def split: option.splits)
qed

text \<open>
  The management URL of the update verifier is loopback with a port, but a bare trailing
  question mark survives: the accepted text is \<open>http://<loopback>:<port>\<close>, or that followed by
  \<open>?\<close>.
\<close>
theorem management_url_loopback:
  assumes "managementBaseURL v = Some b"
  shows "\<exists>h. loopback_authority h \<and> snd (split_host_port h) \<noteq> [] \<and> (b = ''http://'' @ h \<or> b = ''http://'' @ h @ ''?'')"
proof -
  obtain p where p: "url_parse (trim_space v) = Some p" "u_scheme p = ''http''" "u_raw_query p = []"
      "Hostname p = ''127.0.0.1'' \<or> Hostname p = ''::1''" "Port p \<noteq> []"
      "b = trim_suffix ''/'' (url_string (p\<lparr>u_path := []\<rparr>))"
    using assms by (auto simp: managementBaseURL_def split: if_splits option.splits)
  have h: "loopback_authority (u_host p)" by (rule url_parse_loopback_host [OF p(1,4)])
  obtain u z where z: "u_host p = u @ [z]" "z \<noteq> CHR ''/''" using loopback_last [OF h] by blast
  have "url_string (p\<lparr>u_path := []\<rparr>) = ''http://'' @ u_host p @ (if u_force_query p then ''?'' else [])"
    using url_string_http [of "p\<lparr>u_path := []\<rparr>"] h p by simp
  moreover have "trim_suffix ''/'' (''http://'' @ u_host p) = ''http://'' @ u_host p"
    "trim_suffix ''/'' (''http://'' @ u_host p @ ''?'') = ''http://'' @ u_host p @ ''?''"
    using z by (simp_all add: trim_suffix_def has_suffix_def)
  ultimately show ?thesis using p h by (auto simp: Port_def)
qed

theorem management_url_loopback_witness:
  "\<exists>h. loopback_authority h \<and> (''http://127.0.0.1:8317'' = ''http://'' @ h \<or> ''http://127.0.0.1:8317'' = ''http://'' @ h @ ''?'')"
proof -
  have "managementBaseURL ''http://127.0.0.1:8317/'' = Some ''http://127.0.0.1:8317''" by code_simp
  from management_url_loopback [OF this] show ?thesis by blast
qed

text \<open>With such a base URL the request path that is appended to it becomes a query.\<close>

lemma management_force_query:
  "managementBaseURL ''http://127.0.0.1:8317?'' = Some ''http://127.0.0.1:8317?''
     \<and> map_option u_path (url_parse (''http://127.0.0.1:8317?'' @ ''/healthz'')) = Some []
     \<and> map_option u_raw_query (url_parse (''http://127.0.0.1:8317?'' @ ''/healthz'')) = Some ''/healthz''"
  by (intro conjI; code_simp)

end
