(* ===== verification/HeadroomClient.thy ===== *)
theory HeadroomClient
  imports Circuit Endpoint GoJson
begin

text \<open>
  \<open>internal/headroom/client.go\<close> and \<open>check.go\<close>: one bounded, fail-open call of the
  compression service.  What the network and the clock do in one call is a record of
  observations (\<open>call_env\<close>): the model decides everything from them.  JSON raw messages are kept as
  their decoded values, which is how every validator reads them.  The nil-client guards
  are not modelled; the client type has no nil.
\<close>

definition maxPayloadBytes :: nat where "maxPayloadBytes = 1048576"
definition minTimeout :: duration where "minTimeout = 100 * millisecond"
definition maxTimeout :: duration where "maxTimeout = 1500 * millisecond"
definition probeCacheDuration :: duration where "probeCacheDuration = 5 * second"

datatype headroom_outcome = OutcomeApplied | OutcomeNoChange | OutcomeUnsupportedFormat
  | OutcomeUnsupportedStructure | OutcomeRequestTooLarge | OutcomeSaturated | OutcomeCircuitOpen
  | OutcomeTimeout | OutcomeConnection | OutcomeNetwork | OutcomeRedirect | OutcomeHTTPStatus
  | OutcomeResponseEncoding | OutcomeResponseTooLarge | OutcomeInvalidJSON | OutcomeInvalidResponse

subsection \<open>Errors of a request\<close>

text \<open>What \<open>errors.Is\<close> and \<open>errors.As\<close> find in an error value.\<close>

record request_error =
  re_deadline_exceeded :: bool
  re_net_timeout :: bool
  re_conn_refused :: bool
  re_unsafe_peer :: bool
  re_dial_op :: bool

definition classifyRequestError :: "request_error \<Rightarrow> headroom_outcome" where
  "classifyRequestError err =
     (if re_deadline_exceeded err then OutcomeTimeout
      else if re_net_timeout err then OutcomeTimeout
      else if re_conn_refused err then OutcomeConnection
      else if re_unsafe_peer err then OutcomeConnection
      else if re_dial_op err then OutcomeConnection
      else OutcomeNetwork)"

definition errUnsafePeer :: request_error where
  "errUnsafePeer = \<lparr>re_deadline_exceeded = False, re_net_timeout = False, re_conn_refused = False,
     re_unsafe_peer = True, re_dial_op = False\<rparr>"

subsection \<open>The guarded dialer\<close>

definition split_host_port_addr :: "bytes \<Rightarrow> (bytes \<times> bytes) option" where
  "split_host_port_addr hp =
     (case last_index_byte (CHR '':'') hp of
        None \<Rightarrow> None
      | Some i \<Rightarrow>
          (if has_prefix ''['' hp then
             (case index_byte (CHR '']'') hp of
                None \<Rightarrow> None
              | Some end \<Rightarrow>
                  if Suc end = i \<and> index_byte (CHR ''['') (drop 1 hp) = None
                     \<and> index_byte (CHR '']'') (drop (Suc end) hp) = None
                  then Some (take (end - 1) (drop 1 hp), drop (Suc i) hp) else None)
           else if index_byte (CHR '':'') (take i hp) \<noteq> None then None
           else if index_byte (CHR ''['') hp \<noteq> None \<or> index_byte (CHR '']'') hp \<noteq> None then None
           else Some (take i hp, drop (Suc i) hp)))"

type_synonym ip = "nat list"

definition ip_is_loopback :: "ip \<Rightarrow> bool" where
  "ip_is_loopback ip =
     (if length ip = 4 then ip ! 0 = 127
      else if length ip = 16 \<and> take 12 ip = replicate 10 0 @ [255, 255] then ip ! 12 = 127
      else ip = replicate 15 0 @ [1])"

text \<open>The remote address of a connection: a TCP address, another one by its string, or none.\<close>

datatype peer = NoPeer | TCPPeer "ip option" | OtherPeer bytes

definition isLiteralLoopback :: "bytes \<Rightarrow> bool" where
  "isLiteralLoopback host = (host = ''127.0.0.1'' \<or> host = ''::1'')"

fun isLoopbackPeer :: "(bytes \<Rightarrow> ip option) \<Rightarrow> peer \<Rightarrow> bool" where
  "isLoopbackPeer parseIP NoPeer = False"
| "isLoopbackPeer parseIP (TCPPeer ip) = (case ip of None \<Rightarrow> False | Some a \<Rightarrow> ip_is_loopback a)"
| "isLoopbackPeer parseIP (OtherPeer s) =
     (case split_host_port_addr s of
        None \<Rightarrow> False
      | Some (host, _) \<Rightarrow> (case parseIP host of None \<Rightarrow> False | Some a \<Rightarrow> ip_is_loopback a))"

text \<open>
  \<open>guardedDial\<close>: \<open>base\<close> is the wrapped dialer, a connection is known by its peer.  The result
  carries whether a connection was closed again.
\<close>

definition guardedDial :: "(bytes \<Rightarrow> ip option) \<Rightarrow> (bytes \<Rightarrow> request_error + peer) \<Rightarrow> bytes \<Rightarrow> (request_error + peer) \<times> bool" where
  "guardedDial parseIP base address =
     (case split_host_port_addr address of
        None \<Rightarrow> (Inl errUnsafePeer, False)
      | Some (host, _) \<Rightarrow>
          if \<not> isLiteralLoopback host then (Inl errUnsafePeer, False)
          else (case base address of
                  Inl e \<Rightarrow> (Inl e, False)
                | Inr connection \<Rightarrow>
                    if \<not> isLoopbackPeer parseIP connection then (Inl errUnsafePeer, True)
                    else (Inr connection, False)))"

subsection \<open>Unique object keys\<close>

text \<open>
  \<open>json.Decoder.Token\<close> on a valid text yields the traversal of its value; \<open>More\<close> is true until
  a closing delimiter.  The first argument of \<open>consumeJSONValue\<close> bounds the recursion;
  \<open>consume_enough\<close> shows the length of the token stream is enough.
\<close>

datatype json_token = Delim char | StringToken bytes | Scalar

primrec json_tokens :: "json \<Rightarrow> json_token list" where
  "json_tokens JNull = [Scalar]"
| "json_tokens (JBool b) = [Scalar]"
| "json_tokens (JNum n) = [Scalar]"
| "json_tokens (JStr s) = [StringToken s]"
| "json_tokens (JArr vs) = Delim (CHR ''['') # concat (map json_tokens vs) @ [Delim (CHR '']'')]"
| "json_tokens (JObj ms) =
     Delim (CHR ''{'') # concat (map (\<lambda>(k, ts). StringToken k # ts) (map (map_prod id json_tokens) ms)) @ [Delim (CHR ''}'')]"

definition more :: "json_token list \<Rightarrow> bool" where
  "more ts = (case ts of [] \<Rightarrow> False | t # _ \<Rightarrow> t \<noteq> Delim (CHR '']'') \<and> t \<noteq> Delim (CHR ''}''))"

fun consumeJSONValue :: "nat \<Rightarrow> json_token list \<Rightarrow> json_token list option"
  and consume_members :: "nat \<Rightarrow> bytes set \<Rightarrow> json_token list \<Rightarrow> json_token list option"
  and consume_elements :: "nat \<Rightarrow> json_token list \<Rightarrow> json_token list option"
where
  "consumeJSONValue 0 ts = None"
| "consumeJSONValue (Suc n) ts =
     (case ts of
        [] \<Rightarrow> None
      | Delim d # r \<Rightarrow>
          if d = CHR ''{'' then
            (case consume_members n {} r of
               Some (c # r') \<Rightarrow> if c = Delim (CHR ''}'') then Some r' else None
             | _ \<Rightarrow> None)
          else if d = CHR ''['' then
            (case consume_elements n r of
               Some (c # r') \<Rightarrow> if c = Delim (CHR '']'') then Some r' else None
             | _ \<Rightarrow> None)
          else None
      | _ # r \<Rightarrow> Some r)"
| "consume_members 0 seen ts = None"
| "consume_members (Suc n) seen ts =
     (if more ts then
        (case ts of
           StringToken key # r \<Rightarrow>
             if key \<in> seen then None
             else (case consumeJSONValue n r of
                     None \<Rightarrow> None
                   | Some r' \<Rightarrow> consume_members n (insert key seen) r')
         | _ \<Rightarrow> None)
      else Some ts)"
| "consume_elements 0 ts = None"
| "consume_elements (Suc n) ts =
     (if more ts then
        (case consumeJSONValue n ts of None \<Rightarrow> None | Some r \<Rightarrow> consume_elements n r)
      else Some ts)"

definition validateUniqueObjectKeys :: "bytes \<Rightarrow> bool" where
  "validateUniqueObjectKeys raw =
     (case json_parse raw of
        None \<Rightarrow> False
      | Some v \<Rightarrow> consumeJSONValue (Suc (length (json_tokens v))) (json_tokens v) = Some [])"

text \<open>The specification: no object of the value has two members of one name.\<close>

primrec unique_keys :: "json \<Rightarrow> bool" where
  "unique_keys JNull = True"
| "unique_keys (JBool b) = True"
| "unique_keys (JNum n) = True"
| "unique_keys (JStr s) = True"
| "unique_keys (JArr vs) = list_all id (map unique_keys vs)"
| "unique_keys (JObj ms) =
     (distinct (map fst ms) \<and> list_all snd (map (map_prod id unique_keys) ms))"

lemma json_tokens_more: "more (json_tokens v @ r)"
  by (cases v) (auto simp: more_def)

lemma more_close [simp]: "\<not> more (Delim (CHR '']'') # r)" "\<not> more (Delim (CHR ''}'') # r)"
  by (simp_all add: more_def)

lemma consume_elements_all:
  assumes "\<And>v n r. v \<in> set vs \<Longrightarrow> length (json_tokens v) \<le> n \<Longrightarrow>
      consumeJSONValue n (json_tokens v @ r) = (if unique_keys v then Some r else None)"
    and "Suc (length (concat (map json_tokens vs))) \<le> n"
  shows "consume_elements n (concat (map json_tokens vs) @ Delim (CHR '']'') # r)
    = (if list_all unique_keys vs then Some (Delim (CHR '']'') # r) else None)"
  using assms
proof (induction vs arbitrary: n)
  case Nil
  then show ?case by (cases n) auto
next
  case (Cons v vs)
  obtain m where n: "n = Suc m" using Cons.prems(2) by (cases n) auto
  have pos: "1 \<le> length (json_tokens v)" by (cases v) auto
  have "consumeJSONValue m (json_tokens v @ concat (map json_tokens vs) @ Delim (CHR '']'') # r)
      = (if unique_keys v then Some (concat (map json_tokens vs) @ Delim (CHR '']'') # r) else None)"
    using Cons.prems n by (intro Cons.prems(1)) auto
  moreover have "consume_elements m (concat (map json_tokens vs) @ Delim (CHR '']'') # r)
      = (if list_all unique_keys vs then Some (Delim (CHR '']'') # r) else None)"
    using Cons.prems n pos by (intro Cons.IH) auto
  ultimately show ?case by (simp add: n json_tokens_more)
qed

abbreviation member_tokens :: "(bytes \<times> json) list \<Rightarrow> json_token list" where
  "member_tokens ms \<equiv> concat (map (\<lambda>(k, v). StringToken k # json_tokens v) ms)"

lemma consume_members_all:
  assumes "\<And>k v n r. (k, v) \<in> set ms \<Longrightarrow> length (json_tokens v) \<le> n \<Longrightarrow>
      consumeJSONValue n (json_tokens v @ r) = (if unique_keys v then Some r else None)"
    and "Suc (length (member_tokens ms)) \<le> n"
  shows "consume_members n seen (member_tokens ms @ Delim (CHR ''}'') # r)
    = (if distinct (map fst ms) \<and> fst ` set ms \<inter> seen = {} \<and> list_all (\<lambda>(k, v). unique_keys v) ms
       then Some (Delim (CHR ''}'') # r) else None)"
  using assms
proof (induction ms arbitrary: n seen)
  case Nil
  then show ?case by (cases n) auto
next
  case (Cons km ms)
  obtain k v where km: "km = (k, v)" by (cases km)
  obtain m where n: "n = Suc m" using Cons.prems(2) by (cases n) auto
  have pos: "1 \<le> length (json_tokens v)" by (cases v) auto
  have "consumeJSONValue m (json_tokens v @ member_tokens ms @ Delim (CHR ''}'') # r)
      = (if unique_keys v then Some (member_tokens ms @ Delim (CHR ''}'') # r) else None)"
    using Cons.prems n km by (intro Cons.prems(1)) auto
  moreover have "consume_members m (insert k seen) (member_tokens ms @ Delim (CHR ''}'') # r)
      = (if distinct (map fst ms) \<and> fst ` set ms \<inter> insert k seen = {} \<and> list_all (\<lambda>(k, v). unique_keys v) ms
         then Some (Delim (CHR ''}'') # r) else None)"
  proof (rule Cons.IH)
    show "consumeJSONValue n' (json_tokens v' @ r') = (if unique_keys v' then Some r' else None)"
      if "(k', v') \<in> set ms" "length (json_tokens v') \<le> n'" for k' v' n' r'
      using Cons.prems(1) that by (metis list.set_intros(2))
    show "Suc (length (member_tokens ms)) \<le> m" using Cons.prems(2) n pos km by simp
  qed
  ultimately show ?case
    by (auto simp: n km more_def)
qed

lemma consume_enough:
  "length (json_tokens v) \<le> n \<Longrightarrow>
   consumeJSONValue n (json_tokens v @ r) = (if unique_keys v then Some r else None)"
proof (induction v arbitrary: n r)
  case (JArr vs)
  obtain m where n: "n = Suc m" "Suc (length (concat (map json_tokens vs))) \<le> m"
    using JArr.prems by (cases n) auto
  have "consume_elements m (concat (map json_tokens vs) @ Delim (CHR '']'') # r)
      = (if list_all unique_keys vs then Some (Delim (CHR '']'') # r) else None)"
    using JArr.IH n(2) by (intro consume_elements_all) auto
  then show ?case by (simp add: n(1) list.pred_map comp_def)
next
  case (JObj ms)
  have toks: "concat (map (\<lambda>(k, ts). StringToken k # ts) (map (map_prod id json_tokens) ms)) = member_tokens ms"
    by (simp add: comp_def case_prod_unfold)
  obtain m where n: "n = Suc m" "Suc (length (member_tokens ms)) \<le> m"
    using JObj.prems unfolding json_tokens.simps toks by (cases n) auto
  have "consume_members m {} (member_tokens ms @ Delim (CHR ''}'') # r)
      = (if distinct (map fst ms) \<and> fst ` set ms \<inter> {} = {} \<and> list_all (\<lambda>(k, v). unique_keys v) ms
         then Some (Delim (CHR ''}'') # r) else None)"
    using JObj.IH n(2) by (intro consume_members_all) (auto simp: image_iff snds.simps)
  then show ?case
    unfolding json_tokens.simps toks
    by (simp add: n(1) list.pred_map comp_def case_prod_unfold)
qed (auto dest: Suc_le_D)

lemma validateUniqueObjectKeys_iff:
  "validateUniqueObjectKeys raw \<longleftrightarrow> (\<exists>v. json_parse raw = Some v \<and> unique_keys v)"
proof -
  have "consumeJSONValue (Suc (length (json_tokens v))) (json_tokens v) = (if unique_keys v then Some [] else None)" for v
    using consume_enough [of v "Suc (length (json_tokens v))" "[]"] by simp
  then show ?thesis by (simp add: validateUniqueObjectKeys_def split: option.split)
qed

subsection \<open>One exchange\<close>

text \<open>
  The response to a request: status, content encoding header, declared length, the bytes its
  body delivers, and the error a later read reports, if the body does not just end.
\<close>

record http_response =
  hr_status :: int
  hr_content_encoding :: bytes
  hr_content_length :: int
  hr_body :: bytes
  hr_read_error :: "request_error option"

text \<open>\<open>io.ReadAll\<close> over \<open>io.LimitReader\<close>: the error is only met below the limit.\<close>

definition read_limited :: "nat \<Rightarrow> http_response \<Rightarrow> request_error + bytes" where
  "read_limited limit r =
     (if limit \<le> length (hr_body r) then Inr (take limit (hr_body r))
      else (case hr_read_error r of Some e \<Rightarrow> Inl e | None \<Rightarrow> Inr (hr_body r)))"

definition equal_fold_ascii :: "bytes \<Rightarrow> bytes \<Rightarrow> bool" where
  "equal_fold_ascii a b = (map lower_byte a = map lower_byte b)"

definition decodeMessages :: "bytes \<Rightarrow> json list \<times> headroom_outcome" where
  "decodeMessages raw =
     (if \<not> json_valid raw then ([], OutcomeInvalidJSON)
      else if \<not> validateUniqueObjectKeys raw then ([], OutcomeInvalidResponse)
      else (case json_parse raw of
        Some (JObj ms) \<Rightarrow>
          (case map_of ms ''messages'' of
             None \<Rightarrow> ([], OutcomeInvalidResponse)
           | Some JNull \<Rightarrow> ([], OutcomeInvalidResponse)
           | Some (JArr messages) \<Rightarrow> (messages, OutcomeApplied)
           | Some _ \<Rightarrow> ([], OutcomeInvalidResponse))
      | _ \<Rightarrow> ([], OutcomeInvalidResponse)))"

text \<open>From the response to the outcome, the validator last; the order of the checks is the code's.\<close>

definition check_response :: "(json list \<Rightarrow> bool) \<Rightarrow> http_response \<Rightarrow> headroom_outcome" where
  "check_response validate r =
     (if hr_status r \<ge> 300 \<and> hr_status r < 400 then OutcomeRedirect
      else if hr_status r < 200 \<or> hr_status r \<ge> 300 then OutcomeHTTPStatus
      else if trim_space (hr_content_encoding r) \<noteq> [] \<and> \<not> equal_fold_ascii (trim_space (hr_content_encoding r)) ''identity''
        then OutcomeResponseEncoding
      else if hr_content_length r > int maxPayloadBytes then OutcomeResponseTooLarge
      else (case read_limited (maxPayloadBytes + 1) r of
        Inl errRead \<Rightarrow> classifyRequestError errRead
      | Inr raw \<Rightarrow>
          if length raw > maxPayloadBytes then OutcomeResponseTooLarge
          else (case decodeMessages raw of
                  (messages, outcome) \<Rightarrow>
                    if outcome \<noteq> OutcomeApplied then outcome
                    else if \<not> validate messages then OutcomeInvalidResponse
                    else OutcomeApplied)))"

subsection \<open>The client\<close>

record client =
  cl_timeout :: duration
  cl_slot :: bool
  cl_breaker :: breaker
  cl_probe_at :: "gotime option"
  cl_probe_value :: headroom_outcome
  cl_last :: "headroom_outcome option"

text \<open>\<open>NewClient\<close>: the endpoint is checked first, then the timeout.\<close>

datatype new_client_error = BadEndpoint url_error | BadTimeout

definition newClient :: "bytes \<Rightarrow> duration \<Rightarrow> new_client_error + (url \<times> client)" where
  "newClient baseURL timeout =
     (case fixedEndpoint baseURL of
        Inl e \<Rightarrow> Inl (BadEndpoint e)
      | Inr endpoint \<Rightarrow>
          if timeout < minTimeout \<or> timeout > maxTimeout then Inl BadTimeout
          else Inr (endpoint, \<lparr>cl_timeout = timeout, cl_slot = False, cl_breaker = breaker_zero,
                  cl_probe_at = None, cl_probe_value = OutcomeApplied, cl_last = None\<rparr>))"

text \<open>
  The observations of one call: the two clock readings, the context's error if it is done
  (and whether \<open>select\<close> picks it when the slot is free as well), whether the request could be built,
  and what the transport returned.
\<close>

record call_env =
  ce_now_begin :: gotime
  ce_ctx_err :: "request_error option"
  ce_pick_ctx :: bool
  ce_request_ok :: bool
  ce_do :: "request_error + http_response"
  ce_now_end :: gotime

definition recordOutcome :: "headroom_outcome \<Rightarrow> client \<Rightarrow> client" where
  "recordOutcome outcome c = c\<lparr>cl_last := Some outcome\<rparr>"

text \<open>The exchange of an admitted call that holds the slot: its outcome.\<close>

definition exchange :: "(json list \<Rightarrow> bool) \<Rightarrow> call_env \<Rightarrow> headroom_outcome" where
  "exchange validate env =
     (if \<not> ce_request_ok env then OutcomeNetwork
      else (case ce_do env of
              Inl errDo \<Rightarrow> classifyRequestError errDo
            | Inr response \<Rightarrow> check_response validate response))"

definition Compress :: "bytes \<Rightarrow> (json list \<Rightarrow> bool) \<Rightarrow> call_env \<Rightarrow> client \<Rightarrow> headroom_outcome \<times> client" where
  "Compress requestBody validate env c =
     (if requestBody = [] \<or> length requestBody > maxPayloadBytes
      then (OutcomeRequestTooLarge, recordOutcome OutcomeRequestTooLarge c)
      else (case breaker_begin (ce_now_begin env) (cl_breaker c) of
        ((probe, allowed), b) \<Rightarrow>
          if \<not> allowed then (OutcomeCircuitOpen, recordOutcome OutcomeCircuitOpen (c\<lparr>cl_breaker := b\<rparr>))
          else
            (case (ce_ctx_err env, cl_slot c) of
               (Some e, True) \<Rightarrow>
                 (classifyRequestError e, recordOutcome (classifyRequestError e) (c\<lparr>cl_breaker := breaker_cancel probe b\<rparr>))
             | (None, True) \<Rightarrow>
                 (OutcomeSaturated, recordOutcome OutcomeSaturated (c\<lparr>cl_breaker := breaker_cancel probe b\<rparr>))
             | (ctx, False) \<Rightarrow>
                 if ctx \<noteq> None \<and> ce_pick_ctx env then
                   (classifyRequestError (the ctx),
                    recordOutcome (classifyRequestError (the ctx)) (c\<lparr>cl_breaker := breaker_cancel probe b\<rparr>))
                 else
                   (let outcome = exchange validate env
                    in (outcome, recordOutcome outcome
                         (c\<lparr>cl_breaker := breaker_finish (ce_now_end env) probe (outcome = OutcomeApplied) b,
                            cl_slot := False\<rparr>))))))"

definition probe_request :: bytes where
  "probe_request = ''{'' @ json_string ''messages'' @ '':[{'' @ json_string ''role'' @ '':'' @ json_string ''user''
     @ '','' @ json_string ''content'' @ '':'' @ json_string ''ping'' @ ''}],'' @ json_string ''model'' @ '':''
     @ json_string ''headroom-health-probe'' @ ''}''"

text \<open>
  The probe's validator decodes the one message into a struct with the two fields \<open>role\<close> and
  \<open>content\<close>, which \<open>json.Unmarshal\<close> matches without regard to case, the last member winning; a
  null leaves a field as it is.
\<close>

definition field_is :: "bytes \<Rightarrow> bytes \<Rightarrow> bool" where
  "field_is name key = equal_fold_ascii key name"

fun struct_string :: "bytes \<Rightarrow> (bytes \<times> json) list \<Rightarrow> bytes \<Rightarrow> bytes option" where
  "struct_string name [] cur = Some cur"
| "struct_string name ((k, v) # ms) cur =
     (if field_is name k then
        (case v of JStr s \<Rightarrow> struct_string name ms s | JNull \<Rightarrow> struct_string name ms cur | _ \<Rightarrow> None)
      else struct_string name ms cur)"

definition probe_valid :: "json list \<Rightarrow> bool" where
  "probe_valid messages =
     (case messages of
        [JObj ms] \<Rightarrow>
          (case (struct_string ''role'' ms [], struct_string ''content'' ms []) of
             (Some role, Some content) \<Rightarrow> role = ''user'' \<and> content \<noteq> []
           | _ \<Rightarrow> False)
      | _ \<Rightarrow> False)"

text \<open>\<open>Probe\<close> at the clock reading \<open>now\<close>, with the observations of the call it may make.\<close>

definition Probe :: "gotime \<Rightarrow> call_env \<Rightarrow> client \<Rightarrow> headroom_outcome \<times> client" where
  "Probe now env c =
     (if (case cl_probe_at c of None \<Rightarrow> False | Some at \<Rightarrow> now - at < probeCacheDuration)
      then (cl_probe_value c, c)
      else (case Compress probe_request probe_valid env c of
              (outcome, c1) \<Rightarrow>
                (outcome, if outcome \<noteq> OutcomeSaturated
                          then c1\<lparr>cl_probe_at := Some now, cl_probe_value := outcome\<rparr> else c1)))"

definition client_circuit_state :: "gotime \<Rightarrow> client \<Rightarrow> circuit_state" where
  "client_circuit_state now c = breaker_state now (cl_breaker c)"

definition LastOutcome :: "client \<Rightarrow> headroom_outcome option" where
  "LastOutcome c = cl_last c"

record check_result =
  cr_reachable :: bool
  cr_outcome :: headroom_outcome
  cr_latency :: duration

text \<open>
  \<open>Check\<close> builds a client of its own; an error of the constructor is none of the errors
  \<open>classifyRequestError\<close> knows.
\<close>

definition plain_error :: request_error where
  "plain_error = \<lparr>re_deadline_exceeded = False, re_net_timeout = False, re_conn_refused = False,
     re_unsafe_peer = False, re_dial_op = False\<rparr>"

definition Check :: "bytes \<Rightarrow> duration \<Rightarrow> gotime \<Rightarrow> gotime \<Rightarrow> gotime \<Rightarrow> call_env \<Rightarrow> check_result" where
  "Check baseURL timeout start probe_now stop env =
     (case newClient baseURL timeout of
        Inl _ \<Rightarrow> \<lparr>cr_reachable = False, cr_outcome = classifyRequestError plain_error, cr_latency = 0\<rparr>
      | Inr (_, c) \<Rightarrow>
          (let outcome = fst (Probe probe_now env c)
           in \<lparr>cr_reachable = (outcome = OutcomeApplied \<or> outcome = OutcomeNoChange),
               cr_outcome = outcome, cr_latency = stop - start\<rparr>))"

subsection \<open>Outcomes and the breaker\<close>

lemma decodeMessages_cases:
  "decodeMessages raw = (ms, OutcomeApplied) \<Longrightarrow>
   \<exists>fields. json_parse raw = Some (JObj fields) \<and> unique_keys (JObj fields) \<and> map_of fields ''messages'' = Some (JArr ms)"
  by (auto simp: decodeMessages_def validateUniqueObjectKeys_iff split: if_splits option.splits json.splits)

lemma classify_not_applied [simp]: "classifyRequestError e \<noteq> OutcomeApplied" "classifyRequestError e \<noteq> OutcomeSaturated"
  by (auto simp: classifyRequestError_def)

lemma check_response_applied:
  "check_response validate r = OutcomeApplied \<longleftrightarrow>
     200 \<le> hr_status r \<and> hr_status r < 300
     \<and> (trim_space (hr_content_encoding r) = [] \<or> equal_fold_ascii (trim_space (hr_content_encoding r)) ''identity'')
     \<and> hr_content_length r \<le> int maxPayloadBytes \<and> length (hr_body r) \<le> maxPayloadBytes \<and> hr_read_error r = None
     \<and> (\<exists>ms. decodeMessages (hr_body r) = (ms, OutcomeApplied) \<and> validate ms)"
proof -
  define enc where "enc \<longleftrightarrow> trim_space (hr_content_encoding r) \<noteq> []
     \<and> \<not> equal_fold_ascii (trim_space (hr_content_encoding r)) ''identity''"
  have tail: "(case read_limited (maxPayloadBytes + 1) r of
        Inl errRead \<Rightarrow> classifyRequestError errRead
      | Inr raw \<Rightarrow>
          if length raw > maxPayloadBytes then OutcomeResponseTooLarge
          else (case decodeMessages raw of
                  (messages, outcome) \<Rightarrow>
                    if outcome \<noteq> OutcomeApplied then outcome
                    else if \<not> validate messages then OutcomeInvalidResponse
                    else OutcomeApplied)) = OutcomeApplied \<longleftrightarrow>
     length (hr_body r) \<le> maxPayloadBytes \<and> hr_read_error r = None
       \<and> (\<exists>ms. decodeMessages (hr_body r) = (ms, OutcomeApplied) \<and> validate ms)"
  proof (cases "length (hr_body r) \<le> maxPayloadBytes")
    case True
    then show ?thesis
      by (cases "hr_read_error r"; cases "decodeMessages (hr_body r)") (auto simp: read_limited_def)
  next
    case False
    then show ?thesis by (simp add: read_limited_def)
  qed
  have "trim_space (hr_content_encoding r) = [] \<or> equal_fold_ascii (trim_space (hr_content_encoding r)) ''identity'' \<longleftrightarrow> \<not> enc"
    by (auto simp: enc_def)
  then show ?thesis
    unfolding check_response_def enc_def [symmetric]
    using tail by (simp add: not_less not_le)
qed

definition admitted :: "bytes \<Rightarrow> call_env \<Rightarrow> client \<Rightarrow> bool" where
  "admitted body env c \<longleftrightarrow> body \<noteq> [] \<and> length body \<le> maxPayloadBytes
     \<and> snd (fst (breaker_begin (ce_now_begin env) (cl_breaker c))) \<and> \<not> cl_slot c
     \<and> \<not> (ce_ctx_err env \<noteq> None \<and> ce_pick_ctx env)"

lemma Compress_admitted:
  "admitted body env c \<Longrightarrow>
   Compress body validate env c = (exchange validate env,
     c\<lparr>cl_breaker := breaker_finish (ce_now_end env) (fst (fst (breaker_begin (ce_now_begin env) (cl_breaker c))))
         (exchange validate env = OutcomeApplied) (snd (breaker_begin (ce_now_begin env) (cl_breaker c))),
       cl_slot := False, cl_last := Some (exchange validate env)\<rparr>)"
proof -
  assume a: "admitted body env c"
  obtain p al b where b: "breaker_begin (ce_now_begin env) (cl_breaker c) = ((p, al), b)"
    by (metis prod.collapse)
  have f: "\<not> (body = [] \<or> length body > maxPayloadBytes)" "al" "cl_slot c = False"
      "\<not> (ce_ctx_err env \<noteq> None \<and> ce_pick_ctx env)"
    using a by (auto simp: admitted_def b)
  show ?thesis
    unfolding Compress_def b prod.case fst_conv snd_conv f(3) bool.case if_not_P [OF f(1)] if_not_P [OF f(4)]
    using f(2,4) by (cases "ce_ctx_err env") (simp_all add: recordOutcome_def Let_def)
qed

lemma cancel_begin: "cb_half_open b = False \<Longrightarrow>
   breaker_cancel (fst (fst (breaker_begin now b))) (snd (breaker_begin now b)) = b"
  by (auto simp: breaker_begin_def breaker_cancel_def split: option.splits)

lemma begin_cancel: "snd (fst (breaker_begin now b)) \<Longrightarrow>
   breaker_cancel (fst (fst (breaker_begin now b))) (snd (breaker_begin now b)) = b"
  by (auto simp: breaker_begin_def breaker_cancel_def split: option.splits if_splits)

lemma Compress_rejected:
  assumes "\<not> admitted body env c"
  shows "fst (Compress body validate env c) \<in>
      {OutcomeRequestTooLarge, OutcomeCircuitOpen, OutcomeSaturated, OutcomeTimeout, OutcomeConnection, OutcomeNetwork}"
    and "snd (Compress body validate env c) = c\<lparr>cl_last := Some (fst (Compress body validate env c))\<rparr>"
proof -
  obtain p al b where b: "breaker_begin (ce_now_begin env) (cl_breaker c) = ((p, al), b)"
    by (metis prod.collapse)
  have same: "\<not> al \<Longrightarrow> b = cl_breaker c" "al \<Longrightarrow> breaker_cancel p b = cl_breaker c"
    using begin_rejected_unchanged [of "ce_now_begin env" "cl_breaker c"]
      begin_cancel [of "ce_now_begin env" "cl_breaker c"] b by auto
  show "fst (Compress body validate env c) \<in>
      {OutcomeRequestTooLarge, OutcomeCircuitOpen, OutcomeSaturated, OutcomeTimeout, OutcomeConnection, OutcomeNetwork}"
    using assms b
    by (cases "ce_ctx_err env"; cases "cl_slot c"; cases al)
      (auto simp: admitted_def Compress_def classifyRequestError_def not_less not_le)
  show "snd (Compress body validate env c) = c\<lparr>cl_last := Some (fst (Compress body validate env c))\<rparr>"
    using assms same b
    by (cases "ce_ctx_err env"; cases "cl_slot c"; cases al)
      (auto simp: admitted_def Compress_def recordOutcome_def not_less not_le)
qed

lemma exchange_applied:
  "exchange validate env = OutcomeApplied \<longleftrightarrow>
     ce_request_ok env \<and> (\<exists>r. ce_do env = Inr r \<and> check_response validate r = OutcomeApplied)"
  by (auto simp: exchange_def split: sum.splits)

text \<open>
  C8. What counts as success.  A call is applied only if it was admitted by the size limit, the
  breaker and the slot, and got a response with a 2xx status, no foreign encoding and at most
  1 MiB of body, which is one JSON object without duplicate names whose messages pass the
  validator; and a body over the limit is never decoded, whatever length the peer declared.
\<close>
theorem headroom_applied_iff:
  "(fst (Compress body validate env c) = OutcomeApplied \<longleftrightarrow>
      admitted body env c \<and> ce_request_ok env \<and>
      (\<exists>r fields ms. ce_do env = Inr r \<and> 200 \<le> hr_status r \<and> hr_status r < 300
         \<and> (trim_space (hr_content_encoding r) = [] \<or> equal_fold_ascii (trim_space (hr_content_encoding r)) ''identity'')
         \<and> hr_content_length r \<le> int maxPayloadBytes \<and> length (hr_body r) \<le> maxPayloadBytes \<and> hr_read_error r = None
         \<and> json_parse (hr_body r) = Some (JObj fields) \<and> unique_keys (JObj fields)
         \<and> map_of fields ''messages'' = Some (JArr ms) \<and> validate ms))"
proof -
  have dec: "decodeMessages raw = (ms, OutcomeApplied) \<longleftrightarrow>
      (\<exists>fields. json_parse raw = Some (JObj fields) \<and> unique_keys (JObj fields) \<and> map_of fields ''messages'' = Some (JArr ms))"
    for raw ms
    using decodeMessages_cases [of raw ms]
    by (auto simp: decodeMessages_def json_valid_def validateUniqueObjectKeys_iff simp del: unique_keys.simps)
  show ?thesis
  proof (cases "admitted body env c")
    case True
    then show ?thesis
      by (simp only: Compress_admitted fst_conv exchange_applied check_response_applied dec) blast
  next
    case False
    then show ?thesis using Compress_rejected(1) [OF False, of validate] by auto
  qed
qed

text \<open>
  C29. What the breaker learns.  A call that was not admitted (too large, open circuit, saturated
  slot, context already done) leaves breaker and slot exactly as they were, a half-open
  breaker included; an admitted one releases the slot and feeds the breaker once, as a success
  exactly if its outcome is applied.  The recorded last outcome is always the one returned.
\<close>
theorem headroom_breaker_feed:
  "(\<not> admitted body env c \<longrightarrow>
      snd (Compress body validate env c) = c\<lparr>cl_last := Some (fst (Compress body validate env c))\<rparr>)
   \<and> (admitted body env c \<longrightarrow>
      cl_slot (snd (Compress body validate env c)) = cl_slot c
      \<and> cl_breaker (snd (Compress body validate env c)) =
          breaker_finish (ce_now_end env) (fst (fst (breaker_begin (ce_now_begin env) (cl_breaker c))))
            (fst (Compress body validate env c) = OutcomeApplied) (snd (breaker_begin (ce_now_begin env) (cl_breaker c))))
   \<and> LastOutcome (snd (Compress body validate env c)) = Some (fst (Compress body validate env c))"
proof (cases "admitted body env c")
  case True
  then have "\<not> cl_slot c" by (simp add: admitted_def)
  with True show ?thesis by (simp add: Compress_admitted LastOutcome_def)
next
  case False
  then show ?thesis by (simp add: Compress_rejected(2) LastOutcome_def)
qed

theorem headroom_breaker_feed_witness:
  "let c = \<lparr>cl_timeout = 0, cl_slot = True, cl_breaker = breaker_zero\<lparr>cb_open_until := Some 5\<rparr>, cl_probe_at = None,
         cl_probe_value = OutcomeApplied, cl_last = None\<rparr>;
       env = \<lparr>ce_now_begin = 9, ce_ctx_err = None, ce_pick_ctx = False, ce_request_ok = True,
         ce_do = Inl errUnsafePeer, ce_now_end = 9\<rparr>
   in \<not> admitted ''x'' env c \<and> cl_breaker (snd (Compress ''x'' (\<lambda>_. True) env c)) = cl_breaker c"
  unfolding Let_def
  by (subst headroom_breaker_feed [THEN conjunct1, THEN mp])
    (simp_all add: admitted_def)

text \<open>
  The health probe is cached.  Within five seconds of a probe the same outcome is returned
  and nothing changes, so no request is made; an outcome that only says the slot was busy is
  not cached.
\<close>
theorem headroom_probe_cached:
  assumes "Probe now env c = (outcome, c1)" "now \<le> now'" "now' - now < probeCacheDuration"
    and "cl_probe_at c = None"
  shows "(outcome \<noteq> OutcomeSaturated \<longrightarrow> Probe now' env' c1 = (outcome, c1))
     \<and> (outcome = OutcomeSaturated \<longrightarrow> cl_probe_at c1 = None)"
proof -
  obtain o1 d where C: "Compress probe_request probe_valid env c = (o1, d)" by (metis prod.collapse)
  have at: "cl_probe_at d = cl_probe_at c"
    using C Compress_admitted [of probe_request env c probe_valid] Compress_rejected(2) [of probe_request env c probe_valid]
    by (cases "admitted probe_request env c") auto
  show ?thesis using assms C at by (auto simp: Probe_def)
qed

theorem headroom_probe_cached_witness:
  "let c = \<lparr>cl_timeout = 0, cl_slot = False, cl_breaker = breaker_zero, cl_probe_at = None,
         cl_probe_value = OutcomeApplied, cl_last = None\<rparr>;
       env = \<lparr>ce_now_begin = 9, ce_ctx_err = None, ce_pick_ctx = False, ce_request_ok = False,
         ce_do = Inl errUnsafePeer, ce_now_end = 9\<rparr>
   in fst (Probe 3 env (snd (Probe 2 env c))) = fst (Probe 2 env c)"
proof -
  define c where "c = \<lparr>cl_timeout = 0, cl_slot = False, cl_breaker = breaker_zero, cl_probe_at = None,
         cl_probe_value = OutcomeApplied, cl_last = None\<rparr>"
  define env where "env = \<lparr>ce_now_begin = 9, ce_ctx_err = None, ce_pick_ctx = False, ce_request_ok = False,
         ce_do = Inl errUnsafePeer, ce_now_end = 9\<rparr>"
  have len: "probe_request \<noteq> []" "length probe_request \<le> maxPayloadBytes"
    by (simp_all add: probe_request_def json_string_def json_quote_def esc_ascii_def quote_def backslash_def
        less_char_def maxPayloadBytes_def)
  have "admitted probe_request env c"
    using len by (simp add: admitted_def c_def env_def breaker_begin_def breaker_zero_def)
  then have "fst (Probe 2 env c) = OutcomeNetwork"
    by (simp add: Probe_def c_def Compress_admitted exchange_def env_def)
  moreover have "Probe 2 env c = (fst (Probe 2 env c), snd (Probe 2 env c))" by simp
  ultimately have "Probe 3 env (snd (Probe 2 env c)) = (OutcomeNetwork, snd (Probe 2 env c))"
    using headroom_probe_cached [of 2 env c _ _ 3 env] by (simp add: probeCacheDuration_def c_def)
  then show ?thesis
    using \<open>fst (Probe 2 env c) = OutcomeNetwork\<close> by (simp add: c_def env_def Let_def)
qed

text \<open>
  No connection off the loopback interface: the guarded dialer returns a connection only if
  the address names a loopback literal and the connected peer is a loopback address, and for
  any other address the result does not depend on the wrapped dialer at all, so it is not
  called.
\<close>
theorem guarded_dial_loopback:
  "(guardedDial parseIP base address = (Inr connection, closed) \<longrightarrow>
      isLoopbackPeer parseIP connection \<and> \<not> closed
      \<and> (\<exists>host port. split_host_port_addr address = Some (host, port) \<and> isLiteralLoopback host))
   \<and> ((\<forall>port. split_host_port_addr address \<noteq> Some (''127.0.0.1'', port)
         \<and> split_host_port_addr address \<noteq> Some (''::1'', port)) \<longrightarrow>
      guardedDial parseIP base address = (Inl errUnsafePeer, False))"
  by (auto simp: guardedDial_def isLiteralLoopback_def split: option.splits prod.splits if_splits sum.splits)

theorem guarded_dial_loopback_witness:
  "guardedDial (\<lambda>_. None) (\<lambda>_. Inr (TCPPeer (Some [127, 0, 0, 1]))) ''127.0.0.1:8787'' = (Inr (TCPPeer (Some [127, 0, 0, 1])), False)
     \<and> guardedDial (\<lambda>_. None) (\<lambda>_. Inr (TCPPeer (Some [127, 0, 0, 1]))) ''localhost:8787'' = (Inl errUnsafePeer, False)"
proof
  show "guardedDial (\<lambda>_. None) (\<lambda>_. Inr (TCPPeer (Some [127, 0, 0, 1]))) ''127.0.0.1:8787'' = (Inr (TCPPeer (Some [127, 0, 0, 1])), False)"
    by (simp add: guardedDial_def split_host_port_addr_def isLiteralLoopback_def ip_is_loopback_def)
  show "guardedDial (\<lambda>_. None) (\<lambda>_. Inr (TCPPeer (Some [127, 0, 0, 1]))) ''localhost:8787'' = (Inl errUnsafePeer, False)"
    by (rule guarded_dial_loopback [THEN conjunct2, THEN mp]) (simp add: split_host_port_addr_def)
qed


end
