(* ===== verification/HeadroomAdapter.thy ===== *)
theory HeadroomAdapter
  imports HeadroomClient Payload "HOL-Library.Monad_Syntax"
begin

text \<open>
  \<open>internal/headroom/adapter.go\<close>: a provider payload is projected into messages for the Headroom
  service, with the spans of its mutable texts as targets; the service's reply is accepted only if it
  differs from what was sent in the target texts alone; and the new texts are spliced into the body.
  An error of a projection only says that there is one, so it is \<open>None\<close>.  A Go map decoded from JSON
  is an object with its members in increasing name order (\<open>to_any\<close>).
\<close>

definition maskedText :: bytes where "maskedText = ''__CPA_HEADROOM_MUTABLE_TEXT__''"

record text_target =
  tt_start :: nat
  tt_end :: nat
  tt_message :: nat
  tt_block :: int
  tt_original :: bytes

record projection =
  pj_messages :: "json list"
  pj_targets :: "text_target list"

subsection \<open>Decoded values\<close>

definition decodeValue :: "bytes \<Rightarrow> json option" where
  "decodeValue raw = (if \<not> validateUniqueObjectKeys raw then None else map_option to_any (json_parse raw))"

definition decodeObject :: "bytes \<Rightarrow> (bytes \<times> json) list option" where
  "decodeObject raw = (case decodeValue raw of Some (JObj m) \<Rightarrow> Some m | _ \<Rightarrow> None)"

text \<open>The members a type assertion finds.\<close>

definition str_at :: "(bytes \<times> json) list \<Rightarrow> bytes \<Rightarrow> bytes option" where
  "str_at m k = (case map_of m k of Some (JStr s) \<Rightarrow> Some s | _ \<Rightarrow> None)"

definition arr_at :: "(bytes \<times> json) list \<Rightarrow> bytes \<Rightarrow> json list option" where
  "arr_at m k = (case map_of m k of Some (JArr vs) \<Rightarrow> Some vs | _ \<Rightarrow> None)"

definition obj_at :: "(bytes \<times> json) list \<Rightarrow> bytes \<Rightarrow> (bytes \<times> json) list option" where
  "obj_at m k = (case map_of m k of Some (JObj ms) \<Rightarrow> Some ms | _ \<Rightarrow> None)"

definition as_obj :: "json \<Rightarrow> (bytes \<times> json) list option" where
  "as_obj v = (case v of JObj ms \<Rightarrow> Some ms | _ \<Rightarrow> None)"

definition gomap :: "(bytes \<times> json) list \<Rightarrow> json" where
  "gomap ms = JObj (foldl (\<lambda>m (k, v). insert_member k v m) [] ms)"

definition require :: "bool \<Rightarrow> unit option" where
  "require c = (if c then Some () else None)"

fun oeach :: "(nat \<Rightarrow> 'x \<Rightarrow> 's \<Rightarrow> 's option) \<Rightarrow> nat \<Rightarrow> 'x list \<Rightarrow> 's \<Rightarrow> 's option" where
  "oeach f i [] s = Some s"
| "oeach f i (x # xs) s = (case f i x s of None \<Rightarrow> None | Some s' \<Rightarrow> oeach f (Suc i) xs s')"

subsection \<open>Targets\<close>

definition addTarget ::
  "'r gjson \<Rightarrow> bytes \<Rightarrow> bytes \<Rightarrow> nat \<Rightarrow> int \<Rightarrow> bytes \<Rightarrow> projection \<Rightarrow> projection option" where
  "addTarget g body path messageIndex blockIndex original view =
     (let result = gj_get g body path
      in if gj_type g result \<noteq> GString \<or> gj_index g result < 0 then None
         else
           let start = nat (gj_index g result);
               stop = start + length (gj_raw g result)
           in if stop > length body \<or> take (stop - start) (drop start body) \<noteq> gj_raw g result then None
              else Some (view\<lparr>pj_targets := pj_targets view @
                     [\<lparr>tt_start = start, tt_end = stop, tt_message = messageIndex, tt_block = blockIndex,
                       tt_original = original\<rparr>]\<rparr>))"

definition add_message :: "json \<Rightarrow> projection \<Rightarrow> projection" where
  "add_message m view = view\<lparr>pj_messages := pj_messages view @ [m]\<rparr>"

text \<open>A message with its whole content as the target.\<close>

definition add_text :: "'r gjson \<Rightarrow> bytes \<Rightarrow> bytes \<Rightarrow> json \<Rightarrow> bytes \<Rightarrow> projection \<Rightarrow> projection option" where
  "add_text g body path message text view =
     addTarget g body path (length (pj_messages view)) (-1) text (add_message message view)"

definition text_block :: "bytes \<Rightarrow> json" where
  "text_block text = gomap [(''type'', JStr ''text''), (''text'', JStr text)]"

definition role_message :: "bytes \<Rightarrow> json \<Rightarrow> json" where
  "role_message role content = gomap [(''role'', JStr role), (''content'', content)]"

definition tool_message :: "bytes \<Rightarrow> json \<Rightarrow> json" where
  "tool_message callID content = gomap [(''role'', JStr ''tool''), (''tool_call_id'', JStr callID), (''content'', content)]"

definition function_call :: "bytes \<Rightarrow> bytes \<Rightarrow> json \<Rightarrow> json" where
  "function_call callID name arguments =
     gomap [(''id'', JStr callID), (''type'', JStr ''function''),
            (''function'', gomap [(''name'', JStr name), (''arguments'', JStr (json_marshal arguments))])]"

definition call_message :: "json \<Rightarrow> json" where
  "call_message call = gomap [(''role'', JStr ''assistant''), (''content'', JStr []), (''tool_calls'', JArr [call])]"

subsection \<open>OpenAI chat\<close>

definition validOpenAIRole :: "bytes \<Rightarrow> bool" where
  "validOpenAIRole role = List.member [''system'', ''developer'', ''user'', ''assistant'', ''tool''] role"

definition valid_tool_call :: "json \<Rightarrow> bool" where
  "valid_tool_call rawCall =
     (case as_obj rawCall of
        None \<Rightarrow> False
      | Some call \<Rightarrow>
          if map_of call ''type'' \<noteq> Some (JStr ''function'') then False
          else (case (str_at call ''id'', obj_at call ''function'') of
            (Some i, Some fn) \<Rightarrow>
              if i = [] then False
              else (case (str_at fn ''name'', str_at fn ''arguments'') of
                     (Some name, Some _) \<Rightarrow> name \<noteq> []
                   | _ \<Rightarrow> False)
          | _ \<Rightarrow> False))"

definition validateOpenAIToolFields :: "(bytes \<times> json) list \<Rightarrow> bytes \<Rightarrow> bool" where
  "validateOpenAIToolFields message role =
     (if role = ''tool'' \<and> (case str_at message ''tool_call_id'' of None \<Rightarrow> True | Some i \<Rightarrow> i = []) then False
      else (case map_of message ''tool_calls'' of
              None \<Rightarrow> True
            | Some rawCalls \<Rightarrow>
                if role \<noteq> ''assistant'' then False
                else (case rawCalls of JArr calls \<Rightarrow> list_all valid_tool_call calls | _ \<Rightarrow> False)))"

definition has_tool_calls :: "(bytes \<times> json) list \<Rightarrow> bool" where
  "has_tool_calls message = (case map_of message ''tool_calls'' of None \<Rightarrow> False | Some v \<Rightarrow> v \<noteq> JNull)"

definition mutable_role :: "bytes \<Rightarrow> bool" where
  "mutable_role role \<longleftrightarrow> role \<noteq> ''system'' \<and> role \<noteq> ''developer''"

definition path_n :: "bytes \<Rightarrow> nat \<Rightarrow> bytes \<Rightarrow> bytes" where
  "path_n a i b = a @ show_nat i @ b"

definition openai_block :: "'r gjson \<Rightarrow> bytes \<Rightarrow> nat \<Rightarrow> bool \<Rightarrow> nat \<Rightarrow> json \<Rightarrow> projection \<Rightarrow> projection option" where
  "openai_block g body messageIndex mutable blockIndex rawBlock view = do {
     block \<leftarrow> as_obj rawBlock;
     require (map_of block ''type'' = Some (JStr ''text''));
     text \<leftarrow> str_at block ''text'';
     if mutable
     then addTarget g body (path_n (path_n ''messages.'' messageIndex ''.content.'') blockIndex ''.text'')
            messageIndex (int blockIndex) text view
     else Some view
   }"

definition openai_message :: "'r gjson \<Rightarrow> bytes \<Rightarrow> nat \<Rightarrow> json \<Rightarrow> projection \<Rightarrow> projection option" where
  "openai_message g body messageIndex rawMessage view = do {
     message \<leftarrow> as_obj rawMessage;
     role \<leftarrow> str_at message ''role'';
     require (validOpenAIRole role);
     require (validateOpenAIToolFields message role);
     (case map_of message ''content'' of
        None \<Rightarrow> if role = ''assistant'' \<and> has_tool_calls message then Some view else None
      | Some (JStr typed) \<Rightarrow>
          if mutable_role role
          then addTarget g body (path_n ''messages.'' messageIndex ''.content'') messageIndex (-1) typed view
          else Some view
      | Some (JArr typed) \<Rightarrow> oeach (openai_block g body messageIndex (mutable_role role)) 0 typed view
      | Some JNull \<Rightarrow> if role \<noteq> ''assistant'' \<or> \<not> has_tool_calls message then None else Some view
      | Some _ \<Rightarrow> None)
   }"

definition projectOpenAIChat :: "'r gjson \<Rightarrow> bytes \<Rightarrow> projection option" where
  "projectOpenAIChat g body = do {
     root \<leftarrow> decodeObject body;
     messages \<leftarrow> arr_at root ''messages'';
     require (messages \<noteq> []);
     oeach (openai_message g body) 0 messages \<lparr>pj_messages = messages, pj_targets = []\<rparr>
   }"

subsection \<open>OpenAI responses\<close>

definition responsesOutputType :: "json option \<Rightarrow> bool" where
  "responsesOutputType v \<longleftrightarrow>
     v = Some (JStr ''custom_tool_call_output'') \<or> v = Some (JStr ''function_call_output'')
     \<or> v = Some (JStr ''local_shell_call_output'') \<or> v = Some (JStr ''apply_patch_call_output'')"

definition output_block ::
  "'r gjson \<Rightarrow> bytes \<Rightarrow> nat \<Rightarrow> bytes \<Rightarrow> nat \<Rightarrow> json \<Rightarrow> projection \<Rightarrow> projection option" where
  "output_block g body itemIndex callID blockIndex rawBlock view =
     (case as_obj rawBlock of
        None \<Rightarrow> Some view
      | Some block \<Rightarrow>
          if map_of block ''type'' \<noteq> Some (JStr ''input_text'') \<and> map_of block ''type'' \<noteq> Some (JStr ''output_text'')
          then Some view
          else (case str_at block ''text'' of
                  None \<Rightarrow> Some view
                | Some text \<Rightarrow>
                    add_text g body (path_n (path_n ''input.'' itemIndex ''.output.'') blockIndex ''.text'')
                      (tool_message callID (JStr text)) text view))"

definition output_item :: "'r gjson \<Rightarrow> bytes \<Rightarrow> nat \<Rightarrow> json \<Rightarrow> projection \<Rightarrow> projection option" where
  "output_item g body itemIndex rawItem view =
     (case as_obj rawItem of
        None \<Rightarrow> Some view
      | Some item \<Rightarrow>
          if \<not> responsesOutputType (map_of item ''type'') then Some view
          else (case str_at item ''call_id'' of
                  None \<Rightarrow> Some view
                | Some callID \<Rightarrow>
                    if callID = [] then Some view
                    else (case map_of item ''output'' of
                            Some (JStr typed) \<Rightarrow>
                              add_text g body (path_n ''input.'' itemIndex ''.output'') (tool_message callID (JStr typed)) typed view
                          | Some (JArr typed) \<Rightarrow> oeach (output_block g body itemIndex callID) 0 typed view
                          | _ \<Rightarrow> Some view)))"

definition projectResponsesOutputs :: "'r gjson \<Rightarrow> bytes \<Rightarrow> json list \<Rightarrow> projection option" where
  "projectResponsesOutputs g body input = oeach (output_item g body) 0 input \<lparr>pj_messages = [], pj_targets = []\<rparr>"

definition input_text :: "json \<Rightarrow> bytes option" where
  "input_text rawBlock = do {
     block \<leftarrow> as_obj rawBlock;
     require (str_at block ''type'' = Some ''input_text'' \<or> str_at block ''type'' = Some ''output_text'');
     str_at block ''text''
   }"

text \<open>
  A list of several blocks: the targets are added while the message they belong to is only
  appended afterwards, so its index is the number of messages so far.
\<close>

definition input_block ::
  "'r gjson \<Rightarrow> bytes \<Rightarrow> nat \<Rightarrow> bool \<Rightarrow> nat \<Rightarrow> json \<Rightarrow> json list \<times> projection \<Rightarrow> (json list \<times> projection) option" where
  "input_block g body itemIndex mutable blockIndex rawBlock st = do {
     text \<leftarrow> input_text rawBlock;
     view \<leftarrow> (if mutable
       then addTarget g body (path_n (path_n ''input.'' itemIndex ''.content.'') blockIndex ''.text'')
              (length (pj_messages (snd st))) (int blockIndex) text (snd st)
       else Some (snd st));
     Some (fst st @ [text_block text], view)
   }"

definition input_item :: "'r gjson \<Rightarrow> bytes \<Rightarrow> nat \<Rightarrow> json \<Rightarrow> projection \<Rightarrow> projection option" where
  "input_item g body itemIndex rawItem view = do {
     item \<leftarrow> as_obj rawItem;
     require (map_of item ''type'' = Some (JStr ''message''));
     role \<leftarrow> str_at item ''role'';
     require (validOpenAIRole role \<and> role \<noteq> ''tool'');
     (case map_of item ''content'' of
        Some (JStr typed) \<Rightarrow>
          if mutable_role role
          then add_text g body (path_n ''input.'' itemIndex ''.content'') (role_message role (JStr typed)) typed view
          else Some (add_message (role_message role (JStr typed)) view)
      | Some (JArr [single]) \<Rightarrow> do {
          text \<leftarrow> input_text single;
          (if mutable_role role
           then add_text g body (path_n ''input.'' itemIndex ''.content.0.text'') (role_message role (JStr text)) text view
           else Some (add_message (role_message role (JStr text)) view))
        }
      | Some (JArr typed) \<Rightarrow> do {
          (blocks, view') \<leftarrow> oeach (input_block g body itemIndex (mutable_role role)) 0 typed ([], view);
          Some (add_message (role_message role (JArr blocks)) view')
        }
      | _ \<Rightarrow> None)
   }"

definition projectResponses :: "'r gjson \<Rightarrow> bytes \<Rightarrow> projection option" where
  "projectResponses g body = do {
     root \<leftarrow> decodeObject body;
     input \<leftarrow> arr_at root ''input'';
     require (input \<noteq> []);
     (if list_ex (\<lambda>rawItem. case as_obj rawItem of None \<Rightarrow> False | Some item \<Rightarrow> responsesOutputType (map_of item ''type'')) input
      then projectResponsesOutputs g body input
      else oeach (input_item g body) 0 input \<lparr>pj_messages = [], pj_targets = []\<rparr>)
   }"

subsection \<open>Gemini and Antigravity\<close>

definition geminiThought :: "(bytes \<times> json) list \<Rightarrow> bool option" where
  "geminiThought part = (case map_of part ''thought'' of None \<Rightarrow> Some False | Some (JBool b) \<Rightarrow> Some b | _ \<Rightarrow> None)"

definition geminiCallID :: "(bytes \<times> json) list \<Rightarrow> bytes \<Rightarrow> bytes" where
  "geminiCallID v fallback = (case str_at v ''id'' of Some i \<Rightarrow> if i \<noteq> [] then i else fallback | None \<Rightarrow> fallback)"

definition system_part :: "nat \<Rightarrow> json \<Rightarrow> projection \<Rightarrow> projection option" where
  "system_part i rawPart view = do {
     part \<leftarrow> as_obj rawPart;
     Some (case str_at part ''text'' of
             Some text \<Rightarrow> add_message (role_message ''system'' (JStr text)) view
           | None \<Rightarrow> view)
   }"

definition projectGeminiSystem :: "(bytes \<times> json) list \<Rightarrow> projection \<Rightarrow> projection option" where
  "projectGeminiSystem request view =
     (case (case map_of request ''systemInstruction'' of Some v \<Rightarrow> Some v | None \<Rightarrow> map_of request ''system_instruction'') of
        None \<Rightarrow> Some view
      | Some rawSystem \<Rightarrow> do {
          sys \<leftarrow> as_obj rawSystem;
          parts \<leftarrow> arr_at sys ''parts'';
          oeach system_part 0 parts view
        })"

definition gemini_call :: "bytes \<Rightarrow> json \<Rightarrow> projection \<Rightarrow> projection option" where
  "gemini_call role rawCall view = do {
     require (role = ''model'');
     call \<leftarrow> as_obj rawCall;
     name \<leftarrow> str_at call ''name'';
     arguments \<leftarrow> map_of call ''args'';
     require (name \<noteq> []);
     Some (add_message (call_message (function_call (geminiCallID call name) name arguments)) view)
   }"

definition gemini_response :: "'r gjson \<Rightarrow> bytes \<Rightarrow> bytes \<Rightarrow> bytes \<Rightarrow> json \<Rightarrow> projection \<Rightarrow> projection option" where
  "gemini_response g body path role rawResponse view = do {
     require (role = ''user'');
     response \<leftarrow> as_obj rawResponse;
     (let name = (case str_at response ''name'' of Some n \<Rightarrow> n | None \<Rightarrow> []);
          callID = geminiCallID response name
      in do {
        payload \<leftarrow> obj_at response ''response'';
        text \<leftarrow> str_at payload ''result'';
        require (callID \<noteq> []);
        add_text g body path (tool_message callID (JStr text)) text view
      })
   }"

definition gemini_part ::
  "'r gjson \<Rightarrow> bytes \<Rightarrow> bytes \<Rightarrow> nat \<Rightarrow> bytes \<Rightarrow> nat \<Rightarrow> json \<Rightarrow> projection \<Rightarrow> projection option" where
  "gemini_part g body prefix contentIndex role partIndex rawPart view = do {
     part \<leftarrow> as_obj rawPart;
     (let at = path_n (path_n (prefix @ ''contents.'') contentIndex ''.parts.'') partIndex
      in case map_of part ''text'' of
           Some rawText \<Rightarrow>
             (case rawText of
                JStr text \<Rightarrow> do {
                  thought \<leftarrow> geminiThought part;
                  (if thought then Some view
                   else add_text g body (at ''.text'')
                          (role_message (if role = ''model'' then ''assistant'' else role) (JStr text)) text view)
                }
              | _ \<Rightarrow> None)
         | None \<Rightarrow>
             (case map_of part ''functionCall'' of
                Some rawCall \<Rightarrow> gemini_call role rawCall view
              | None \<Rightarrow>
                  (case map_of part ''functionResponse'' of
                     Some rawResponse \<Rightarrow> gemini_response g body (at ''.functionResponse.response.result'') role rawResponse view
                   | None \<Rightarrow> Some view)))
   }"

definition gemini_content :: "'r gjson \<Rightarrow> bytes \<Rightarrow> bytes \<Rightarrow> nat \<Rightarrow> json \<Rightarrow> projection \<Rightarrow> projection option" where
  "gemini_content g body prefix contentIndex rawContent view = do {
     content \<leftarrow> as_obj rawContent;
     role \<leftarrow> str_at content ''role'';
     require (role = ''user'' \<or> role = ''model'');
     parts \<leftarrow> arr_at content ''parts'';
     oeach (gemini_part g body prefix contentIndex role) 0 parts view
   }"

definition projectGeminiEnvelope :: "'r gjson \<Rightarrow> bytes \<Rightarrow> (bytes \<times> json) list \<Rightarrow> bytes \<Rightarrow> projection option" where
  "projectGeminiEnvelope g body request prefix = do {
     view \<leftarrow> projectGeminiSystem request \<lparr>pj_messages = [], pj_targets = []\<rparr>;
     contents \<leftarrow> arr_at request ''contents'';
     require (contents \<noteq> []);
     oeach (gemini_content g body prefix) 0 contents view
   }"

definition projectGemini :: "'r gjson \<Rightarrow> bytes \<Rightarrow> projection option" where
  "projectGemini g body = do { root \<leftarrow> decodeObject body; projectGeminiEnvelope g body root [] }"

definition projectAntigravity :: "'r gjson \<Rightarrow> bytes \<Rightarrow> projection option" where
  "projectAntigravity g body = do {
     root \<leftarrow> decodeObject body;
     request \<leftarrow> obj_at root ''request'';
     projectGeminiEnvelope g body request ''request.''
   }"

subsection \<open>Claude\<close>

definition projectClaudeToolUse :: "(bytes \<times> json) list \<Rightarrow> json option" where
  "projectClaudeToolUse block = do {
     i \<leftarrow> str_at block ''id'';
     name \<leftarrow> str_at block ''name'';
     input \<leftarrow> map_of block ''input'';
     require (i \<noteq> [] \<and> name \<noteq> []);
     Some (function_call i name input)
   }"

definition text_of_block :: "json \<Rightarrow> bytes option" where
  "text_of_block rawBlock = do {
     block \<leftarrow> as_obj rawBlock;
     require (map_of block ''type'' = Some (JStr ''text''));
     str_at block ''text''
   }"

definition result_block ::
  "'r gjson \<Rightarrow> bytes \<Rightarrow> nat \<Rightarrow> nat \<Rightarrow> nat \<Rightarrow> json \<Rightarrow> json list \<times> projection \<Rightarrow> (json list \<times> projection) option" where
  "result_block g body messageIndex blockIndex nestedIndex rawNested st = do {
     text \<leftarrow> text_of_block rawNested;
     view \<leftarrow> addTarget g body
       (path_n (path_n (path_n ''messages.'' messageIndex ''.content.'') blockIndex ''.content.'') nestedIndex ''.text'')
       (length (pj_messages (snd st))) (int nestedIndex) text (snd st);
     Some (fst st @ [text_block text], view)
   }"

definition projectClaudeToolResult ::
  "'r gjson \<Rightarrow> bytes \<Rightarrow> nat \<Rightarrow> nat \<Rightarrow> (bytes \<times> json) list \<Rightarrow> projection \<Rightarrow> projection option" where
  "projectClaudeToolResult g body messageIndex blockIndex block view = do {
     toolUseID \<leftarrow> str_at block ''tool_use_id'';
     require (toolUseID \<noteq> []);
     content \<leftarrow> map_of block ''content'';
     (case content of
        JStr typed \<Rightarrow>
          add_text g body (path_n (path_n ''messages.'' messageIndex ''.content.'') blockIndex ''.content'')
            (tool_message toolUseID (JStr typed)) typed view
      | JArr typed \<Rightarrow> do {
          (blocks, view') \<leftarrow> oeach (result_block g body messageIndex blockIndex) 0 typed ([], view);
          Some (add_message (tool_message toolUseID (JArr blocks)) view')
        }
      | _ \<Rightarrow> None)
   }"

definition claude_block ::
  "'r gjson \<Rightarrow> bytes \<Rightarrow> nat \<Rightarrow> bytes \<Rightarrow> nat \<Rightarrow> json \<Rightarrow> projection \<Rightarrow> projection option" where
  "claude_block g body messageIndex role blockIndex rawBlock view = do {
     block \<leftarrow> as_obj rawBlock;
     kind \<leftarrow> str_at block ''type'';
     (if kind = ''text'' then do {
        text \<leftarrow> str_at block ''text'';
        add_text g body (path_n (path_n ''messages.'' messageIndex ''.content.'') blockIndex ''.text'')
          (role_message role (JStr text)) text view
      }
      else if kind = ''tool_use'' then do {
        require (role = ''assistant'');
        call \<leftarrow> projectClaudeToolUse block;
        Some (add_message (call_message call) view)
      }
      else if kind = ''tool_result'' then do {
        require (role = ''user'');
        projectClaudeToolResult g body messageIndex blockIndex block view
      }
      else None)
   }"

definition claude_message :: "'r gjson \<Rightarrow> bytes \<Rightarrow> nat \<Rightarrow> json \<Rightarrow> projection \<Rightarrow> projection option" where
  "claude_message g body messageIndex rawMessage view = do {
     message \<leftarrow> as_obj rawMessage;
     role \<leftarrow> str_at message ''role'';
     require (role = ''user'' \<or> role = ''assistant'');
     content \<leftarrow> map_of message ''content'';
     (case content of
        JStr typed \<Rightarrow>
          add_text g body (path_n ''messages.'' messageIndex ''.content'') (role_message role (JStr typed)) typed view
      | JArr typed \<Rightarrow> oeach (claude_block g body messageIndex role) 0 typed view
      | _ \<Rightarrow> None)
   }"

definition claude_system_block :: "nat \<Rightarrow> json \<Rightarrow> projection \<Rightarrow> projection option" where
  "claude_system_block i rawBlock view = do {
     text \<leftarrow> text_of_block rawBlock;
     Some (add_message (role_message ''system'' (JStr text)) view)
   }"

definition claude_system :: "(bytes \<times> json) list \<Rightarrow> projection \<Rightarrow> projection option" where
  "claude_system root view =
     (case map_of root ''system'' of
        None \<Rightarrow> Some view
      | Some (JStr typed) \<Rightarrow> Some (add_message (role_message ''system'' (JStr typed)) view)
      | Some (JArr typed) \<Rightarrow> oeach claude_system_block 0 typed view
      | Some _ \<Rightarrow> None)"

definition projectClaude :: "'r gjson \<Rightarrow> bytes \<Rightarrow> projection option" where
  "projectClaude g body = do {
     root \<leftarrow> decodeObject body;
     view \<leftarrow> claude_system root \<lparr>pj_messages = [], pj_targets = []\<rparr>;
     messages \<leftarrow> arr_at root ''messages'';
     require (messages \<noteq> []);
     oeach (claude_message g body) 0 messages view
   }"

definition project :: "'r gjson \<Rightarrow> bytes \<Rightarrow> pair \<Rightarrow> projection option" where
  "project g body pr =
     (let to = pair_to pr
      in if to = ''openai'' then projectOpenAIChat g body
         else if to = ''openai-response'' \<or> to = ''codex'' then projectResponses g body
         else if to = ''claude'' then projectClaude g body
         else if to = ''gemini'' then projectGemini g body
         else projectAntigravity g body)"

subsection \<open>The reply\<close>

text \<open>\<open>message["content"] = replacement\<close> and \<open>block["text"] = replacement\<close>, with the text that was there.\<close>

definition replaceProjectedText :: "json list \<Rightarrow> text_target \<Rightarrow> bytes \<Rightarrow> (bytes \<times> json list) option" where
  "replaceProjectedText messages target new = do {
     require (tt_message target < length messages);
     message \<leftarrow> as_obj (messages ! tt_message target);
     (if tt_block target < 0 then do {
        text \<leftarrow> str_at message ''content'';
        Some (text, messages[tt_message target := JObj (insert_member ''content'' (JStr new) message)])
      }
      else do {
        blocks \<leftarrow> arr_at message ''content'';
        require (nat (tt_block target) < length blocks);
        block \<leftarrow> as_obj (blocks ! nat (tt_block target));
        text \<leftarrow> str_at block ''text'';
        Some (text, messages[tt_message target := JObj (insert_member ''content''
          (JArr (blocks[nat (tt_block target) := JObj (insert_member ''text'' (JStr new) block)])) message)])
      })
   }"

fun mask_targets :: "text_target list \<Rightarrow> json list \<Rightarrow> json list \<Rightarrow> (bytes list \<times> json list \<times> json list) option" where
  "mask_targets [] actual expected = Some ([], actual, expected)"
| "mask_targets (target # rest) actual expected = do {
     (text, actual') \<leftarrow> replaceProjectedText actual target maskedText;
     require (\<not> (tt_original target \<noteq> [] \<and> text = []));
     (_, expected') \<leftarrow> replaceProjectedText expected target maskedText;
     (replacements, actual'', expected'') \<leftarrow> mask_targets rest actual' expected';
     Some (text # replacements, actual'', expected'')
   }"

definition cloneValues :: "json list \<Rightarrow> json list option" where
  "cloneValues vs = (case decodeValue (json_marshal (JArr vs)) of Some (JArr cloned) \<Rightarrow> Some cloned | _ \<Rightarrow> None)"

text \<open>\<open>decodeValue\<close> of a raw message: the client hands on the value its text denotes.\<close>

definition decodeRaw :: "json \<Rightarrow> json option" where
  "decodeRaw v = (if unique_keys v then Some (to_any v) else None)"

fun decode_all :: "json list \<Rightarrow> json list option" where
  "decode_all [] = Some []"
| "decode_all (raw # raws) = do { v \<leftarrow> decodeRaw raw; vs \<leftarrow> decode_all raws; Some (v # vs) }"

definition validate :: "projection \<Rightarrow> json list \<Rightarrow> bytes list option" where
  "validate view rawMessages = do {
     require (length rawMessages = length (pj_messages view));
     actual \<leftarrow> decode_all rawMessages;
     expected \<leftarrow> cloneValues (pj_messages view);
     (replacements, actual', expected') \<leftarrow> mask_targets (pj_targets view) actual expected;
     require (expected' = actual');
     Some replacements
   }"

subsection \<open>The rewrite\<close>

fun changed_edits :: "text_target list \<Rightarrow> bytes list \<Rightarrow> edit list" where
  "changed_edits (target # targets) (new # news) =
     (if new = tt_original target then changed_edits targets news
      else \<lparr>ed_start = tt_start target, ed_end = tt_end target, ed_raw = json_string new\<rparr> # changed_edits targets news)"
| "changed_edits _ _ = []"

fun edits_in_order :: "nat \<Rightarrow> nat \<Rightarrow> edit list \<Rightarrow> bool" where
  "edits_in_order len previousEnd [] = True"
| "edits_in_order len previousEnd (current # rest) =
     (if ed_start current < previousEnd \<or> ed_end current < ed_start current \<or> ed_end current > len then False
      else edits_in_order len (ed_end current) rest)"

definition rewrite_body :: "projection \<Rightarrow> bytes \<Rightarrow> bytes list \<Rightarrow> bytes \<times> bool" where
  "rewrite_body view body replacements =
     (if length replacements \<noteq> length (pj_targets view) then (body, False)
      else
        let edits = sort_key ed_start (changed_edits (pj_targets view) replacements)
        in if edits = [] then (body, False)
           else if \<not> edits_in_order (length body) 0 edits then (body, False)
           else (apply_edits body 0 edits, True))"

subsection \<open>Apply\<close>

definition wire_request :: "projection \<Rightarrow> bytes \<Rightarrow> bytes" where
  "wire_request view model =
     ''{'' @ json_string ''messages'' @ '':'' @ json_marshal (JArr (pj_messages view)) @ '',''
     @ json_string ''model'' @ '':'' @ json_string model @ ''}''"

text \<open>The messages the validator was called with, when the exchange got that far.\<close>

definition received :: "call_env \<Rightarrow> json list" where
  "received env = (case ce_do env of Inr r \<Rightarrow> fst (decodeMessages (hr_body r)) | Inl _ \<Rightarrow> [])"

definition adapter_send ::
  "projection \<Rightarrow> bytes \<Rightarrow> bytes \<Rightarrow> call_env \<Rightarrow> client \<Rightarrow> bytes \<times> headroom_outcome \<times> client" where
  "adapter_send view body model env c =
     (case Compress (wire_request view model) (\<lambda>ms. validate view ms \<noteq> None) env c of
        (outcome, c') \<Rightarrow>
          if outcome \<noteq> OutcomeApplied then (body, outcome, c')
          else
            let replacements = (case validate view (received env) of None \<Rightarrow> [] | Some rs \<Rightarrow> rs)
            in case rewrite_body view body replacements of
                 (out, changed) \<Rightarrow>
                   if \<not> changed then (body, OutcomeNoChange, c')
                   else if length out > maxPayloadBytes then (body, OutcomeResponseTooLarge, c')
                   else (out, OutcomeApplied, c'))"

definition adapter_apply ::
  "'r gjson \<Rightarrow> bytes \<Rightarrow> pair \<Rightarrow> bytes \<Rightarrow> call_env \<Rightarrow> client \<Rightarrow> bytes \<times> headroom_outcome \<times> client" where
  "adapter_apply g body pr model env c =
     (if body = [] \<or> \<not> json_valid body then (body, OutcomeUnsupportedStructure, c)
      else if length body > maxPayloadBytes then (body, OutcomeRequestTooLarge, c)
      else if \<not> Eligible pr then (body, OutcomeUnsupportedFormat, c)
      else if \<not> List.member [''openai'', ''openai-response'', ''codex'', ''claude'', ''gemini'', ''antigravity''] (pair_to pr)
        then (body, OutcomeUnsupportedFormat, c)
      else (case project g body pr of
        None \<Rightarrow> (body, OutcomeUnsupportedStructure, c)
      | Some view \<Rightarrow>
          if pj_targets view = [] then (body, OutcomeUnsupportedStructure, c)
          else adapter_send view body model env c))"

subsection \<open>What Apply does to the body\<close>

lemma edits_in_order_chain: "edits_in_order len pe es \<Longrightarrow> pe \<le> len \<Longrightarrow> chain len pe es"
  by (induction len pe es rule: edits_in_order.induct) (auto split: if_splits)

lemma changed_edits_set:
  "e \<in> set (changed_edits ts news) \<Longrightarrow> \<exists>(t, new) \<in> set (zip ts news). new \<noteq> tt_original t
     \<and> e = \<lparr>ed_start = tt_start t, ed_end = tt_end t, ed_raw = json_string new\<rparr>"
  by (induction ts news rule: changed_edits.induct) (auto split: if_splits)

lemma mask_targets_texts:
  "mask_targets ts actual expected = Some (texts, actual', expected') \<Longrightarrow>
   length texts = length ts \<and> (\<forall>(t, new) \<in> set (zip ts texts). tt_original t \<noteq> [] \<longrightarrow> new \<noteq> [])"
proof (induction ts actual expected arbitrary: texts actual' expected' rule: mask_targets.induct)
  case (2 target rest actual expected)
  from 2(2) obtain got a1 b e1 texts2 a2 e2 where
    1: "replaceProjectedText actual target maskedText = Some (got, a1)"
       "require (\<not> (tt_original target \<noteq> [] \<and> got = [])) = Some ()"
       "replaceProjectedText expected target maskedText = Some (b, e1)"
       "mask_targets rest a1 e1 = Some (texts2, a2, e2)" "texts = got # texts2"
    by (auto simp: bind_eq_Some_conv)
  from 2(1) [OF 1(1) refl 1(2,3) refl 1(4)] have "length texts2 = length rest \<and> (\<forall>(t, new) \<in> set (zip rest texts2). tt_original t \<noteq> [] \<longrightarrow> new \<noteq> [])" by blast
  moreover have "tt_original target \<noteq> [] \<longrightarrow> got \<noteq> []" using 1(2) by (auto simp: require_def split: if_splits)
  ultimately show ?case using 1(5) by auto
qed simp

lemma validate_texts:
  "validate view ms = Some texts \<Longrightarrow> length texts = length (pj_targets view)
     \<and> (\<forall>(t, new) \<in> set (zip (pj_targets view) texts). tt_original t \<noteq> [] \<longrightarrow> new \<noteq> [])"
  by (fastforce simp: validate_def bind_eq_Some_conv dest: mask_targets_texts)

lemma rewrite_body_weave:
  assumes "rewrite_body view body texts = (out, True)"
  shows "\<exists>segs es. length segs = Suc (length es) \<and> body = weave segs (map (old_text body) es) \<and> out = weave segs (map ed_raw es)
     \<and> es \<noteq> [] \<and> set es \<subseteq> set (changed_edits (pj_targets view) texts)"
proof -
  let ?es = "sort_key ed_start (changed_edits (pj_targets view) texts)"
  have h: "edits_in_order (length body) 0 ?es" "out = apply_edits body 0 ?es" "?es \<noteq> []"
    using assms by (auto simp: rewrite_body_def Let_def split: if_splits)
  from splice_chain [OF edits_in_order_chain [OF h(1)]] h(2,3) show ?thesis by (metis le0 order_refl set_sort)
qed

text \<open>One accepted edit: a target of the projection, a new text that is not blank unless the old one was.\<close>

definition target_edit :: "projection \<Rightarrow> edit \<Rightarrow> bool" where
  "target_edit view e \<longleftrightarrow> (\<exists>t new. t \<in> set (pj_targets view) \<and> new \<noteq> tt_original t \<and> (new = [] \<longrightarrow> tt_original t = [])
     \<and> e = \<lparr>ed_start = tt_start t, ed_end = tt_end t, ed_raw = json_string new\<rparr>)"

lemma changed_edits_targets:
  assumes "validate view ms = Some texts"
  shows "list_all (target_edit view) (changed_edits (pj_targets view) texts)"
proof -
  have "target_edit view e" if "e \<in> set (changed_edits (pj_targets view) texts)" for e
  proof -
    from changed_edits_set [OF that] obtain t new where tn: "(t, new) \<in> set (zip (pj_targets view) texts)" "new \<noteq> tt_original t"
      "e = \<lparr>ed_start = tt_start t, ed_end = tt_end t, ed_raw = json_string new\<rparr>" by blast
    with validate_texts [OF assms] have "new = [] \<longrightarrow> tt_original t = []" by blast
    moreover have "t \<in> set (pj_targets view)" using tn(1) by (rule set_zip_leftD)
    ultimately show ?thesis using tn unfolding target_edit_def by blast
  qed
  then show ?thesis by (simp add: list_all_iff)
qed

lemma adapter_send_cases:
  assumes "adapter_send view body model env c = (out, oc, c')"
  shows "oc \<noteq> OutcomeApplied \<and> out = body
    \<or> oc = OutcomeApplied \<and> length out \<le> maxPayloadBytes
      \<and> Compress (wire_request view model) (\<lambda>ms. validate view ms \<noteq> None) env c = (OutcomeApplied, c')
      \<and> rewrite_body view body (case validate view (received env) of None \<Rightarrow> [] | Some rs \<Rightarrow> rs) = (out, True)"
proof -
  obtain oc1 c1 where 1: "Compress (wire_request view model) (\<lambda>ms. validate view ms \<noteq> None) env c = (oc1, c1)" by fastforce
  obtain o2 ch where 2: "rewrite_body view body (case validate view (received env) of None \<Rightarrow> [] | Some rs \<Rightarrow> rs) = (o2, ch)" by fastforce
  show ?thesis
    using assms unfolding adapter_send_def Let_def 1 2 split_conv by (cases "oc1 = OutcomeApplied"; cases ch) (simp_all split: if_splits)
qed

lemma adapter_apply_cases:
  "(\<exists>oc. adapter_apply g body pr model env c = (body, oc, c) \<and> oc \<noteq> OutcomeApplied)
   \<or> (\<exists>view. project g body pr = Some view \<and> pj_targets view \<noteq> []
        \<and> adapter_apply g body pr model env c = adapter_send view body model env c)"
proof (cases "project g body pr")
  case None
  then show ?thesis by (simp add: adapter_apply_def)
next
  case (Some view)
  then show ?thesis by (cases "pj_targets view = []") (simp_all add: adapter_apply_def)
qed


end
