(* ===== verification/Config.thy ===== *)
theory Config
  imports Endpoint GoJson Prompts
begin

text \<open>
  \<open>internal/config/config.go\<close>: parsing, publication and digest of the plugin configuration.  The
  YAML reader (\<open>gopkg.in/yaml.v3\<close>) is not part of the program: its nodes and the functions the
  code calls on them are the fields of the parameter \<open>yaml\<close>, and a theorem about parsing holds for
  every such reader.  SHA-256 is the parameter \<open>hash\<close>.  A nil slice and an empty slice are both the
  empty list, so the code's defensive copies are the identity here.
\<close>

subsection \<open>Configuration\<close>

record config =
  RTKEnabled :: bool
  HeadroomEnabled :: bool
  HeadroomURL :: bytes
  HeadroomTimeoutMS :: int
  CavemanEnabled :: bool
  cfg_CavemanLevel :: bytes
  PonytailEnabled :: bool
  cfg_PonytailLevel :: bytes
  ModelAllowlist :: "bytes list"
  RawYAML :: bytes

definition DefaultHeadroomURL :: bytes where "DefaultHeadroomURL = ''http://127.0.0.1:8787''"
definition DefaultHeadroomTimeoutMS :: int where "DefaultHeadroomTimeoutMS = 1500"
definition MinHeadroomTimeoutMS :: int where "MinHeadroomTimeoutMS = 100"
definition MaxHeadroomTimeoutMS :: int where "MaxHeadroomTimeoutMS = 1500"

definition cavemanLevels :: "bytes list" where
  "cavemanLevels = [''lite'', ''full'', ''ultra'', ''wenyan-lite'', ''wenyan'', ''wenyan-ultra'']"

definition ponytailLevels :: "bytes list" where
  "ponytailLevels = [''lite'', ''full'', ''ultra'']"

definition Defaults :: config where
  "Defaults = \<lparr>RTKEnabled = False, HeadroomEnabled = False, HeadroomURL = DefaultHeadroomURL,
     HeadroomTimeoutMS = DefaultHeadroomTimeoutMS, CavemanEnabled = False, cfg_CavemanLevel = ''full'',
     PonytailEnabled = False, cfg_PonytailLevel = ''full'', ModelAllowlist = [], RawYAML = []\<rparr>"

definition HeadroomEndpoint :: "config \<Rightarrow> bytes" where
  "HeadroomEndpoint c = headroom_endpoint (HeadroomURL c)"

definition AllowsModel :: "config \<Rightarrow> bytes \<Rightarrow> bool" where
  "AllowsModel c model = (if ModelAllowlist c = [] then True else list_ex (\<lambda>allowed. model = allowed) (ModelAllowlist c))"

subsection \<open>The YAML reader\<close>

datatype yaml_kind = ScalarNode | SequenceNode | MappingNode | OtherNode

text \<open>Decoding the next document: the content of the document node, the end of input, or an error.\<close>

datatype 'n yaml_document = YamlDocument "'n list" | YamlEOF | YamlError

record 'n yaml =
  ym_first :: "bytes \<Rightarrow> 'n yaml_document"
  ym_second :: "bytes \<Rightarrow> 'n yaml_document"
  ym_kind :: "'n \<Rightarrow> yaml_kind"
  ym_tag :: "'n \<Rightarrow> bytes"
  ym_value :: "'n \<Rightarrow> bytes"
  ym_content :: "'n \<Rightarrow> 'n option list"
  ym_int :: "'n \<Rightarrow> int option"

datatype config_error = DecodeError | TwoDocuments | RootNotObject | Duplicated bytes | NotBoolean bytes
  | NotInteger bytes | NotString bytes | NotStringArray bytes | NotOnlyStrings bytes | BlankModel bytes
  | FieldURL bytes url_error | TimeoutRange bytes | Unsupported bytes bytes

text \<open>The content of the root mapping; \<open>None\<close> stands for the empty mapping node of an empty document.\<close>

definition decodeDocument :: "'n yaml \<Rightarrow> bytes \<Rightarrow> config_error + 'n option" where
  "decodeDocument y raw =
     (case ym_first y raw of
        YamlDocument [] \<Rightarrow> Inr None
      | YamlDocument (root # _) \<Rightarrow>
          (case ym_second y raw of
             YamlEOF \<Rightarrow> Inr (Some root)
           | YamlDocument _ \<Rightarrow> Inl TwoDocuments
           | YamlError \<Rightarrow> Inl DecodeError)
      | _ \<Rightarrow> Inl DecodeError)"

definition known_fields :: "bytes list" where
  "known_fields = [''rtk_enabled'', ''headroom_enabled'', ''headroom_url'', ''headroom_timeout_ms'',
     ''caveman_enabled'', ''caveman_level'', ''ponytail_enabled'', ''ponytail_level'', ''model_allowlist'']"

definition isKnownField :: "bytes \<Rightarrow> bool" where
  "isKnownField key = List.member known_fields key"

text \<open>\<open>strconv.ParseBool\<close>.\<close>

definition parse_bool :: "bytes \<Rightarrow> bool option" where
  "parse_bool s =
     (if List.member [''1'', ''t'', ''T'', ''TRUE'', ''true'', ''True''] s then Some True
      else if List.member [''0'', ''f'', ''F'', ''FALSE'', ''false'', ''False''] s then Some False
      else None)"

definition is_scalar :: "'n yaml \<Rightarrow> bytes \<Rightarrow> 'n option \<Rightarrow> bool" where
  "is_scalar y tag node = (case node of None \<Rightarrow> False | Some n \<Rightarrow> ym_kind y n = ScalarNode \<and> ym_tag y n = tag)"

definition decodeBool :: "'n yaml \<Rightarrow> bytes \<Rightarrow> 'n option \<Rightarrow> config_error + bool" where
  "decodeBool y field node =
     (if \<not> is_scalar y ''!!bool'' node then Inl (NotBoolean field)
      else (case parse_bool (ym_value y (the node)) of None \<Rightarrow> Inl (NotBoolean field) | Some b \<Rightarrow> Inr b))"

definition decodeInt :: "'n yaml \<Rightarrow> bytes \<Rightarrow> 'n option \<Rightarrow> config_error + int" where
  "decodeInt y field node =
     (if \<not> is_scalar y ''!!int'' node then Inl (NotInteger field)
      else (case ym_int y (the node) of None \<Rightarrow> Inl (NotInteger field) | Some i \<Rightarrow> Inr i))"

definition decodeString :: "'n yaml \<Rightarrow> bytes \<Rightarrow> 'n option \<Rightarrow> config_error + bytes" where
  "decodeString y field node =
     (if \<not> is_scalar y ''!!str'' node then Inl (NotString field) else Inr (ym_value y (the node)))"

fun decode_items :: "'n yaml \<Rightarrow> bytes \<Rightarrow> 'n option list \<Rightarrow> bytes list \<Rightarrow> config_error + bytes list" where
  "decode_items y field [] values = Inr values"
| "decode_items y field (item # items) values =
     (if \<not> is_scalar y ''!!str'' item then Inl (NotOnlyStrings field)
      else if trim_space (ym_value y (the item)) = [] then Inl (BlankModel field)
      else decode_items y field items (values @ [ym_value y (the item)]))"

definition decodeStringList :: "'n yaml \<Rightarrow> bytes \<Rightarrow> 'n option \<Rightarrow> config_error + bytes list" where
  "decodeStringList y field node =
     (case node of
        None \<Rightarrow> Inl (NotStringArray field)
      | Some n \<Rightarrow> if ym_kind y n \<noteq> SequenceNode then Inl (NotStringArray field)
                  else decode_items y field (ym_content y n) [])"

subsection \<open>Parse\<close>

definition sum_bind :: "'e + 'a \<Rightarrow> ('a \<Rightarrow> 'e + 'b) \<Rightarrow> 'e + 'b" where
  "sum_bind r f = (case r of Inl e \<Rightarrow> Inl e | Inr a \<Rightarrow> f a)"

text \<open>The switch on one known key.\<close>

definition parse_field :: "'n yaml \<Rightarrow> bytes \<Rightarrow> 'n option \<Rightarrow> config \<Rightarrow> config_error + config" where
  "parse_field y key node cfg =
     (if key = ''rtk_enabled'' then sum_bind (decodeBool y key node) (\<lambda>v. Inr (cfg\<lparr>RTKEnabled := v\<rparr>))
      else if key = ''headroom_enabled'' then sum_bind (decodeBool y key node) (\<lambda>v. Inr (cfg\<lparr>HeadroomEnabled := v\<rparr>))
      else if key = ''headroom_url'' then
        sum_bind (decodeString y key node) (\<lambda>v.
          case normalizeHeadroomURL v of Inl e \<Rightarrow> Inl (FieldURL key e) | Inr u \<Rightarrow> Inr (cfg\<lparr>HeadroomURL := u\<rparr>))
      else if key = ''headroom_timeout_ms'' then
        sum_bind (decodeInt y key node) (\<lambda>v.
          if v < MinHeadroomTimeoutMS \<or> v > MaxHeadroomTimeoutMS then Inl (TimeoutRange key)
          else Inr (cfg\<lparr>HeadroomTimeoutMS := v\<rparr>))
      else if key = ''caveman_enabled'' then sum_bind (decodeBool y key node) (\<lambda>v. Inr (cfg\<lparr>CavemanEnabled := v\<rparr>))
      else if key = ''caveman_level'' then
        sum_bind (decodeString y key node) (\<lambda>v.
          if \<not> List.member cavemanLevels v then Inl (Unsupported key v) else Inr (cfg\<lparr>cfg_CavemanLevel := v\<rparr>))
      else if key = ''ponytail_enabled'' then sum_bind (decodeBool y key node) (\<lambda>v. Inr (cfg\<lparr>PonytailEnabled := v\<rparr>))
      else if key = ''ponytail_level'' then
        sum_bind (decodeString y key node) (\<lambda>v.
          if \<not> List.member ponytailLevels v then Inl (Unsupported key v) else Inr (cfg\<lparr>cfg_PonytailLevel := v\<rparr>))
      else if key = ''model_allowlist'' then
        sum_bind (decodeStringList y key node) (\<lambda>v. Inr (cfg\<lparr>ModelAllowlist := v\<rparr>))
      else Inr cfg)"

fun parse_fields :: "'n yaml \<Rightarrow> 'n option list \<Rightarrow> bytes list \<Rightarrow> config \<Rightarrow> config_error + config" where
  "parse_fields y (keyNode # valueNode # rest) seen cfg =
     (case keyNode of
        None \<Rightarrow> parse_fields y rest seen cfg
      | Some k \<Rightarrow>
          if ym_kind y k \<noteq> ScalarNode \<or> \<not> isKnownField (ym_value y k) then parse_fields y rest seen cfg
          else if List.member seen (ym_value y k) then Inl (Duplicated (ym_value y k))
          else (case parse_field y (ym_value y k) valueNode cfg of
                  Inl e \<Rightarrow> Inl e
                | Inr cfg' \<Rightarrow> parse_fields y rest (ym_value y k # seen) cfg'))"
| "parse_fields y _ seen cfg = Inr cfg"

definition Parse :: "'n yaml \<Rightarrow> bytes \<Rightarrow> config_error + config" where
  "Parse y raw =
     (if trim_space raw = [] then Inr Defaults
      else sum_bind (decodeDocument y raw) (\<lambda>root.
        case root of
          None \<Rightarrow> Inr (Defaults\<lparr>RawYAML := raw\<rparr>)
        | Some n \<Rightarrow>
            if ym_kind y n \<noteq> MappingNode then Inl RootNotObject
            else sum_bind (parse_fields y (ym_content y n) [] Defaults) (\<lambda>cfg. Inr (cfg\<lparr>RawYAML := raw\<rparr>))))"

subsection \<open>Digest\<close>

definition json_bool :: "bool \<Rightarrow> bytes" where "json_bool b = (if b then ''true'' else ''false'')"

definition json_key :: "bytes \<Rightarrow> bytes" where "json_key k = quote # k @ [quote, CHR '':'']"

definition CanonicalJSON :: "config \<Rightarrow> bytes" where
  "CanonicalJSON cfg =
     ''{'' @ json_key ''rtk_enabled'' @ json_bool (RTKEnabled cfg)
     @ '','' @ json_key ''headroom_enabled'' @ json_bool (HeadroomEnabled cfg)
     @ '','' @ json_key ''headroom_url'' @ json_quote False (HeadroomURL cfg)
     @ '','' @ json_key ''headroom_timeout_ms'' @ show_int (HeadroomTimeoutMS cfg)
     @ '','' @ json_key ''caveman_enabled'' @ json_bool (CavemanEnabled cfg)
     @ '','' @ json_key ''caveman_level'' @ json_quote False (cfg_CavemanLevel cfg)
     @ '','' @ json_key ''ponytail_enabled'' @ json_bool (PonytailEnabled cfg)
     @ '','' @ json_key ''ponytail_level'' @ json_quote False (cfg_PonytailLevel cfg)
     @ '','' @ json_key ''model_allowlist'' @ ''['' @ join '','' (map (json_quote False) (ModelAllowlist cfg)) @ '']}''"

definition hex_encode :: "bytes \<Rightarrow> bytes" where
  "hex_encode s = concat (map (\<lambda>c. [hex_digit (of_char c div 16), hex_digit (of_char c mod 16)]) s)"

definition Digest :: "(bytes \<Rightarrow> bytes) \<Rightarrow> config \<Rightarrow> bytes" where
  "Digest hash cfg = hex_encode (hash (CanonicalJSON cfg))"

subsection \<open>The store\<close>

record store_state =
  sst_config :: config
  sst_valid :: bool
  sst_digest :: bytes

definition newStoreState :: "(bytes \<Rightarrow> bytes) \<Rightarrow> config \<Rightarrow> bool \<Rightarrow> store_state" where
  "newStoreState hash cfg valid = \<lparr>sst_config = cfg, sst_valid = valid, sst_digest = Digest hash cfg\<rparr>"

text \<open>The store is its atomic pointer.\<close>

type_synonym store = "store_state option"

definition publish :: "(bytes \<Rightarrow> bytes) \<Rightarrow> config \<Rightarrow> store \<Rightarrow> store" where
  "publish hash cfg s = Some (newStoreState hash cfg True)"

definition NewStore :: "'n yaml \<Rightarrow> (bytes \<Rightarrow> bytes) \<Rightarrow> bytes \<Rightarrow> store \<times> config_error option" where
  "NewStore y hash raw =
     (let s = Some (newStoreState hash Defaults True)
      in if trim_space raw = [] then (s, None)
         else (case Parse y raw of
                 Inl e \<Rightarrow> (Some (newStoreState hash Defaults False), Some e)
               | Inr parsed \<Rightarrow> (publish hash parsed s, None)))"

definition Reload :: "'n yaml \<Rightarrow> (bytes \<Rightarrow> bytes) \<Rightarrow> bytes \<Rightarrow> store \<Rightarrow> store \<times> config_error option" where
  "Reload y hash raw s =
     (case Parse y raw of
        Inl e \<Rightarrow> (s, Some e)
      | Inr parsed \<Rightarrow> (publish hash parsed s, None))"

definition config_Snapshot :: "store \<Rightarrow> config" where
  "config_Snapshot s = (case s of None \<Rightarrow> Defaults | Some st \<Rightarrow> sst_config st)"

definition StatusSnapshot :: "(bytes \<Rightarrow> bytes) \<Rightarrow> store \<Rightarrow> config \<times> bool \<times> bytes" where
  "StatusSnapshot hash s =
     (case s of
        None \<Rightarrow> (Defaults, False, Digest hash Defaults)
      | Some st \<Rightarrow> ((sst_config st)\<lparr>RawYAML := []\<rparr>, sst_valid st, sst_digest st))"

subsection \<open>What is published\<close>

text \<open>Every published configuration is safe to run.\<close>

definition named_models :: "bytes list \<Rightarrow> bool" where
  "named_models models \<longleftrightarrow> (\<forall>model \<in> set models. trim_space model \<noteq> [])"

definition config_ok :: "config \<Rightarrow> bool" where
  "config_ok c \<longleftrightarrow> normalizeHeadroomURL (HeadroomURL c) = Inr (HeadroomURL c)
     \<and> MinHeadroomTimeoutMS \<le> HeadroomTimeoutMS c \<and> HeadroomTimeoutMS c \<le> MaxHeadroomTimeoutMS
     \<and> Caveman (cfg_CavemanLevel c) \<noteq> None \<and> Ponytail (cfg_PonytailLevel c) \<noteq> None
     \<and> named_models (ModelAllowlist c)"

lemma normalize_idem: "normalizeHeadroomURL raw = Inr u \<Longrightarrow> normalizeHeadroomURL u = Inr u"
  using normalize_accepts normalize_loopback(1) by blast

lemma default_url_ok: "normalizeHeadroomURL DefaultHeadroomURL = Inr DefaultHeadroomURL"
proof -
  have a: "loopback_authority ''127.0.0.1:8787''"
    unfolding loopback_authority_def loopback_hosts_def
    by (rule bexI [of _ "''127.0.0.1''"]) (auto simp: is_digit_def less_eq_char_def intro!: exI [of _ "''8787''"])
  have p: "split_host_port ''127.0.0.1:8787'' = (''127.0.0.1'', ''8787'')" by code_simp
  have "port_in_range ''8787''"
    by (simp add: port_in_range_def parse_int_def parse_uint_def digits_val_def is_digit_def digit_val_def less_eq_char_def)
  with normalize_loopback(1) [OF a] p show ?thesis by (simp add: DefaultHeadroomURL_def)
qed

lemma levels_known:
  "v \<in> set cavemanLevels \<longleftrightarrow> Caveman v \<noteq> None" "v \<in> set ponytailLevels \<longleftrightarrow> Ponytail v \<noteq> None"
  by (auto simp: cavemanLevels_def ponytailLevels_def Caveman_def Ponytail_def cavemanPrompts_def ponytailPrompts_def)

lemma defaults_ok: "config_ok Defaults"
  using default_url_ok levels_known(1) [of "''full''"] levels_known(2) [of "''full''"]
  by (simp add: config_ok_def Defaults_def DefaultHeadroomTimeoutMS_def MinHeadroomTimeoutMS_def
      MaxHeadroomTimeoutMS_def cavemanLevels_def ponytailLevels_def named_models_def)

lemma config_ok_raw [simp]: "config_ok (c\<lparr>RawYAML := raw\<rparr>) = config_ok c"
  by (simp add: config_ok_def)

lemma decode_items_no_blank:
  "decode_items y field items models = Inr vs \<Longrightarrow> named_models models \<Longrightarrow> named_models vs"
proof (induction y field items models rule: decode_items.induct)
  case (2 y field item items ms)
  then show ?case by (simp add: named_models_def split: if_splits)
qed simp

lemma sum_bindE:
  assumes "sum_bind r f = Inr b"
  obtains a where "r = Inr a" "f a = Inr b"
  using assms by (cases r) (auto simp: sum_bind_def)

lemma sum_bind_Inr: "sum_bind r f = Inr b \<longleftrightarrow> (\<exists>a. r = Inr a \<and> f a = Inr b)"
  by (cases r) (auto simp: sum_bind_def)

lemma decodeStringList_named: "decodeStringList y key node = Inr vs \<Longrightarrow> named_models vs"
  using decode_items_no_blank [of y key _ "[]" vs]
  by (auto simp: decodeStringList_def named_models_def split: option.splits if_splits)

lemma config_ok_updates:
  "config_ok cfg \<Longrightarrow> config_ok (cfg\<lparr>RTKEnabled := b\<rparr>)"
  "config_ok cfg \<Longrightarrow> config_ok (cfg\<lparr>HeadroomEnabled := b\<rparr>)"
  "config_ok cfg \<Longrightarrow> config_ok (cfg\<lparr>CavemanEnabled := b\<rparr>)"
  "config_ok cfg \<Longrightarrow> config_ok (cfg\<lparr>PonytailEnabled := b\<rparr>)"
  "config_ok cfg \<Longrightarrow> normalizeHeadroomURL raw = Inr u \<Longrightarrow> config_ok (cfg\<lparr>HeadroomURL := u\<rparr>)"
  "config_ok cfg \<Longrightarrow> MinHeadroomTimeoutMS \<le> t \<Longrightarrow> t \<le> MaxHeadroomTimeoutMS \<Longrightarrow> config_ok (cfg\<lparr>HeadroomTimeoutMS := t\<rparr>)"
  "config_ok cfg \<Longrightarrow> l \<in> set cavemanLevels \<Longrightarrow> config_ok (cfg\<lparr>cfg_CavemanLevel := l\<rparr>)"
  "config_ok cfg \<Longrightarrow> l \<in> set ponytailLevels \<Longrightarrow> config_ok (cfg\<lparr>cfg_PonytailLevel := l\<rparr>)"
  "config_ok cfg \<Longrightarrow> named_models ms \<Longrightarrow> config_ok (cfg\<lparr>ModelAllowlist := ms\<rparr>)"
  using levels_known [of l] by (simp_all add: config_ok_def normalize_idem)

lemma parse_field_ok:
  assumes "parse_field y key node cfg = Inr cfg'" "config_ok cfg"
  shows "config_ok cfg'"
  using assms unfolding parse_field_def
  by (simp only: split: if_split_asm)
    (auto simp: not_less elim!: sum_bindE intro: config_ok_updates dest: decodeStringList_named split: sum.split_asm if_split_asm)

lemma parse_fields_ok: "parse_fields y nodes seen cfg = Inr cfg' \<Longrightarrow> config_ok cfg \<Longrightarrow> config_ok cfg'"
proof (induction y nodes seen cfg rule: parse_fields.induct)
  case (1 y keyNode valueNode rest seen cfg)
  show ?case
  proof (cases keyNode)
    case None
    with 1 show ?thesis by simp
  next
    case (Some k)
    show ?thesis
    proof (cases "ym_kind y k \<noteq> ScalarNode \<or> \<not> isKnownField (ym_value y k)")
      case True
      with 1(2) Some 1(4,5) show ?thesis by simp
    next
      case False
      with 1(4) Some obtain c where c: "parse_field y (ym_value y k) valueNode cfg = Inr c"
        "parse_fields y rest (ym_value y k # seen) c = Inr cfg'" "\<not> List.member seen (ym_value y k)"
        by (simp split: if_split_asm sum.split_asm)
      from 1(3) [OF Some False c(3,1) c(2)] parse_field_ok [OF c(1) 1(5)] show ?thesis by blast
    qed
  qed
qed simp_all

lemma Parse_ok: "Parse y raw = Inr cfg \<Longrightarrow> config_ok cfg"
  unfolding Parse_def using defaults_ok parse_fields_ok [of y _ "[]" Defaults]
  by (auto elim!: sum_bindE split: if_split_asm option.split_asm)

subsection \<open>The last known good configuration\<close>

definition reloads :: "'n yaml \<Rightarrow> (bytes \<Rightarrow> bytes) \<Rightarrow> bytes list \<Rightarrow> store \<Rightarrow> store" where
  "reloads y hash raws s = foldl (\<lambda>s raw. fst (Reload y hash raw s)) s raws"

definition accepted :: "'n yaml \<Rightarrow> bytes list \<Rightarrow> config list" where
  "accepted y raws = List.map_filter (\<lambda>raw. case Parse y raw of Inl _ \<Rightarrow> None | Inr cfg \<Rightarrow> Some cfg) raws"

definition store_ok :: "(bytes \<Rightarrow> bytes) \<Rightarrow> store \<Rightarrow> bool" where
  "store_ok hash s \<longleftrightarrow> (\<exists>st. s = Some st \<and> config_ok (sst_config st) \<and> sst_digest st = Digest hash (sst_config st))"

lemma store_ok_publish [inv_intros]: "config_ok cfg \<Longrightarrow> store_ok hash (publish hash cfg s)"
  by (simp add: store_ok_def publish_def newStoreState_def)

lemma store_ok_Reload [inv_intros]: "store_ok hash s \<Longrightarrow> store_ok hash (fst (Reload y hash raw s))"
  by (auto simp: Reload_def dest: Parse_ok intro: store_ok_publish split: sum.split)

lemma store_ok_NewStore [inv_intros]: "store_ok hash (fst (NewStore y hash raw))"
proof -
  have d: "store_ok hash (Some (newStoreState hash Defaults valid))" for valid
    by (simp add: store_ok_def newStoreState_def defaults_ok)
  then show ?thesis
    by (auto simp: NewStore_def Let_def dest: Parse_ok intro: store_ok_publish split: sum.split)
qed

lemma reloads_snapshot:
  "config_Snapshot (reloads y hash raws s) = last (config_Snapshot s # accepted y raws)
   \<and> (accepted y raws = [] \<longrightarrow> reloads y hash raws s = s)
   \<and> (accepted y raws \<noteq> [] \<longrightarrow> fst (snd (StatusSnapshot hash (reloads y hash raws s))))"
proof (induction raws arbitrary: s)
  case (Cons raw raws)
  show ?case
    using Cons [of "fst (Reload y hash raw s)"]
    by (auto simp: reloads_def accepted_def Reload_def publish_def newStoreState_def config_Snapshot_def
        StatusSnapshot_def split: sum.splits)
qed (simp_all add: reloads_def accepted_def)

text \<open>
  C5. A failed reload keeps the last known good configuration: after any sequence of configuration
  texts the published snapshot is the last one that parsed, or the start-up one when none did; it is
  always safe to run (loopback URL in canonical form, timeout within its bounds, levels that have a
  prompt, no blank model names), and the published digest is the digest of that snapshot.
\<close>
theorem store_last_known_good:
  "config_Snapshot (reloads y hash raws (fst (NewStore y hash raw)))
     = last ((case Parse y raw of Inl _ \<Rightarrow> Defaults | Inr cfg \<Rightarrow> cfg) # accepted y raws)
   \<and> config_ok (config_Snapshot (reloads y hash raws (fst (NewStore y hash raw))))
   \<and> snd (snd (StatusSnapshot hash (reloads y hash raws (fst (NewStore y hash raw)))))
     = Digest hash (config_Snapshot (reloads y hash raws (fst (NewStore y hash raw))))
   \<and> fst (snd (StatusSnapshot hash (reloads y hash raws (fst (NewStore y hash raw)))))
     = (accepted y (raw # raws) \<noteq> [])"
proof -
  let ?s = "fst (NewStore y hash raw)"
  let ?r = "reloads y hash raws ?s"
  have start: "config_Snapshot ?s = (case Parse y raw of Inl _ \<Rightarrow> Defaults | Inr cfg \<Rightarrow> cfg)"
    "fst (snd (StatusSnapshot hash ?s)) = (\<exists>cfg. Parse y raw = Inr cfg)"
    by (auto simp: NewStore_def Let_def Parse_def config_Snapshot_def StatusSnapshot_def newStoreState_def publish_def split: sum.splits)
  have "store_ok hash (reloads y hash raws s)" if "store_ok hash s" for s
    using that unfolding reloads_def by (induction raws arbitrary: s) (auto intro: store_ok_Reload)
  then have "store_ok hash ?r" by (simp add: store_ok_NewStore)
  then have "config_ok (config_Snapshot ?r)" "snd (snd (StatusSnapshot hash ?r)) = Digest hash (config_Snapshot ?r)"
    by (auto simp: store_ok_def config_Snapshot_def StatusSnapshot_def)
  moreover have "fst (snd (StatusSnapshot hash ?r)) = (accepted y (raw # raws) \<noteq> [])"
    using reloads_snapshot [of y hash raws ?s] start(2) by (cases "accepted y raws = []") (auto simp: accepted_def split: sum.splits)
  ultimately show ?thesis using reloads_snapshot [of y hash raws ?s] start(1) by simp
qed

subsection \<open>The canonical form\<close>

text \<open>Each kind of field can be read back from the front of a text.\<close>

lemma json_quote_cancel:
  assumes "json_quote html s @ r = json_quote html t @ u"
  shows "to_valid s = to_valid t \<and> r = u"
  using assms pstring_json_esc [of html s r] pstring_json_esc [of html t u] by (simp add: json_quote_def)

lemma json_bool_cancel: "json_bool a @ r = json_bool b @ u \<Longrightarrow> a = b \<and> r = u"
  by (auto simp: json_bool_def split: if_splits)

lemma show_nat_digit: "c \<in> set (show_nat n) \<Longrightarrow> is_digit c"
  using show_nat_digits [of n] by (simp add: list_all_iff)

lemma show_int_no_comma: "CHR '','' \<notin> set (show_int i)"
proof -
  have "\<not> is_digit (CHR '','')" by (simp add: is_digit_def less_eq_char_def)
  then show ?thesis by (auto simp: show_int_def dest: show_nat_digit)
qed

lemma show_int_inj: "show_int i = show_int j \<longleftrightarrow> i = j"
proof -
  have "CHR ''-'' \<notin> set (show_nat n)" for n
    by (auto simp: is_digit_def less_eq_char_def dest: show_nat_digit)
  then have "show_nat n \<noteq> CHR ''-'' # s" for n s by (metis list.set_intros(1))
  then show ?thesis by (auto simp: show_int_def show_nat_inj split: if_splits) (metis)+
qed

lemma show_int_cancel:
  assumes "show_int i @ CHR '','' # r = show_int j @ CHR '','' # u"
  shows "i = j \<and> r = u"
proof -
  have "takeWhile (\<lambda>c. c \<noteq> CHR '','') (show_int k @ CHR '','' # v) = show_int k" for k v
    using show_int_no_comma [of k] by (auto simp: takeWhile_append)
  with assms have "show_int i = show_int j" by metis
  with assms show ?thesis by (simp add: show_int_inj)
qed

definition json_items :: "bytes list \<Rightarrow> bytes \<Rightarrow> bytes" where
  "json_items xs r = join '','' (map (json_quote False) xs) @ CHR '']'' # r"

lemma json_items_simps:
  "json_items [] r = CHR '']'' # r"
  "json_items [x] r = json_quote False x @ CHR '']'' # r"
  "json_items (x # y # ys) r = json_quote False x @ CHR '','' # json_items (y # ys) r"
  by (simp_all add: json_items_def)

lemma json_items_cancel: "json_items xs r = json_items ys u \<Longrightarrow> map to_valid xs = map to_valid ys \<and> r = u"
proof (induction xs arbitrary: ys)
  case Nil
  then show ?case by (cases ys; cases "tl ys") (auto simp: json_items_simps json_quote_def quote_def)
next
  case (Cons x xs)
  show ?case
  proof (cases ys)
    case Nil
    with Cons.prems show ?thesis by (cases xs) (auto simp: json_items_simps json_quote_def quote_def)
  next
    case (Cons y ys')
    have split: "\<exists>s. json_items (a # as) v = json_quote False a @ s \<and>
        (as = [] \<and> s = CHR '']'' # v \<or> as \<noteq> [] \<and> s = CHR '','' # json_items as v)" for a as v
      by (cases as) (simp_all add: json_items_simps)
    obtain s where s: "json_items (x # xs) r = json_quote False x @ s"
      "xs = [] \<and> s = CHR '']'' # r \<or> xs \<noteq> [] \<and> s = CHR '','' # json_items xs r" using split by blast
    obtain t where t: "json_items (y # ys') u = json_quote False y @ t"
      "ys' = [] \<and> t = CHR '']'' # u \<or> ys' \<noteq> [] \<and> t = CHR '','' # json_items ys' u" using split by blast
    have "to_valid x = to_valid y \<and> s = t"
      using Cons.prems s(1) t(1) Cons by (intro json_quote_cancel) simp
    with s(2) t(2) Cons show ?thesis using Cons.IH [of ys'] by auto
  qed
qed

text \<open>The nine known settings; invalid UTF-8 reads as U+FFFD in the canonical form.\<close>

definition same_settings :: "config \<Rightarrow> config \<Rightarrow> bool" where
  "same_settings a b \<longleftrightarrow> RTKEnabled a = RTKEnabled b \<and> HeadroomEnabled a = HeadroomEnabled b
     \<and> to_valid (HeadroomURL a) = to_valid (HeadroomURL b) \<and> HeadroomTimeoutMS a = HeadroomTimeoutMS b
     \<and> CavemanEnabled a = CavemanEnabled b \<and> to_valid (cfg_CavemanLevel a) = to_valid (cfg_CavemanLevel b)
     \<and> PonytailEnabled a = PonytailEnabled b \<and> to_valid (cfg_PonytailLevel a) = to_valid (cfg_PonytailLevel b)
     \<and> map to_valid (ModelAllowlist a) = map to_valid (ModelAllowlist b)"

lemma canonical_fields:
  assumes "CanonicalJSON a = CanonicalJSON b"
  shows "same_settings a b"
proof -
  have items: "CanonicalJSON c =
     ''{'' @ json_key ''rtk_enabled'' @ json_bool (RTKEnabled c)
     @ '','' @ json_key ''headroom_enabled'' @ json_bool (HeadroomEnabled c)
     @ '','' @ json_key ''headroom_url'' @ json_quote False (HeadroomURL c)
     @ '','' @ json_key ''headroom_timeout_ms'' @ show_int (HeadroomTimeoutMS c)
     @ CHR '','' # json_key ''caveman_enabled'' @ json_bool (CavemanEnabled c)
     @ '','' @ json_key ''caveman_level'' @ json_quote False (cfg_CavemanLevel c)
     @ '','' @ json_key ''ponytail_enabled'' @ json_bool (PonytailEnabled c)
     @ '','' @ json_key ''ponytail_level'' @ json_quote False (cfg_PonytailLevel c)
     @ '','' @ json_key ''model_allowlist'' @ ''['' @ json_items (ModelAllowlist c) ''}''" for c
    by (simp only: CanonicalJSON_def json_items_def append.simps append_assoc)
  note eq = assms [unfolded items, THEN same_append_eq [THEN iffD1]]
  note 1 = json_bool_cancel [OF eq [THEN same_append_eq [THEN iffD1]]]
  note 2 = json_bool_cancel [OF 1 [THEN conjunct2, THEN same_append_eq [THEN iffD1], THEN same_append_eq [THEN iffD1]]]
  note 3 = json_quote_cancel [OF 2 [THEN conjunct2, THEN same_append_eq [THEN iffD1], THEN same_append_eq [THEN iffD1]]]
  note 4 = show_int_cancel [OF 3 [THEN conjunct2, THEN same_append_eq [THEN iffD1], THEN same_append_eq [THEN iffD1]]]
  note 5 = json_bool_cancel [OF 4 [THEN conjunct2, THEN same_append_eq [THEN iffD1]]]
  note 6 = json_quote_cancel [OF 5 [THEN conjunct2, THEN same_append_eq [THEN iffD1], THEN same_append_eq [THEN iffD1]]]
  note 7 = json_bool_cancel [OF 6 [THEN conjunct2, THEN same_append_eq [THEN iffD1], THEN same_append_eq [THEN iffD1]]]
  note 8 = json_quote_cancel [OF 7 [THEN conjunct2, THEN same_append_eq [THEN iffD1], THEN same_append_eq [THEN iffD1]]]
  note 9 = json_items_cancel [OF 8 [THEN conjunct2, THEN same_append_eq [THEN iffD1], THEN same_append_eq [THEN iffD1],
      THEN same_append_eq [THEN iffD1]]]
  show ?thesis
    unfolding same_settings_def using 1 2 3 4 5 6 7 8 9 by blast
qed

lemma hex_digit_inj: "d < 16 \<Longrightarrow> e < 16 \<Longrightarrow> hex_digit d = hex_digit e \<Longrightarrow> d = e"
  using hex_val_hex_digit by (metis option.inject)

lemma hex_encode_inj: "hex_encode s = hex_encode t \<Longrightarrow> s = t"
proof (induction s arbitrary: t)
  case Nil
  then show ?case by (cases t) (simp_all add: hex_encode_def)
next
  case (Cons c s)
  then obtain d u where t: "t = d # u" by (cases t) (auto simp: hex_encode_def)
  have b: "(of_char x :: nat) div 16 < 16" for x using nat_of_char_less_256 [of x] by linarith
  have h: "hex_digit (of_char c div 16) = hex_digit (of_char d div 16)" "hex_digit (of_char c mod 16) = hex_digit (of_char d mod 16)"
    "hex_encode s = hex_encode u"
    using Cons.prems unfolding t by (simp_all add: hex_encode_def)
  have "(of_char c :: nat) div 16 = of_char d div 16" "(of_char c :: nat) mod 16 = of_char d mod 16"
    using hex_digit_inj [OF b b h(1)] hex_digit_inj [OF _ _ h(2)] by simp_all
  then have "(of_char c :: nat) = of_char d" by (metis mult_div_mod_eq)
  then have "c = d" by (metis char_of_char)
  with Cons.IH [OF h(3)] t show ?case by simp
qed

text \<open>
  Equal digests mean equal settings: two configurations with the same digest agree on every
  known setting, unless two different canonical texts have the same hash; and the preserved YAML
  text has no influence on the digest.
\<close>
theorem digest_identifies_settings:
  assumes "Digest hash a = Digest hash b"
  shows "(same_settings a b \<or> CanonicalJSON a \<noteq> CanonicalJSON b \<and> hash (CanonicalJSON a) = hash (CanonicalJSON b))
     \<and> Digest hash (a\<lparr>RawYAML := raw\<rparr>) = Digest hash a"
proof -
  have "hash (CanonicalJSON a) = hash (CanonicalJSON b)"
    using assms hex_encode_inj by (simp add: Digest_def)
  then show ?thesis using canonical_fields [of a b] by (auto simp: Digest_def CanonicalJSON_def)
qed

theorem digest_identifies_settings_witness:
  "same_settings Defaults (Defaults\<lparr>RawYAML := ''x''\<rparr>)"
proof -
  have eq: "Digest id Defaults = Digest id (Defaults\<lparr>RawYAML := ''x''\<rparr>)" by (simp add: Digest_def CanonicalJSON_def)
  from digest_identifies_settings [OF eq] show ?thesis by simp
qed

end
