(* ===== verification/Pipeline.thy ===== *)
theory Pipeline
  imports Rtk Inject Dedupe Metrics HeadroomClient Config
begin

text \<open>
  \<open>internal/saver/pipeline.go\<close>: the request path.  A stage function and a Headroom runner are values
  of the options, as in the code; a panic is a result of its own, and so is the panic of an injected
  validator (\<open>None\<close>).  The metrics registry and the coalescing cache are passed as state; between the
  two critical sections of the cache other calls may change it (\<open>ne_others\<close>).  Copies of byte slices
  are the identity, since values here are immutable.
\<close>

definition maxProviderPayloadBytes :: nat where "maxProviderPayloadBytes = 10485760"

definition request_pair :: "request \<Rightarrow> pair" where
  "request_pair r = Pair (rq_from r) (rq_to r)"

subsection \<open>Provider shapes\<close>

definition validRoleArray :: "'r gjson \<Rightarrow> 'r \<Rightarrow> bytes list \<Rightarrow> bool" where
  "validRoleArray g items allowed =
     (if \<not> gj_is_array g items \<or> gj_array g items = [] then False
      else list_all (\<lambda>item. gj_is_object g item \<and> List.member allowed (gj_string g (gj_sub g item ''role''))) (gj_array g items))"

definition validGeminiProviderShape :: "'r gjson \<Rightarrow> 'r \<Rightarrow> bool" where
  "validGeminiProviderShape g contents =
     (if \<not> gj_is_array g contents \<or> gj_array g contents = [] then False
      else list_all (\<lambda>content.
             if \<not> gj_is_object g content \<or> \<not> gj_is_array g (gj_sub g content ''parts'') then False
             else let role = gj_string g (gj_sub g content ''role'') in \<not> (role \<noteq> ''user'' \<and> role \<noteq> ''model''))
           (gj_array g contents))"

definition validResponsesItems :: "'r gjson \<Rightarrow> 'r \<Rightarrow> bool" where
  "validResponsesItems g items =
     (if \<not> gj_is_array g items \<or> gj_array g items = [] then False
      else list_all (\<lambda>item.
             if \<not> gj_is_object g item then False
             else let role = gj_sub g item ''role''; kind = gj_sub g item ''type''
                  in \<not> (gj_type g role \<noteq> GString \<and> (gj_type g kind \<noteq> GString \<or> gj_string g kind = [])))
           (gj_array g items))"

definition validProviderShape :: "'r gjson \<Rightarrow> bytes \<Rightarrow> request \<Rightarrow> bool" where
  "validProviderShape g body r =
     (if body = [] \<or> length body > maxProviderPayloadBytes \<or> \<not> json_valid body \<or> \<not> Eligible (request_pair r) then False
      else
        let root = gj_parse g body; target = rq_to r
        in if \<not> gj_is_object g root then False
           else if target = ''openai'' then
             validRoleArray g (gj_sub g root ''messages'') [''system'', ''developer'', ''user'', ''assistant'', ''tool'', ''function'']
           else if target = ''openai-response'' \<or> target = ''codex'' then validResponsesItems g (gj_sub g root ''input'')
           else if target = ''claude'' then validRoleArray g (gj_sub g root ''messages'') [''user'', ''assistant'']
           else if target = ''gemini'' then validGeminiProviderShape g (gj_sub g root ''contents'')
           else if target = ''antigravity'' then
             (if \<not> gj_is_object g (gj_sub g root ''request'') then False
              else validGeminiProviderShape g (gj_sub g root ''request.contents''))
           else False)"

text \<open>The replaced texts, by slot index; \<open>None\<close> when a slot changed in anything but its text.\<close>

fun slot_changes :: "int \<Rightarrow> text_slot list \<Rightarrow> text_slot list \<Rightarrow> (int \<times> bytes) list option" where
  "slot_changes i (b # bs) (a # as) =
     (if ts_result_id b \<noteq> ts_result_id a \<or> ts_kind b \<noteq> ts_kind a \<or> ts_error b \<noteq> ts_error a then None
      else map_option (\<lambda>reps. if ts_text b \<noteq> ts_text a then (i, ts_text a) # reps else reps) (slot_changes (i + 1) bs as))"
| "slot_changes i _ _ = Some []"

definition validRTKTransition :: "'r gjson \<Rightarrow> bytes \<Rightarrow> bytes \<Rightarrow> pair \<Rightarrow> bool" where
  "validRTKTransition g before after pr =
     (if before = after then True
      else (case (View g before pr, View g after pr) of
        (Some beforeView, Some afterView) \<Rightarrow>
          if length (Slots beforeView) \<noteq> length (Slots afterView) then False
          else (case slot_changes 0 (Slots beforeView) (Slots afterView) of
                  None \<Rightarrow> False
                | Some replacements \<Rightarrow> Rewrite beforeView replacements = after)
      | _ \<Rightarrow> False))"

subsection \<open>Options\<close>

datatype stage_reply = StageReturns bytes bool | StagePanics

type_synonym stage_func = "bytes \<Rightarrow> request \<Rightarrow> config \<Rightarrow> stage_reply"

datatype runner_reply = RunnerReturns bytes headroom_outcome | RunnerPanics

type_synonym headroom_runner = "bytes \<Rightarrow> request \<Rightarrow> runner_reply"

record options =
  opt_rtk :: stage_func
  opt_caveman :: stage_func
  opt_ponytail :: stage_func
  opt_validate_stage :: "(stage \<Rightarrow> bytes \<Rightarrow> bytes \<Rightarrow> request \<Rightarrow> bool option) option"
  opt_validate_final :: "(bytes \<Rightarrow> request \<Rightarrow> bool option) option"

text \<open>The production stages of \<open>NewService\<close>.\<close>

definition default_options :: "'r gjson \<Rightarrow> (bytes list \<Rightarrow> bytes list) \<Rightarrow> options" where
  "default_options g ord = \<lparr>
     opt_rtk = (\<lambda>body r cfg. StageReturns (rtk_apply g ord body (request_pair r)) False),
     opt_caveman = (\<lambda>body r cfg. StageReturns (Inject g body (request_pair r) \<lparr>CavemanLevel = cfg_CavemanLevel cfg, PonytailLevel = []\<rparr>) False),
     opt_ponytail = (\<lambda>body r cfg. StageReturns (Inject g body (request_pair r) \<lparr>CavemanLevel = [], PonytailLevel = cfg_PonytailLevel cfg\<rparr>) False),
     opt_validate_stage = None, opt_validate_final = None\<rparr>"

subsection \<open>Recording\<close>

definition record_outcome :: "stage \<Rightarrow> outcome \<Rightarrow> nat \<Rightarrow> nat \<Rightarrow> duration \<Rightarrow> request \<Rightarrow> registry \<Rightarrow> registry" where
  "record_outcome st oc inputBytes outputBytes d r m =
     RecordRoute st oc (rq_from r) (rq_to r) (Record st oc (int inputBytes) (int outputBytes) d m)"

definition record_all_bypassed :: "nat \<Rightarrow> request \<Rightarrow> registry \<Rightarrow> registry" where
  "record_all_bypassed sz r m = RecordAllBypassedRoute (rq_from r) (rq_to r) (RecordAllBypassed (int sz) m)"

definition metricForHeadroom :: "headroom_outcome \<Rightarrow> bytes \<Rightarrow> bytes \<Rightarrow> outcome" where
  "metricForHeadroom oc input output =
     (case oc of
        OutcomeApplied \<Rightarrow> if input = output then OutcomeBypassed else OutcomeExecuted
      | OutcomeNoChange \<Rightarrow> OutcomeBypassed
      | OutcomeUnsupportedFormat \<Rightarrow> OutcomeBypassed
      | OutcomeUnsupportedStructure \<Rightarrow> OutcomeBypassed
      | OutcomeRequestTooLarge \<Rightarrow> OutcomeBypassed
      | OutcomeCircuitOpen \<Rightarrow> OutcomeBypassed
      | headroom_outcome.OutcomeTimeout \<Rightarrow> outcome.OutcomeTimeout
      | headroom_outcome.OutcomeSaturated \<Rightarrow> outcome.OutcomeSaturated
      | _ \<Rightarrow> OutcomeFailOpen)"

subsection \<open>Stages\<close>

definition validStage :: "'r gjson \<Rightarrow> options \<Rightarrow> stage \<Rightarrow> bytes \<Rightarrow> bytes \<Rightarrow> request \<Rightarrow> config \<Rightarrow> bool option" where
  "validStage g opts st before after r cfg =
     (let own = (case st of
          StageRTK \<Rightarrow> validRTKTransition g before after (request_pair r)
        | StageCaveman \<Rightarrow>
            after = Inject g before (request_pair r) \<lparr>CavemanLevel = cfg_CavemanLevel cfg, PonytailLevel = []\<rparr>
        | StagePonytail \<Rightarrow>
            after = Inject g before (request_pair r) \<lparr>CavemanLevel = [], PonytailLevel = cfg_PonytailLevel cfg\<rparr>
        | _ \<Rightarrow> True)
      in if \<not> validProviderShape g after r then Some False
         else if \<not> own then Some False
         else (case opt_validate_stage opts of None \<Rightarrow> Some True | Some v \<Rightarrow> v st before after r))"

record 'r nenv =
  ne_gjson :: "'r gjson"
  ne_hash :: "bytes \<Rightarrow> bytes"
  ne_order :: "bytes map_order"
  ne_duration :: "stage \<Rightarrow> duration"
  ne_now_enter :: gotime
  ne_now_complete :: gotime
  ne_others :: "bytes dedupe_cache \<Rightarrow> bytes dedupe_cache"

definition runLocalStage ::
  "'r nenv \<Rightarrow> options \<Rightarrow> stage \<Rightarrow> bool \<Rightarrow> bytes \<Rightarrow> request \<Rightarrow> config \<Rightarrow> stage_func \<Rightarrow> registry \<Rightarrow> bytes \<times> registry" where
  "runLocalStage env opts st enabled body r cfg apply m =
     (let d = ne_duration env st; n = length body;
          fail = (body, record_outcome st OutcomeFailOpen n n d r m)
      in if \<not> enabled then (body, record_outcome st OutcomeBypassed n n d r m)
         else (case apply body r cfg of
           StagePanics \<Rightarrow> fail
         | StageReturns output errApply \<Rightarrow>
             if errApply \<or> output = [] then fail
             else (case validStage (ne_gjson env) opts st body output r cfg of
                     Some True \<Rightarrow> (output, record_outcome st (if body = output then OutcomeBypassed else OutcomeExecuted)
                                      n (length output) d r m)
                   | _ \<Rightarrow> fail)))"

definition runHeadroomStage ::
  "'r nenv \<Rightarrow> options \<Rightarrow> headroom_runner option \<Rightarrow> config \<Rightarrow> bytes \<Rightarrow> request \<Rightarrow> registry \<Rightarrow> bytes \<times> registry" where
  "runHeadroomStage env opts runner cfg body r m =
     (let d = ne_duration env StageHeadroom; n = length body
      in case (HeadroomEnabled cfg, runner) of
           (True, Some apply) \<Rightarrow>
             (case apply body r of
                RunnerPanics \<Rightarrow> (body, record_outcome StageHeadroom OutcomeFailOpen n n d r m)
              | RunnerReturns output oc \<Rightarrow>
                  let mo = metricForHeadroom oc body output
                  in if mo = OutcomeFailOpen \<or> mo = outcome.OutcomeTimeout \<or> mo = outcome.OutcomeSaturated \<or> output = [] then
                       (body, record_outcome StageHeadroom
                          (if mo = OutcomeExecuted \<or> mo = OutcomeBypassed then OutcomeFailOpen else mo) n n d r m)
                     else (case validStage (ne_gjson env) opts StageHeadroom body output r cfg of
                             Some True \<Rightarrow> (output, record_outcome StageHeadroom mo n (length output) d r m)
                           | _ \<Rightarrow> (body, record_outcome StageHeadroom OutcomeFailOpen n n d r m)))
         | _ \<Rightarrow> (body, record_outcome StageHeadroom OutcomeBypassed n n d r m))"

subsection \<open>Normalize\<close>

text \<open>The work that is coalesced: the RTK stage and the Headroom stage.\<close>

definition compress_stages ::
  "'r nenv \<Rightarrow> options \<Rightarrow> headroom_runner option \<Rightarrow> config \<Rightarrow> bytes \<Rightarrow> request \<Rightarrow> registry \<Rightarrow> bytes \<times> registry" where
  "compress_stages env opts runner cfg body r m =
     (let (body1, m1) = runLocalStage env opts StageRTK (RTKEnabled cfg) body r cfg (opt_rtk opts) m
      in runHeadroomStage env opts runner cfg body1 r m1)"

text \<open>
  \<open>dedupeCache.Do\<close> for one caller.  A waiter reads its entry after the entry's run has completed,
  a runner completes its entry after the work; other calls act in between.
\<close>

definition dedupe_do ::
  "'r nenv \<Rightarrow> bytes \<Rightarrow> (registry \<Rightarrow> bytes \<times> registry) \<Rightarrow> bytes dedupe_cache \<Rightarrow> registry \<Rightarrow>
   (bytes \<times> bool \<times> dedupe_error option) \<times> bytes dedupe_cache \<times> registry" where
  "dedupe_do env key work c m =
     (case do_enter (ne_order env) (ne_now_enter env) key c of
        (Wait entry, c1) \<Rightarrow> (waiter_result entry (ne_others env c1), ne_others env c1, m)
      | (Bypass, c1) \<Rightarrow>
          (let (value, m1) = work m in (runner_result (WorkReturns value None), ne_others env c1, m1))
      | (Run entry, c1) \<Rightarrow>
          (let (value, m1) = work m
           in (runner_result (WorkReturns value None),
               do_complete (ne_order env) (ne_now_complete env) key entry (WorkReturns value None) (ne_others env c1), m1)))"

definition all_disabled :: "config \<Rightarrow> bool" where
  "all_disabled cfg \<longleftrightarrow> \<not> RTKEnabled cfg \<and> \<not> HeadroomEnabled cfg \<and> \<not> CavemanEnabled cfg \<and> \<not> PonytailEnabled cfg"

definition record_pipeline :: "outcome \<Rightarrow> bytes \<Rightarrow> bytes \<Rightarrow> request \<Rightarrow> registry \<Rightarrow> registry" where
  "record_pipeline oc input output r m = record_outcome StagePipeline oc (length input) (length output) 0 r m"

text \<open>The first two stages, coalesced for bodies of at most 1 MiB when Headroom is on.\<close>

definition normalize_compress ::
  "'r nenv \<Rightarrow> options \<Rightarrow> headroom_runner option \<Rightarrow> u64 \<Rightarrow> config \<Rightarrow> request \<Rightarrow> bytes dedupe_cache \<Rightarrow> registry \<Rightarrow>
   bytes \<times> bytes dedupe_cache \<times> registry" where
  "normalize_compress env opts runner generation cfg r c m =
     (let original = rq_body r
      in if HeadroomEnabled cfg \<and> length original \<le> dedupeMaxItemBytes then
           (case dedupe_do env (dedupeKey (ne_hash env) generation r) (compress_stages env opts runner cfg original r) c m of
              ((intermediate, hit, errDedupe), c1, m1) \<Rightarrow>
                if errDedupe \<noteq> None then (original, c1, record_pipeline OutcomeFailOpen original original r m1)
                else if hit then
                  (intermediate, c1,
                   record_outcome StageHeadroom OutcomeBypassed (length intermediate) (length intermediate) 0 r
                     (record_outcome StageRTK OutcomeBypassed (length original) (length original) 0 r m1))
                else (intermediate, c1, m1))
         else
           (let (working, m1) = runLocalStage env opts StageRTK (RTKEnabled cfg) original r cfg (opt_rtk opts) m
            in (working, c, record_outcome StageHeadroom OutcomeBypassed (length working) (length working) 0 r m1)))"

text \<open>The last check; a panic of the injected validator is recovered like its refusal.\<close>

definition normalize_finish ::
  "'r nenv \<Rightarrow> options \<Rightarrow> bytes \<Rightarrow> request \<Rightarrow> registry \<Rightarrow> bytes \<times> registry" where
  "normalize_finish env opts working r m =
     (let original = rq_body r;
          final = (case opt_validate_final opts of None \<Rightarrow> Some True | Some v \<Rightarrow> v working r)
      in if \<not> validProviderShape (ne_gjson env) working r \<or> final \<noteq> Some True
         then (original, record_pipeline OutcomeFailOpen original original r m)
         else (working, record_pipeline (if working = original then OutcomeBypassed else OutcomeExecuted) original working r m))"

definition Normalize ::
  "'r nenv \<Rightarrow> options \<Rightarrow> headroom_runner option \<Rightarrow> u64 \<Rightarrow> config \<Rightarrow> request \<Rightarrow> bytes dedupe_cache \<Rightarrow> registry \<Rightarrow>
   bytes \<times> bytes dedupe_cache \<times> registry" where
  "Normalize env opts runner generation cfg r c m =
     (let original = rq_body r
      in if all_disabled cfg then (original, c, record_all_bypassed (length original) r m)
         else if \<not> AllowsModel cfg (rq_model r) \<or> original = [] \<or> length original > maxProviderPayloadBytes
              \<or> \<not> validProviderShape (ne_gjson env) original r
           then (original, c, record_pipeline OutcomeBypassed original original r m)
         else
           (let (w1, c1, m1) = normalize_compress env opts runner generation cfg r c m;
                (w2, m2) = runLocalStage env opts StageCaveman (CavemanEnabled cfg) w1 r cfg (opt_caveman opts) m1;
                (w3, m3) = runLocalStage env opts StagePonytail (PonytailEnabled cfg) w2 r cfg (opt_ponytail opts) m2;
                (result, m4) = normalize_finish env opts w3 r m3
            in (result, c1, m4)))"

subsection \<open>Each stage fails open\<close>

definition stage_of :: "stage \<Rightarrow> stage_projection \<Rightarrow> stage_snapshot" where
  "stage_of st p = (case st of StageRTK \<Rightarrow> sp_rtk p | StageHeadroom \<Rightarrow> sp_headroom p | StageCaveman \<Rightarrow> sp_caveman p
     | StagePonytail \<Rightarrow> sp_ponytail p | _ \<Rightarrow> sp_pipeline p)"

definition events :: "registry \<Rightarrow> stage \<Rightarrow> u64" where
  "events m st = stage_events (stage_of st (reg_stages m))"

definition named_stage :: "stage \<Rightarrow> bool" where
  "named_stage st \<longleftrightarrow> stageLocked st \<noteq> None"

lemma RecordRoute_stages [simp]: "reg_stages (RecordRoute st oc f t m) = reg_stages m"
  by (auto simp: RecordRoute_def Let_def split: option.splits prod.splits)

lemma stage_of_upd:
  "stageLocked st = Some u \<Longrightarrow> named_stage st' \<Longrightarrow>
   stage_of st' (u f p) = (if st' = st then f (stage_of st' p) else stage_of st' p)"
  by (cases st; cases st') (auto simp: stage_of_def named_stage_def)

lemma events_record [simp]:
  assumes "validOutcome oc" "named_stage st" "named_stage st'"
  shows "events (record_outcome st oc i j d r m) st' = events m st' + (if st' = st then 1 else 0)"
proof -
  obtain u where u: "stageLocked st = Some u" using assms(2) by (auto simp: named_stage_def)
  show ?thesis
    using assms(1) stage_of_upd [OF u assms(3)]
    by (simp add: events_def record_outcome_def Record_def u del: count_outcome.simps)
qed

lemma events_all_bypassed: "named_stage st \<Longrightarrow> events (record_all_bypassed n r m) st = events m st + 1"
  by (cases st) (simp_all add: events_def record_all_bypassed_def RecordAllBypassed_def RecordAllBypassedRoute_def
      stage_of_def named_stage_def Let_def)

lemma metricForHeadroom_valid [simp]: "validOutcome (metricForHeadroom oc i out)"
  by (cases oc) (simp_all add: metricForHeadroom_def)

text \<open>
  The interface of a stage as \<open>Normalize\<close> relies on it: the body comes back unchanged or with the
  promised shape, and exactly one event of that stage is counted, whatever the stage function does.
\<close>

locale fail_open_stage =
  fixes run :: "bytes \<Rightarrow> registry \<Rightarrow> bytes \<times> registry"
    and st :: stage
    and good :: "bytes \<Rightarrow> bool"
  assumes named: "named_stage st"
    and fails_open: "fst (run body m) = body \<or> good (fst (run body m))"
    and counts_once: "named_stage st' \<Longrightarrow> events (snd (run body m)) st' = events m st' + (if st' = st then 1 else 0)"
begin

lemma keeps_good: "good body \<Longrightarrow> good (fst (run body m))"
  using fails_open [of body m] by auto

lemma run_cases:
  obtains out m' where "run body m = (out, m')" "out = body \<or> good out"
    "\<And>st'. named_stage st' \<Longrightarrow> events m' st' = events m st' + (if st' = st then 1 else 0)"
  using fails_open [of body m] counts_once [of _ body m] by (cases "run body m") auto

end

lemma validStage_shape: "validStage g opts st before after r cfg = Some True \<Longrightarrow> validProviderShape g after r"
  by (auto simp: validStage_def Let_def split: if_splits)

lemma named_stages [simp]: "named_stage StageRTK" "named_stage StageHeadroom" "named_stage StageCaveman"
    "named_stage StagePonytail" "named_stage StagePipeline"
  by (simp_all add: named_stage_def)

text \<open>One valid event of a stage with this input size.\<close>

definition recorded :: "stage \<Rightarrow> bytes \<Rightarrow> request \<Rightarrow> registry \<Rightarrow> registry \<Rightarrow> bool" where
  "recorded st body r m m' \<longleftrightarrow> (\<exists>oc j d. validOutcome oc \<and> m' = record_outcome st oc (length body) j d r m)"

lemma recordedI [intro]: "validOutcome oc \<Longrightarrow> recorded st body r m (record_outcome st oc (length body) j d r m)"
  unfolding recorded_def by blast

lemma runLocalStage_cases:
  "runLocalStage env opts st enabled body r cfg stagef m = (out, m') \<Longrightarrow>
   (out = body \<or> (enabled \<and> stagef body r cfg = StageReturns out False \<and> validStage (ne_gjson env) opts st body out r cfg = Some True))
   \<and> recorded st body r m m'"
  unfolding runLocalStage_def Let_def
  by (auto split: if_splits stage_reply.splits option.splits bool.splits)

lemma runHeadroomStage_cases:
  "runHeadroomStage env opts runner cfg body r m = (out, m') \<Longrightarrow>
   (out = body \<or> (\<exists>stagef oc. HeadroomEnabled cfg \<and> runner = Some stagef \<and> stagef body r = RunnerReturns out oc
      \<and> validStage (ne_gjson env) opts StageHeadroom body out r cfg = Some True))
   \<and> recorded StageHeadroom body r m m'"
proof (cases "HeadroomEnabled cfg \<and> runner \<noteq> None")
  case False
  assume "runHeadroomStage env opts runner cfg body r m = (out, m')"
  then show ?thesis using False
    by (auto simp: runHeadroomStage_def Let_def split: option.splits bool.splits)
next
  case True
  then obtain stagef where a: "HeadroomEnabled cfg" "runner = Some stagef" by auto
  assume e: "runHeadroomStage env opts runner cfg body r m = (out, m')"
  show ?thesis
  proof (cases "stagef body r")
    case RunnerPanics
    with e a show ?thesis by (auto simp: runHeadroomStage_def Let_def)
  next
    case (RunnerReturns out2 oc)
    have v: "validOutcome (metricForHeadroom oc body out2)" by simp
    with RunnerReturns e a show ?thesis
      by (auto simp: runHeadroomStage_def Let_def simp del: metricForHeadroom_valid intro!: recordedI
          split: if_splits option.splits bool.splits)
  qed
qed

lemma local_stage_contract:
  assumes "named_stage st"
  shows "fail_open_stage (\<lambda>body m. runLocalStage env opts st enabled body r cfg stagef m) st
    (\<lambda>b. validProviderShape (ne_gjson env) b r)"
proof
  fix body m
  obtain out m' where e: "runLocalStage env opts st enabled body r cfg stagef m = (out, m')" by fastforce
  show "fst (runLocalStage env opts st enabled body r cfg stagef m) = body \<or>
      validProviderShape (ne_gjson env) (fst (runLocalStage env opts st enabled body r cfg stagef m)) r"
    using runLocalStage_cases [OF e] validStage_shape e by fastforce
  fix st' assume "named_stage st'"
  then show "events (snd (runLocalStage env opts st enabled body r cfg stagef m)) st' = events m st' + (if st' = st then 1 else 0)"
    using runLocalStage_cases [OF e] assms e by (auto simp: recorded_def)
qed (rule assms)

interpretation rtk_stage: fail_open_stage
  "\<lambda>body m. runLocalStage env opts StageRTK enabled body r cfg stagef m" StageRTK "\<lambda>b. validProviderShape (ne_gjson env) b r"
  for env opts enabled r cfg stagef
  by (rule local_stage_contract) simp

interpretation caveman_run: fail_open_stage
  "\<lambda>body m. runLocalStage env opts StageCaveman enabled body r cfg stagef m" StageCaveman "\<lambda>b. validProviderShape (ne_gjson env) b r"
  for env opts enabled r cfg stagef
  by (rule local_stage_contract) simp

interpretation ponytail_run: fail_open_stage
  "\<lambda>body m. runLocalStage env opts StagePonytail enabled body r cfg stagef m" StagePonytail "\<lambda>b. validProviderShape (ne_gjson env) b r"
  for env opts enabled r cfg stagef
  by (rule local_stage_contract) simp

interpretation headroom_run: fail_open_stage
  "\<lambda>body m. runHeadroomStage env opts runner cfg body r m" StageHeadroom "\<lambda>b. validProviderShape (ne_gjson env) b r"
  for env opts runner cfg r
proof
  fix body m
  obtain out m' where e: "runHeadroomStage env opts runner cfg body r m = (out, m')" by fastforce
  show "fst (runHeadroomStage env opts runner cfg body r m) = body \<or>
      validProviderShape (ne_gjson env) (fst (runHeadroomStage env opts runner cfg body r m)) r"
    using runHeadroomStage_cases [OF e] validStage_shape e by fastforce
  fix st' assume "named_stage st'"
  then show "events (snd (runHeadroomStage env opts runner cfg body r m)) st' = events m st' + (if st' = StageHeadroom then 1 else 0)"
    using runHeadroomStage_cases [OF e] e by (auto simp: recorded_def)
qed simp

subsection \<open>The request path\<close>

text \<open>What the interface says of each run in \<open>Normalize\<close>.\<close>

lemma rtk_events:
  assumes "named_stage st" "runLocalStage env opts StageRTK enabled body r cfg stagef m = (out, m')"
  shows "events m' st = events m st + (if st = StageRTK then 1 else 0)"
  using rtk_stage.counts_once [OF assms(1)] assms(2) by (metis snd_conv)

lemma caveman_events:
  assumes "named_stage st" "runLocalStage env opts StageCaveman enabled body r cfg stagef m = (out, m')"
  shows "events m' st = events m st + (if st = StageCaveman then 1 else 0)"
  using caveman_run.counts_once [OF assms(1)] assms(2) by (metis snd_conv)

lemma ponytail_events:
  assumes "named_stage st" "runLocalStage env opts StagePonytail enabled body r cfg stagef m = (out, m')"
  shows "events m' st = events m st + (if st = StagePonytail then 1 else 0)"
  using ponytail_run.counts_once [OF assms(1)] assms(2) by (metis snd_conv)

lemma compress_stages_events:
  "named_stage st \<Longrightarrow> events (snd (compress_stages env opts runner cfg body r m)) st
     = events m st + (if st = StageRTK \<or> st = StageHeadroom then 1 else 0)"
proof -
  assume n: "named_stage st"
  obtain b1 m1 where 1: "runLocalStage env opts StageRTK (RTKEnabled cfg) body r cfg (opt_rtk opts) m = (b1, m1)" by fastforce
  have "events m1 st = events m st + (if st = StageRTK then 1 else 0)" by (rule rtk_events [OF n 1])
  moreover have "events (snd (runHeadroomStage env opts runner cfg b1 r m1)) st = events m1 st + (if st = StageHeadroom then 1 else 0)"
    by (rule headroom_run.counts_once [OF n])
  ultimately show ?thesis by (auto simp: compress_stages_def 1)
qed

text \<open>A caller that joins a run which failed.\<close>

definition joins_failure :: "'r nenv \<Rightarrow> u64 \<Rightarrow> config \<Rightarrow> request \<Rightarrow> bytes dedupe_cache \<Rightarrow> bool" where
  "joins_failure env generation cfg r c \<longleftrightarrow> HeadroomEnabled cfg \<and> length (rq_body r) \<le> dedupeMaxItemBytes \<and>
     (\<exists>e c1. do_enter (ne_order env) (ne_now_enter env) (dedupeKey (ne_hash env) generation r) c = (Wait e, c1)
        \<and> de_err (dd_store (ne_others env c1) e) \<noteq> None)"

definition stage_share :: "bool \<Rightarrow> stage \<Rightarrow> u64" where
  "stage_share failed st =
     (if failed then (if st = StagePipeline then 1 else 0) else if st = StageRTK \<or> st = StageHeadroom then 1 else 0)"

lemma normalize_compress_events:
  assumes "named_stage st"
  shows "events (snd (snd (normalize_compress env opts runner generation cfg r c m))) st
     = events m st + stage_share (joins_failure env generation cfg r c) st"
proof (cases "HeadroomEnabled cfg \<and> length (rq_body r) \<le> dedupeMaxItemBytes")
  case False
  obtain b1 m1 where 1: "runLocalStage env opts StageRTK (RTKEnabled cfg) (rq_body r) r cfg (opt_rtk opts) m = (b1, m1)" by fastforce
  have j: "\<not> joins_failure env generation cfg r c" using False by (auto simp: joins_failure_def)
  show ?thesis
    using False rtk_events [OF assms 1] assms j
    by (auto simp: normalize_compress_def Let_def 1 stage_share_def)
next
  case True
  let ?e = "do_enter (ne_order env) (ne_now_enter env) (dedupeKey (ne_hash env) generation r) c"
  have w: "events (snd (compress_stages env opts runner cfg (rq_body r) r m)) st
     = events m st + (if st = StageRTK \<or> st = StageHeadroom then 1 else 0)" by (rule compress_stages_events [OF assms])
  obtain v mw where 2: "compress_stages env opts runner cfg (rq_body r) r m = (v, mw)" by fastforce
  show ?thesis
  proof (cases "fst ?e")
    case (Wait e)
    then obtain c1 where c1: "?e = (Wait e, c1)" by (cases ?e) auto
    then have "joins_failure env generation cfg r c \<longleftrightarrow> de_err (dd_store (ne_others env c1) e) \<noteq> None"
      using True by (auto simp: joins_failure_def)
    with True c1 assms show ?thesis
      by (auto simp: normalize_compress_def dedupe_do_def Let_def waiter_result_def stage_share_def record_pipeline_def)
  next
    case Bypass
    then obtain c1 where "?e = (Bypass, c1)" by (cases ?e) auto
    with True w assms show ?thesis
      by (auto simp: normalize_compress_def dedupe_do_def Let_def runner_result_def stage_share_def joins_failure_def 2)
  next
    case (Run e)
    then obtain c1 where "?e = (Run e, c1)" by (cases ?e) auto
    with True w assms show ?thesis
      by (auto simp: normalize_compress_def dedupe_do_def Let_def runner_result_def stage_share_def joins_failure_def 2)
  qed
qed

lemma normalize_finish_cases:
  "normalize_finish env opts w r m = (out, m') \<Longrightarrow>
   (out = rq_body r \<or> out = w \<and> validProviderShape (ne_gjson env) out r
      \<and> (\<forall>v. opt_validate_final opts = Some v \<longrightarrow> v out r = Some True))
   \<and> (named_stage st \<longrightarrow> events m' st = events m st + (if st = StagePipeline then 1 else 0))"
  by (auto simp: normalize_finish_def Let_def record_pipeline_def split: if_splits option.splits)

text \<open>A request that reaches the stages.\<close>

definition admitted_request :: "'r nenv \<Rightarrow> config \<Rightarrow> request \<Rightarrow> bool" where
  "admitted_request env cfg r \<longleftrightarrow> \<not> all_disabled cfg \<and> AllowsModel cfg (rq_model r) \<and> rq_body r \<noteq> []
     \<and> length (rq_body r) \<le> 10485760 \<and> validProviderShape (ne_gjson env) (rq_body r) r"

lemma normalize_stages:
  assumes "admitted_request env cfg r"
  obtains w1 c1 m1 w2 m2 w3 m3 result m4 where
    "normalize_compress env opts runner generation cfg r c m = (w1, c1, m1)"
    "runLocalStage env opts StageCaveman (CavemanEnabled cfg) w1 r cfg (opt_caveman opts) m1 = (w2, m2)"
    "runLocalStage env opts StagePonytail (PonytailEnabled cfg) w2 r cfg (opt_ponytail opts) m2 = (w3, m3)"
    "normalize_finish env opts w3 r m3 = (result, m4)"
    "Normalize env opts runner generation cfg r c m = (result, c1, m4)"
proof -
  obtain w1 c1 m1 where 1: "normalize_compress env opts runner generation cfg r c m = (w1, c1, m1)" using prod_cases3 by blast
  obtain w2 m2 where 2: "runLocalStage env opts StageCaveman (CavemanEnabled cfg) w1 r cfg (opt_caveman opts) m1 = (w2, m2)" by fastforce
  obtain w3 m3 where 3: "runLocalStage env opts StagePonytail (PonytailEnabled cfg) w2 r cfg (opt_ponytail opts) m2 = (w3, m3)" by fastforce
  obtain res m4 where 4: "normalize_finish env opts w3 r m3 = (res, m4)" by fastforce
  show thesis
    by (rule that [OF 1 2 3 4]) (use assms 1 2 3 4 in \<open>simp add: Normalize_def Let_def admitted_request_def maxProviderPayloadBytes_def\<close>)
qed

lemma normalize_not_admitted:
  "\<not> admitted_request env cfg r \<Longrightarrow>
   Normalize env opts runner generation cfg r c m =
     (rq_body r, c, if all_disabled cfg then record_all_bypassed (length (rq_body r)) r m
                    else record_pipeline OutcomeBypassed (rq_body r) (rq_body r) r m)"
  by (auto simp: Normalize_def Let_def admitted_request_def maxProviderPayloadBytes_def)

lemma Normalize_cases:
  "fst (Normalize env opts runner generation cfg r c m) = rq_body r
   \<or> admitted_request env cfg r
     \<and> validProviderShape (ne_gjson env) (fst (Normalize env opts runner generation cfg r c m)) r
     \<and> (opt_validate_final opts = None \<or> the (opt_validate_final opts) (fst (Normalize env opts runner generation cfg r c m)) r = Some True)"
proof (cases "admitted_request env cfg r")
  case False
  then show ?thesis by (simp add: normalize_not_admitted)
next
  case True
  obtain w1 c1 m1 w2 m2 w3 m3 result m4 where "normalize_finish env opts w3 r m3 = (result, m4)"
    "Normalize env opts runner generation cfg r c m = (result, c1, m4)"
    by (rule normalize_stages [OF True, of opts runner generation c m]) blast
  with normalize_finish_cases [of env opts w3 r m3 result m4 StageRTK] True show ?thesis
    by (cases "opt_validate_final opts") auto
qed

text \<open>
  C1. Normalisation always fails open: for every configuration, every stage function, runner and
  validator, panics included, and every joined result, the answer is the request's own body, or a body
  of the provider's shape that the final validator accepted, and then the request was one the
  configuration admits: some stage on, model allowed, body of at most 10 MiB of the provider's shape.
\<close>
theorem normalize_fails_open:
  "fst (Normalize env opts runner generation cfg r c m) = rq_body r
   \<or> admitted_request env cfg r
     \<and> validProviderShape (ne_gjson env) (fst (Normalize env opts runner generation cfg r c m)) r
     \<and> (opt_validate_final opts = None \<or> the (opt_validate_final opts) (fst (Normalize env opts runner generation cfg r c m)) r = Some True)"
  by (rule Normalize_cases)



end
