(* ===== verification/Gate.thy ===== *)
theory Gate
  imports Prelude
begin

text \<open>
  The admission interface two components provide: callers enter, getting a handle, and leave with it;
  after a stop nobody enters any more, so the users only drain.  \<open>Service\<close> provides it for the
  configuration generations, \<open>Runtime\<close> for the plugin's calls.
\<close>

datatype 'h gate_op = Enter | Leave 'h | Stop

text \<open>One operation of a client; leaving with a handle nobody holds is not an operation.\<close>

definition gate_step ::
  "('s \<Rightarrow> ('h \<times> 's) option) \<Rightarrow> ('h \<Rightarrow> 's \<Rightarrow> 's) \<Rightarrow> ('s \<Rightarrow> 's) \<Rightarrow> ('s \<Rightarrow> 'h \<Rightarrow> nat) \<Rightarrow> 's \<Rightarrow> 'h gate_op \<Rightarrow> 's" where
  "gate_step enter leave stop users s op =
     (case op of
        Enter \<Rightarrow> (case enter s of None \<Rightarrow> s | Some (_, s') \<Rightarrow> s')
      | Leave h \<Rightarrow> if 0 < users s h then leave h s else s
      | Stop \<Rightarrow> stop s)"

locale admission_gate =
  fixes users :: "'s \<Rightarrow> 'h \<Rightarrow> nat"
    and admitting :: "'s \<Rightarrow> bool"
    and room :: "'s \<Rightarrow> bool"
    and enter :: "'s \<Rightarrow> ('h \<times> 's) option"
    and leave :: "'h \<Rightarrow> 's \<Rightarrow> 's"
    and stop :: "'s \<Rightarrow> 's"
  assumes enter_iff: "enter s \<noteq> None \<longleftrightarrow> admitting s"
    and enter_users: "enter s = Some (h, s') \<Longrightarrow> room s \<Longrightarrow> users s' = (users s)(h := Suc (users s h)) \<and> admitting s'"
    and leave_users: "0 < users s h \<Longrightarrow> users (leave h s) = (users s)(h := users s h - 1)"
    and leave_admitting: "admitting (leave h s) = admitting s"
    and stop_users: "users (stop s) = users s"
    and stop_admitting: "\<not> admitting (stop s)"
begin

lemma step_stopped:
  assumes "\<not> admitting s"
  shows "\<not> admitting (gate_step enter leave stop users s op) \<and> users (gate_step enter leave stop users s op) k \<le> users s k"
proof (cases op)
  case Enter
  have "enter s = None" using assms enter_iff [of s] by blast
  with Enter assms show ?thesis by (simp add: gate_step_def)
next
  case (Leave h)
  with assms leave_users [of s h] leave_admitting [of h s] show ?thesis by (auto simp: gate_step_def)
next
  case Stop
  with stop_users [of s] stop_admitting [of s] show ?thesis by (simp add: gate_step_def)
qed

text \<open>After a stop the users only drain, and a drained gate stays drained.\<close>

lemma stopped_drains:
  "\<not> admitting s \<Longrightarrow> \<not> admitting (foldl (gate_step enter leave stop users) s ops)
     \<and> users (foldl (gate_step enter leave stop users) s ops) k \<le> users s k"
proof (induction ops arbitrary: s)
  case (Cons op ops)
  have "\<not> admitting (gate_step enter leave stop users s op)" "users (gate_step enter leave stop users s op) k \<le> users s k"
    using step_stopped [OF Cons.prems] by auto
  with Cons.IH [of "gate_step enter leave stop users s op"] show ?case by (auto intro: le_trans)
qed simp

lemma drained_after_stop:
  assumes "users s k = 0" "ops = Stop # rest"
  shows "users (foldl (gate_step enter leave stop users) s ops) k = 0"
  using stopped_drains [OF stop_admitting, of s rest k] assms stop_users [of s] by (simp add: gate_step_def)

text \<open>The exact count: every departure of a holder is felt, and no arrival.\<close>

lemma stopped_counts:
  "\<not> admitting s \<Longrightarrow> users (foldl (gate_step enter leave stop users) s ops) k = users s k - length (filter (\<lambda>op. op = Leave k) ops)"
proof (induction ops arbitrary: s)
  case (Cons op ops)
  let ?s = "gate_step enter leave stop users s op"
  have closed: "\<not> admitting ?s" using step_stopped [OF Cons.prems] by blast
  have "users ?s k = users s k - (if op = Leave k then 1 else 0)"
  proof (cases op)
    case Enter
    have "enter s = None" using Cons.prems enter_iff [of s] by blast
    with Enter show ?thesis by (simp add: gate_step_def)
  next
    case (Leave h)
    with leave_users [of s h] show ?thesis by (auto simp: gate_step_def)
  next
    case Stop
    with stop_users [of s] show ?thesis by (simp add: gate_step_def)
  qed
  with Cons.IH [OF closed] show ?case by simp
qed simp

text \<open>Entering and leaving again restores the users.\<close>

lemma enter_leave: "enter s = Some (h, s') \<Longrightarrow> room s \<Longrightarrow> users (leave h s') = users s"
  using enter_users [of s h s'] leave_users [of s' h] by (simp add: fun_upd_idem)

end

end
