(* ===== verification/Service.thy ===== *)
theory Service
  imports Pipeline Gate
begin

text \<open>
  \<open>internal/saver/pipeline.go\<close>, \<open>Service\<close>: the configuration generations, their reference counts and
  the closing of their Headroom clients.  A pointer to a \<open>generationState\<close> is its index in
  \<open>sv_gens\<close>; the closer a factory returns is a number.  Each critical section is one function; what a
  call does after it has released the mutex (closing a runner, ending a metric) is returned and is a
  later step of the system below.  \<open>NewService\<close> sets the current generation, so it is never nil.
\<close>

subsection \<open>State\<close>

record gen_state =
  gn_generation :: u64
  gn_config :: config
  gn_headroom :: bool
  gn_close :: "nat option"
  gn_inflight :: u64
  gn_retired :: bool
  gn_closed :: bool

record service =
  sv_closed :: bool
  sv_gens :: "gen_state list"
  sv_current :: nat
  sv_next :: u64
  sv_metrics :: registry

definition new_generation :: "u64 \<Rightarrow> config \<Rightarrow> bool \<Rightarrow> nat option \<Rightarrow> gen_state" where
  "new_generation n cfg runner closer = \<lparr>gn_generation = n, gn_config = cfg, gn_headroom = runner, gn_close = closer,
     gn_inflight = 0, gn_retired = False, gn_closed = False\<rparr>"

definition NewService :: "gotime \<Rightarrow> service" where
  "NewService now = \<lparr>sv_closed = False, sv_gens = [new_generation 0 Defaults False None], sv_current = 0, sv_next = 0,
     sv_metrics = PublishGeneration 0 (New now)\<rparr>"

definition upd_gen :: "nat \<Rightarrow> (gen_state \<Rightarrow> gen_state) \<Rightarrow> service \<Rightarrow> service" where
  "upd_gen i f s = s\<lparr>sv_gens := (sv_gens s)[i := f (sv_gens s ! i)]\<rparr>"

subsection \<open>Operations\<close>

text \<open>The closer to call, if the generation can be closed now.\<close>

definition closableLocked :: "nat \<Rightarrow> service \<Rightarrow> nat option \<times> service" where
  "closableLocked i s =
     (let g = sv_gens s ! i
      in if \<not> gn_retired g \<or> gn_inflight g \<noteq> 0 \<or> gn_closed g \<or> gn_close g = None then (None, s)
         else (gn_close g, upd_gen i (\<lambda>g. g\<lparr>gn_closed := True\<rparr>) s))"

text \<open>What \<open>HeadroomFactory\<close> returned: an error, or a runner (or none) with a closer (or none).\<close>

datatype factory_reply = FactoryError | FactoryReturns bool "nat option"

text \<open>The production factory; \<open>closer\<close> is the number of the client's \<open>CloseIdleConnections\<close>.\<close>

definition client_timeout :: "config \<Rightarrow> duration" where
  "client_timeout cfg = HeadroomTimeoutMS cfg * millisecond"

definition defaultHeadroomFactory :: "nat \<Rightarrow> config \<Rightarrow> factory_reply" where
  "defaultHeadroomFactory closer cfg =
     (case newClient (HeadroomURL cfg) (client_timeout cfg) of
        Inl _ \<Rightarrow> FactoryError
      | Inr _ \<Rightarrow> FactoryReturns True (Some closer))"

datatype service_error = FactoryFailed | NoRunner | ServiceClosed

text \<open>The critical section of \<open>Reconfigure\<close>: an error and the closer to call after the unlock.\<close>

definition publish_generation :: "config \<Rightarrow> bool \<Rightarrow> nat option \<Rightarrow> service \<Rightarrow> (service_error option \<times> nat option) \<times> service" where
  "publish_generation cfg runner closer s =
     (if sv_closed s then ((Some ServiceClosed, closer), s)
      else
        let n = sv_next s + 1;
            old = sv_current s;
            s1 = s\<lparr>sv_next := n, sv_gens := sv_gens s @ [new_generation n cfg runner closer], sv_current := length (sv_gens s)\<rparr>;
            s2 = upd_gen old (\<lambda>g. g\<lparr>gn_retired := True\<rparr>) s1;
            (c, s3) = closableLocked old s2
        in ((None, c), s3\<lparr>sv_metrics := PublishGeneration n (sv_metrics s3)\<rparr>))"

definition Reconfigure :: "config \<Rightarrow> factory_reply \<Rightarrow> service \<Rightarrow> (service_error option \<times> nat option) \<times> service" where
  "Reconfigure cfg reply s =
     (if HeadroomEnabled cfg then
        (case reply of
           FactoryError \<Rightarrow> ((Some FactoryFailed, None), s)
         | FactoryReturns runner closer \<Rightarrow>
             if \<not> runner then ((Some NoRunner, closer), s) else publish_generation cfg True closer s)
      else publish_generation cfg False None s)"

text \<open>\<open>None\<close> when the service is closed.\<close>

definition acquire :: "service \<Rightarrow> (nat \<times> service) option" where
  "acquire s =
     (if sv_closed s then None
      else
        let i = sv_current s;
            s1 = upd_gen i (\<lambda>g. g\<lparr>gn_inflight := gn_inflight g + 1\<rparr>) s
        in Some (i, s1\<lparr>sv_metrics := Begin (gn_generation (sv_gens s ! i)) (sv_metrics s1)\<rparr>))"

definition drop_user :: "gen_state \<Rightarrow> gen_state" where
  "drop_user g = (if gn_inflight g > 0 then g\<lparr>gn_inflight := gn_inflight g - 1\<rparr> else g)"

text \<open>The critical section of the release hook.\<close>

definition release :: "nat \<Rightarrow> service \<Rightarrow> nat option \<times> service" where
  "release i s = closableLocked i (upd_gen i drop_user s)"

definition end_metric :: "nat \<Rightarrow> service \<Rightarrow> service" where
  "end_metric i s = s\<lparr>sv_metrics := End (gn_generation (sv_gens s ! i)) (sv_metrics s)\<rparr>"

definition Close :: "service \<Rightarrow> nat option \<times> service" where
  "Close s = closableLocked (sv_current s) (upd_gen (sv_current s) (\<lambda>g. g\<lparr>gn_retired := True\<rparr>) (s\<lparr>sv_closed := True\<rparr>))"

definition Generation :: "service \<Rightarrow> u64" where
  "Generation s = gn_generation (sv_gens s ! sv_current s)"

subsection \<open>Headroom status\<close>

record headroom_status =
  hs_observed :: bool
  hs_effective :: bool
  hs_circuit :: "circuit_state option"

text \<open>The zero value has an empty circuit; \<open>status_closed\<close> is the value for a disabled dependency.\<close>

definition status_zero :: headroom_status where
  "status_zero = \<lparr>hs_observed = False, hs_effective = False, hs_circuit = None\<rparr>"

definition status_closed :: headroom_status where
  "status_closed = \<lparr>hs_observed = False, hs_effective = False, hs_circuit = Some CircuitClosed\<rparr>"

text \<open>The first critical section: an immediate answer, or the generation to ask, its count raised.\<close>

definition status_enter :: "service \<Rightarrow> headroom_status + (nat \<times> service)" where
  "status_enter s =
     (if sv_closed s then Inl status_zero
      else
        let i = sv_current s
        in if \<not> HeadroomEnabled (gn_config (sv_gens s ! i)) then Inl status_closed
           else Inr (i, upd_gen i (\<lambda>g. g\<lparr>gn_inflight := gn_inflight g + 1\<rparr>) s))"

definition healthy_outcome :: "headroom_outcome \<Rightarrow> bool" where
  "healthy_outcome oc \<longleftrightarrow> oc = OutcomeApplied \<or> oc = OutcomeNoChange"

text \<open>
  The answers of \<open>HeadroomStatus\<close> and of \<open>HeadroomSnapshot\<close> from the runner's observations; \<open>None\<close> is a
  runner without them.
\<close>

definition probe_status :: "(headroom_outcome \<times> circuit_state) option \<Rightarrow> headroom_status" where
  "probe_status seen =
     (case seen of
        None \<Rightarrow> status_closed
      | Some (oc, circuit) \<Rightarrow>
          \<lparr>hs_observed = True, hs_effective = healthy_outcome oc \<and> circuit = CircuitClosed, hs_circuit = Some circuit\<rparr>)"

definition snapshot_status :: "(headroom_outcome option \<times> circuit_state) option \<Rightarrow> headroom_status" where
  "snapshot_status seen =
     (case seen of
        None \<Rightarrow> status_closed
      | Some (lastOutcome, circuit) \<Rightarrow>
          \<lparr>hs_observed = (lastOutcome \<noteq> None),
           hs_effective = (case lastOutcome of None \<Rightarrow> False | Some oc \<Rightarrow> healthy_outcome oc \<and> circuit = CircuitClosed),
           hs_circuit = Some circuit\<rparr>)"

text \<open>
  The whole calls, with the runner's observations while the generation is held: the answer, and with the new state the closer
  to call when this was the last user of a retired generation.
\<close>

definition releaseStatusState :: "nat \<Rightarrow> service \<Rightarrow> nat option \<times> service" where
  "releaseStatusState i s = closableLocked i (upd_gen i drop_user s)"

definition HeadroomStatus :: "(headroom_outcome \<times> circuit_state) option \<Rightarrow> service \<Rightarrow> headroom_status \<times> nat option \<times> service" where
  "HeadroomStatus seen s =
     (case status_enter s of
        Inl answer \<Rightarrow> (answer, None, s)
      | Inr (i, s1) \<Rightarrow> (probe_status seen, releaseStatusState i s1))"

definition HeadroomSnapshot :: "(headroom_outcome option \<times> circuit_state) option \<Rightarrow> service \<Rightarrow> headroom_status \<times> nat option \<times> service" where
  "HeadroomSnapshot seen s =
     (case status_enter s of
        Inl answer \<Rightarrow> (answer, None, s)
      | Inr (i, s1) \<Rightarrow> (snapshot_status seen, releaseStatusState i s1))"

lemma releaseStatusState_release [simp]: "releaseStatusState i s = release i s"
  by (simp add: releaseStatusState_def release_def)

text \<open>A call that nothing interrupts leaves the service as it was: the current generation is never retired.\<close>

lemma status_call_keeps:
  assumes "sv_current s < length (sv_gens s)" "\<not> gn_retired (sv_gens s ! sv_current s)" "gn_inflight (sv_gens s ! sv_current s) + 1 \<noteq> 0"
  shows "snd (HeadroomStatus seen s) = (None, s)" "snd (HeadroomSnapshot observed s) = (None, s)"
proof -
  let ?up = "\<lambda>g. g\<lparr>gn_inflight := gn_inflight g + 1\<rparr>" and ?i = "sv_current s"
  have "drop_user (?up (sv_gens s ! ?i)) = sv_gens s ! ?i"
    using assms(3) by (simp add: drop_user_def word_gt_0)
  then have "upd_gen ?i drop_user (upd_gen ?i ?up s) = s" using assms(1) by (simp add: upd_gen_def)
  then have "releaseStatusState ?i (upd_gen ?i ?up s) = (None, s)"
    using assms(2) by (simp add: release_def closableLocked_def Let_def)
  then show "snd (HeadroomStatus seen s) = (None, s)" "snd (HeadroomSnapshot observed s) = (None, s)"
    by (simp_all add: HeadroomStatus_def HeadroomSnapshot_def status_enter_def Let_def)
qed

subsection \<open>The concurrent system\<close>

text \<open>
  Requests and status calls that hold a generation, hooks that have released it but not yet ended
  their metric, closers about to be called and closers called, and the closers the factory has made.
  Fewer than 2^64 calls are alive at any time.
\<close>

record service_system =
  ls_service :: service
  ls_requests :: "nat multiset"
  ls_probes :: "nat multiset"
  ls_ending :: "nat multiset"
  ls_closing :: "nat multiset"
  ls_called :: "nat multiset"
  ls_made :: "nat set"

definition closers :: "nat option \<Rightarrow> nat multiset" where
  "closers c = (case c of None \<Rightarrow> {#} | Some x \<Rightarrow> {#x#})"

definition reply_closers :: "config \<Rightarrow> factory_reply \<Rightarrow> nat set" where
  "reply_closers cfg reply = (case reply of FactoryReturns _ c \<Rightarrow> if HeadroomEnabled cfg then set_option c else {} | FactoryError \<Rightarrow> {})"

definition live_calls :: "service_system \<Rightarrow> nat" where
  "live_calls t = size (ls_requests t) + size (ls_probes t) + size (ls_ending t)"

inductive service_step :: "service_system \<Rightarrow> service_system \<Rightarrow> bool" where
  service_reconfigure:
    "Reconfigure cfg reply (ls_service t) = ((err, c), s) \<Longrightarrow> reply_closers cfg reply \<inter> ls_made t = {} \<Longrightarrow>
     service_step t (t\<lparr>ls_service := s, ls_closing := ls_closing t + closers c, ls_made := ls_made t \<union> reply_closers cfg reply\<rparr>)"
| service_acquire:
    "acquire (ls_service t) = Some (i, s) \<Longrightarrow> Suc (live_calls t) < 2 ^ 64 \<Longrightarrow>
     service_step t (t\<lparr>ls_service := s, ls_requests := add_mset i (ls_requests t)\<rparr>)"
| service_release:
    "i \<in># ls_requests t \<Longrightarrow> release i (ls_service t) = (c, s) \<Longrightarrow>
     service_step t (t\<lparr>ls_service := s, ls_requests := ls_requests t - {#i#}, ls_ending := add_mset i (ls_ending t),
       ls_closing := ls_closing t + closers c\<rparr>)"
| service_end_metric:
    "i \<in># ls_ending t \<Longrightarrow>
     service_step t (t\<lparr>ls_service := end_metric i (ls_service t), ls_ending := ls_ending t - {#i#}\<rparr>)"
| service_probe:
    "status_enter (ls_service t) = Inr (i, s) \<Longrightarrow> Suc (live_calls t) < 2 ^ 64 \<Longrightarrow>
     service_step t (t\<lparr>ls_service := s, ls_probes := add_mset i (ls_probes t)\<rparr>)"
| service_probe_end:
    "i \<in># ls_probes t \<Longrightarrow> releaseStatusState i (ls_service t) = (c, s) \<Longrightarrow>
     service_step t (t\<lparr>ls_service := s, ls_probes := ls_probes t - {#i#}, ls_closing := ls_closing t + closers c\<rparr>)"
| service_close:
    "Close (ls_service t) = (c, s) \<Longrightarrow>
     service_step t (t\<lparr>ls_service := s, ls_closing := ls_closing t + closers c\<rparr>)"
| service_call_closer:
    "c \<in># ls_closing t \<Longrightarrow>
     service_step t (t\<lparr>ls_closing := ls_closing t - {#c#}, ls_called := add_mset c (ls_called t)\<rparr>)"

definition service_start :: "gotime \<Rightarrow> service_system" where
  "service_start now = \<lparr>ls_service = NewService now, ls_requests = {#}, ls_probes = {#}, ls_ending = {#}, ls_closing = {#},
     ls_called = {#}, ls_made = {}\<rparr>"

inductive service_reach :: "service_system \<Rightarrow> bool" where
  service_reach_start: "service_reach (service_start now)"
| service_reach_step: "service_reach t \<Longrightarrow> service_step t t' \<Longrightarrow> service_reach t'"

subsection \<open>The admission gate\<close>

lemma upd_gen_nth:
  "i < length (sv_gens s) \<Longrightarrow> sv_gens (upd_gen j f s) ! i = (if i = j then f (sv_gens s ! i) else sv_gens s ! i)"
  by (simp add: upd_gen_def)

lemma upd_gen_simps [simp]:
  "length (sv_gens (upd_gen j f s)) = length (sv_gens s)" "sv_current (upd_gen j f s) = sv_current s"
  "sv_closed (upd_gen j f s) = sv_closed s" "sv_next (upd_gen j f s) = sv_next s" "sv_metrics (upd_gen j f s) = sv_metrics s"
  by (simp_all add: upd_gen_def)

lemma closableLocked_closed [simp]: "sv_closed (snd (closableLocked i s)) = sv_closed s"
  by (simp add: closableLocked_def Let_def)

lemma closableLocked_metrics [simp]: "sv_metrics (snd (closableLocked i s)) = sv_metrics s"
  by (simp add: closableLocked_def Let_def)

text \<open>The service is an admission gate for its generations.\<close>

definition generation_users :: "service \<Rightarrow> nat \<Rightarrow> nat" where
  "generation_users s i = (if i < length (sv_gens s) then unat (gn_inflight (sv_gens s ! i)) else 0)"

definition generation_room :: "service \<Rightarrow> bool" where
  "generation_room s \<longleftrightarrow> sv_current s < length (sv_gens s) \<and> Suc (generation_users s (sv_current s)) < 2 ^ 64"

lemma generation_users_closable [simp]: "generation_users (snd (closableLocked i s)) = generation_users s"
  by (rule ext) (simp add: closableLocked_def Let_def generation_users_def upd_gen_nth)

lemma generation_users_metrics [simp]: "generation_users (s\<lparr>sv_metrics := m\<rparr>) = generation_users s"
  by (rule ext) (simp add: generation_users_def)

interpretation generations: admission_gate generation_users "\<lambda>s. \<not> sv_closed s" generation_room acquire
  "\<lambda>i s. snd (release i s)" "\<lambda>s. snd (Close s)"
proof unfold_locales
  fix s h s'
  show "(acquire s \<noteq> None) = (\<not> sv_closed s)" by (simp add: acquire_def Let_def)
  show "generation_users s' = (generation_users s)(h := Suc (generation_users s h)) \<and> \<not> sv_closed s'"
    if "acquire s = Some (h, s')" "generation_room s"
  proof -
    have h: "h = sv_current s" "\<not> sv_closed s"
      "s' = (upd_gen h (\<lambda>g. g\<lparr>gn_inflight := gn_inflight g + 1\<rparr>) s)\<lparr>sv_metrics := Begin (gn_generation (sv_gens s ! h)) (sv_metrics s)\<rparr>"
      using that(1) by (auto simp: acquire_def Let_def split: if_splits)
    have "unat (gn_inflight (sv_gens s ! h) + 1) = Suc (unat (gn_inflight (sv_gens s ! h)))"
      using that(2) h(1) by (intro unat_word64_Suc) (auto simp: generation_room_def generation_users_def)
    then show ?thesis using h that(2)
      by (auto simp: fun_eq_iff generation_users_def generation_room_def upd_gen_nth)
  qed
  show "generation_users (snd (release h s)) = (generation_users s)(h := generation_users s h - 1)" if "0 < generation_users s h"
  proof -
    have "gn_inflight (sv_gens s ! h) \<noteq> 0" using that by (auto simp: generation_users_def split: if_splits)
    then have "unat (gn_inflight (drop_user (sv_gens s ! h))) = unat (gn_inflight (sv_gens s ! h)) - 1"
      by (simp add: drop_user_def word_gt_0_iff unat_word64_pred)
    then show ?thesis by (auto simp: fun_eq_iff release_def generation_users_def upd_gen_nth)
  qed
  show "(\<not> sv_closed (snd (release h s))) = (\<not> sv_closed s)" by (simp add: release_def)
  show "generation_users (snd (Close s)) = generation_users s"
    by (rule ext) (simp add: Close_def generation_users_def upd_gen_nth)
  show "\<not> \<not> sv_closed (snd (Close s))" by (simp add: Close_def)
qed

text \<open>After \<open>Close\<close>, whatever is called, a generation without users never gets one again.\<close>

lemmas closed_service_drains = generations.stopped_drains generations.drained_after_stop

subsection \<open>Reconfiguration with a valid configuration\<close>

lemma config_ok_client:
  assumes "config_ok cfg"
  shows "\<exists>endpoint c. newClient (HeadroomURL cfg) (client_timeout cfg) = Inr (endpoint, c)
     \<and> url_string endpoint = HeadroomEndpoint cfg \<and> cl_timeout c = client_timeout cfg"
proof -
  have ok: "normalizeHeadroomURL (HeadroomURL cfg) = Inr (HeadroomURL cfg)"
    and ms: "100 \<le> HeadroomTimeoutMS cfg" "HeadroomTimeoutMS cfg \<le> 1500"
    using assms by (auto simp: config_ok_def MinHeadroomTimeoutMS_def MaxHeadroomTimeoutMS_def)
  obtain h where h: "loopback_authority h" "HeadroomURL cfg = ''http://'' @ h"
    "fst (split_host_port h) = ''127.0.0.1'' \<or> fst (split_host_port h) = ''::1''"
    "snd (split_host_port h) = [] \<or> port_in_range (snd (split_host_port h))"
    using normalize_accepts [OF ok] by blast
  have "minTimeout \<le> client_timeout cfg" "client_timeout cfg \<le> maxTimeout"
    using ms by (simp_all add: client_timeout_def minTimeout_def maxTimeout_def)
  with normalize_loopback(2) [OF h(1,3,4)] endpoint_string [OF h(1)] h(2) show ?thesis
    by (simp add: newClient_def HeadroomEndpoint_def)
qed

lemma config_ok_factory: "config_ok cfg \<Longrightarrow> defaultHeadroomFactory closer cfg = FactoryReturns True (Some closer)"
  using config_ok_client [of cfg] by (auto simp: defaultHeadroomFactory_def)

text \<open>What a reconfiguration does to the open service, and that it only fails when the service is closed.\<close>

lemma upd_gen_field: "(\<And>g. p (f g) = p g) \<Longrightarrow> p (sv_gens (upd_gen i f s) ! j) = p (sv_gens s ! j)"
  by (cases "i < length (sv_gens s)"; cases "i = j") (simp_all add: upd_gen_def not_less list_update_beyond)

lemma closableLocked_field: "(\<And>g. p (g\<lparr>gn_closed := True\<rparr>) = p g) \<Longrightarrow> p (sv_gens (snd (closableLocked i s)) ! j) = p (sv_gens s ! j)"
  by (simp add: closableLocked_def Let_def upd_gen_field)

lemma closableLocked_current [simp]: "sv_current (snd (closableLocked i s)) = sv_current s"
  "gn_config (sv_gens (snd (closableLocked i s)) ! j) = gn_config (sv_gens s ! j)"
  "gn_generation (sv_gens (snd (closableLocked i s)) ! j) = gn_generation (sv_gens s ! j)"
  "gn_headroom (sv_gens (snd (closableLocked i s)) ! j) = gn_headroom (sv_gens s ! j)"
  by (simp add: closableLocked_def Let_def) (rule closableLocked_field, simp)+

lemma publish_current:
  assumes "\<not> sv_closed s" "publish_generation cfg runner closer s = ((err, c), s')"
  shows "err = None" "\<not> sv_closed s'" "sv_current s' = length (sv_gens s)" "gn_config (sv_gens s' ! sv_current s') = cfg"
    "Generation s' = sv_next s + 1" "gn_headroom (sv_gens s' ! sv_current s') = runner"
proof -
  let ?s1 = "s\<lparr>sv_next := sv_next s + 1, sv_gens := sv_gens s @ [new_generation (sv_next s + 1) cfg runner closer], sv_current := length (sv_gens s)\<rparr>"
  let ?s2 = "upd_gen (sv_current s) (\<lambda>g. g\<lparr>gn_retired := True\<rparr>) ?s1"
  have "err = None \<and> s' = (snd (closableLocked (sv_current s) ?s2))
      \<lparr>sv_metrics := PublishGeneration (sv_next s + 1) (sv_metrics s)\<rparr>"
    using assms by (auto simp: publish_generation_def Let_def case_prod_unfold)
  moreover have "gn_config (sv_gens ?s2 ! length (sv_gens s)) = cfg" "gn_headroom (sv_gens ?s2 ! length (sv_gens s)) = runner"
    "gn_generation (sv_gens ?s2 ! length (sv_gens s)) = sv_next s + 1"
    by (simp_all add: upd_gen_nth new_generation_def nth_append)
  ultimately show "err = None" "\<not> sv_closed s'" "sv_current s' = length (sv_gens s)" "gn_config (sv_gens s' ! sv_current s') = cfg"
    "Generation s' = sv_next s + 1" "gn_headroom (sv_gens s' ! sv_current s') = runner"
    using assms(1) by (simp_all add: Generation_def)
qed

lemma Reconfigure_config_ok:
  assumes "config_ok cfg" "Reconfigure cfg (defaultHeadroomFactory closer cfg) s = ((err, c), s')"
  shows "if sv_closed s then err = Some ServiceClosed \<and> s' = s
    else err = None \<and> \<not> sv_closed s' \<and> gn_config (sv_gens s' ! sv_current s') = cfg
      \<and> Generation s' = sv_next s + 1 \<and> (gn_headroom (sv_gens s' ! sv_current s') \<longleftrightarrow> HeadroomEnabled cfg)"
proof (cases "sv_closed s")
  case True
  with assms show ?thesis
    by (auto simp: Reconfigure_def config_ok_factory publish_generation_def split: if_splits)
next
  case False
  have "publish_generation cfg (HeadroomEnabled cfg) (if HeadroomEnabled cfg then Some closer else None) s = ((err, c), s')"
    using assms by (auto simp: Reconfigure_def config_ok_factory split: if_splits)
  from publish_current [OF False this] False show ?thesis by simp
qed

end
