(* ===== verification/Generations.thy ===== *)
theory Generations
  imports Service
begin

text \<open>
  The lifecycle of the configuration generations in every interleaving of the service system: the
  invariant that ties reference counts, retirement and closing together, draining after \<open>Close\<close>, the
  stability of a generation under a request, and the in-flight metric.
\<close>

subsection \<open>The invariant of the generations\<close>

text \<open>
  \<open>users\<close> are the calls that hold a generation, \<open>made\<close> the closers the factory made, \<open>out\<close> the
  closers handed out to be called.  \<open>gens_ok None\<close> is the invariant; \<open>gens_ok (Some j)\<close> leaves open
  whether generation \<open>j\<close> still has to be closed, which \<open>closableLocked j\<close> then decides.
\<close>

definition close_due :: "gen_state \<Rightarrow> bool" where
  "close_due g \<longleftrightarrow> gn_retired g \<and> gn_inflight g = 0 \<and> gn_close g \<noteq> None"

definition owns :: "gen_state list \<Rightarrow> nat \<Rightarrow> nat \<Rightarrow> bool" where
  "owns gens i c \<longleftrightarrow> i < length gens \<and> gn_close (gens ! i) = Some c"

definition gens_ok :: "nat option \<Rightarrow> service \<Rightarrow> nat multiset \<Rightarrow> nat set \<Rightarrow> nat multiset \<Rightarrow> bool" where
  "gens_ok op s users made out \<longleftrightarrow>
     sv_current s < length (sv_gens s)
   \<and> (\<forall>i < length (sv_gens s). unat (gn_inflight (sv_gens s ! i)) = count users i
        \<and> (gn_retired (sv_gens s ! i) \<longleftrightarrow> i \<noteq> sv_current s \<or> sv_closed s)
        \<and> (gn_closed (sv_gens s ! i) \<longrightarrow> close_due (sv_gens s ! i))
        \<and> (close_due (sv_gens s ! i) \<longrightarrow> Some i = op \<or> gn_closed (sv_gens s ! i)))
   \<and> (\<forall>i \<in># users. i < length (sv_gens s))
   \<and> (\<forall>i j c. owns (sv_gens s) i c \<longrightarrow> owns (sv_gens s) j c \<longrightarrow> i = j)
   \<and> (\<forall>i c. owns (sv_gens s) i c \<longrightarrow> c \<in> made)
   \<and> (\<forall>c. count out c = (if c \<in> made \<and> (\<forall>i. owns (sv_gens s) i c \<longrightarrow> gn_closed (sv_gens s ! i)) then 1 else 0))"

lemma gens_okD:
  assumes "gens_ok op s users made out"
  shows "sv_current s < length (sv_gens s)"
    "i < length (sv_gens s) \<Longrightarrow> unat (gn_inflight (sv_gens s ! i)) = count users i"
    "i < length (sv_gens s) \<Longrightarrow> gn_retired (sv_gens s ! i) \<longleftrightarrow> i \<noteq> sv_current s \<or> sv_closed s"
    "i < length (sv_gens s) \<Longrightarrow> gn_closed (sv_gens s ! i) \<Longrightarrow> close_due (sv_gens s ! i)"
    "i < length (sv_gens s) \<Longrightarrow> close_due (sv_gens s ! i) \<Longrightarrow> Some i \<noteq> op \<Longrightarrow> gn_closed (sv_gens s ! i)"
    "i \<in># users \<Longrightarrow> i < length (sv_gens s)"
    "owns (sv_gens s) i c \<Longrightarrow> owns (sv_gens s) j c \<Longrightarrow> i = j"
    "owns (sv_gens s) i c \<Longrightarrow> c \<in> made"
    "count out c = (if c \<in> made \<and> (\<forall>i. owns (sv_gens s) i c \<longrightarrow> gn_closed (sv_gens s ! i)) then 1 else 0)"
  using assms unfolding gens_ok_def by blast+

lemma gens_okI:
  assumes "sv_current s < length (sv_gens s)"
    "\<And>i. i < length (sv_gens s) \<Longrightarrow> unat (gn_inflight (sv_gens s ! i)) = count users i"
    "\<And>i. i < length (sv_gens s) \<Longrightarrow> gn_retired (sv_gens s ! i) \<longleftrightarrow> i \<noteq> sv_current s \<or> sv_closed s"
    "\<And>i. i < length (sv_gens s) \<Longrightarrow> gn_closed (sv_gens s ! i) \<Longrightarrow> close_due (sv_gens s ! i)"
    "\<And>i. i < length (sv_gens s) \<Longrightarrow> close_due (sv_gens s ! i) \<Longrightarrow> Some i \<noteq> op \<Longrightarrow> gn_closed (sv_gens s ! i)"
    "\<And>i. i \<in># users \<Longrightarrow> i < length (sv_gens s)"
    "\<And>i j c. owns (sv_gens s) i c \<Longrightarrow> owns (sv_gens s) j c \<Longrightarrow> i = j"
    "\<And>i c. owns (sv_gens s) i c \<Longrightarrow> c \<in> made"
    "\<And>c. count out c = (if c \<in> made \<and> (\<forall>i. owns (sv_gens s) i c \<longrightarrow> gn_closed (sv_gens s ! i)) then 1 else 0)"
  shows "gens_ok op s users made out"
  unfolding gens_ok_def using assms by blast

lemma gens_ok_weaken: "gens_ok None s users made out \<Longrightarrow> gens_ok (Some j) s users made out"
  unfolding gens_ok_def by blast

lemma gens_ok_metrics [simp]: "gens_ok op (s\<lparr>sv_metrics := m\<rparr>) users made out = gens_ok op s users made out"
  by (simp add: gens_ok_def)

text \<open>\<open>closableLocked\<close> closes the pending case.\<close>

lemma closable_ok:
  assumes "gens_ok (Some j) s users made out" "j < length (sv_gens s)" "closableLocked j s = (c, s')"
  shows "gens_ok None s' users made (out + closers c)"
proof (cases "close_due (sv_gens s ! j) \<and> \<not> gn_closed (sv_gens s ! j)")
  case False
  then have "s' = s" "c = None"
    using assms(3) by (auto simp: closableLocked_def Let_def close_due_def split: if_splits)
  then show ?thesis using assms(1) False unfolding gens_ok_def closers_def by auto
next
  case True
  then obtain x where x: "gn_close (sv_gens s ! j) = Some x" by (auto simp: close_due_def)
  have s': "s' = upd_gen j (\<lambda>g. g\<lparr>gn_closed := True\<rparr>) s" "c = Some x"
    using assms(3) True x by (auto simp: closableLocked_def Let_def close_due_def)
  note d = gens_okD [OF assms(1)]
  have len: "length (sv_gens s') = length (sv_gens s)" by (simp add: s'(1) upd_gen_def)
  have nth: "sv_gens s' ! i = (if i = j then (sv_gens s ! i)\<lparr>gn_closed := True\<rparr> else sv_gens s ! i)" if "i < length (sv_gens s)" for i
    using that by (simp add: s'(1) upd_gen_def)
  have own: "owns (sv_gens s') i y \<longleftrightarrow> owns (sv_gens s) i y" for i y
    unfolding owns_def len using nth by (auto split: if_splits)
  have ownx: "owns (sv_gens s) j x" using x assms(2) by (simp add: owns_def)
  have cur: "sv_current s' = sv_current s" "sv_closed s' = sv_closed s" by (simp_all add: s'(1) upd_gen_def)
  show ?thesis
  proof (rule gens_okI)
    show "sv_current s' < length (sv_gens s')" using d(1) cur len by simp
    fix i assume "i < length (sv_gens s')"
    then have i: "i < length (sv_gens s)" by (simp add: len)
    show "unat (gn_inflight (sv_gens s' ! i)) = count users i" using d(2) [OF i] nth [OF i] by auto
    show "gn_retired (sv_gens s' ! i) \<longleftrightarrow> i \<noteq> sv_current s' \<or> sv_closed s'" using d(3) [OF i] nth [OF i] cur by auto
    have due: "close_due (sv_gens s' ! i) = close_due (sv_gens s ! i)" using nth [OF i] by (simp add: close_due_def)
    show "close_due (sv_gens s' ! i)" if "gn_closed (sv_gens s' ! i)"
      using that d(4) [OF i] nth [OF i] True due by (auto split: if_splits)
    show "gn_closed (sv_gens s' ! i)" if "close_due (sv_gens s' ! i)"
      using that d(5) [OF i] nth [OF i] due by auto
  next
    show "i < length (sv_gens s')" if "i \<in># users" for i using d(6) [OF that] len by simp
    show "i = k" if "owns (sv_gens s') i y" "owns (sv_gens s') k y" for i k y using that d(7) unfolding own by blast
    show "y \<in> made" if "owns (sv_gens s') i y" for i y using that d(8) unfolding own by blast
    show "count (out + closers c) y = (if y \<in> made \<and> (\<forall>i. owns (sv_gens s') i y \<longrightarrow> gn_closed (sv_gens s' ! i)) then 1 else 0)" for y
    proof (cases "y = x")
      case yx: True
      have "count out x = 0" using d(9) [of x] ownx True by auto
      moreover have "\<forall>i. owns (sv_gens s') i x \<longrightarrow> gn_closed (sv_gens s' ! i)"
        using d(7) [OF ownx] nth own by (auto simp: owns_def)
      ultimately show ?thesis using yx d(8) [OF ownx] s'(2) by (simp add: closers_def)
    next
      case False
      have "gn_closed (sv_gens s' ! i) = gn_closed (sv_gens s ! i)" if "owns (sv_gens s) i y" for i
        using that nth [of i] x False by (auto simp: owns_def)
      with d(9) [of y] False s'(2) own show ?thesis by (simp add: closers_def cong: imp_cong)
    qed
  qed
qed

text \<open>An update of one generation that leaves its identity alone.\<close>

lemma upd_gen_owns: "(\<And>g. gn_close (f g) = gn_close g) \<Longrightarrow> owns (sv_gens (upd_gen j f s)) = owns (sv_gens s)"
  by (rule ext)+ (auto simp: owns_def upd_gen_nth split: if_splits)

text \<open>Taking a user of the current generation, and giving one back.\<close>

lemma add_user_ok:
  assumes "gens_ok None s users made out" "\<not> sv_closed s" "Suc (size users) < 2 ^ 64"
  shows "gens_ok None (upd_gen (sv_current s) (\<lambda>g. g\<lparr>gn_inflight := gn_inflight g + 1\<rparr>) s) (add_mset (sv_current s) users) made out"
proof -
  let ?f = "\<lambda>g. g\<lparr>gn_inflight := gn_inflight g + 1\<rparr>" and ?j = "sv_current s"
  note d = gens_okD [OF assms(1)]
  have own: "owns (sv_gens (upd_gen ?j ?f s)) = owns (sv_gens s)" by (rule upd_gen_owns) simp
  have nr: "\<not> gn_retired (sv_gens s ! ?j)" using d(3) [OF d(1)] assms(2) by blast
  have bound: "Suc (unat (gn_inflight (sv_gens s ! ?j))) < 2 ^ 64"
    using d(2) [OF d(1)] count_le_size_nat [of users ?j] assms(3) by linarith
  show ?thesis
  proof (rule gens_okI, goal_cases)
    case 1 then show ?case using d(1) by simp
  next
    case (2 i) then show ?case using d(2) [of i] unat_word64_Suc [OF bound] by (auto simp: upd_gen_nth)
  next
    case (3 i) then show ?case using d(3) [of i] by (auto simp: upd_gen_nth)
  next
    case (4 i) then show ?case using d(4) [of i] nr by (auto simp: upd_gen_nth close_due_def split: if_splits)
  next
    case (5 i) then show ?case using d(5) [of i] nr by (auto simp: upd_gen_nth close_due_def split: if_splits)
  next
    case (6 i) then show ?case using d(1) d(6) [of i] by auto
  next
    case (7 i j c) then show ?case using d(7) unfolding own by blast
  next
    case (8 i c) then show ?case using d(8) unfolding own by blast
  next
    case (9 c)
    have "gn_closed (sv_gens (upd_gen ?j ?f s) ! i) = gn_closed (sv_gens s ! i)" if "owns (sv_gens s) i c" for i
      using that by (simp add: owns_def upd_gen_nth)
    then show ?case using d(9) [of c] unfolding own by (simp cong: imp_cong)
  qed
qed

lemma drop_user_ok:
  assumes "gens_ok None s users made out" "j \<in># users"
  shows "gens_ok (Some j) (upd_gen j drop_user s) (users - {#j#}) made out"
proof -
  note d = gens_okD [OF assms(1)]
  have own: "owns (sv_gens (upd_gen j drop_user s)) = owns (sv_gens s)" by (rule upd_gen_owns) (simp add: drop_user_def)
  have j: "j < length (sv_gens s)" by (rule d(6) [OF assms(2)])
  have pos: "gn_inflight (sv_gens s ! j) \<noteq> 0"
  proof
    assume "gn_inflight (sv_gens s ! j) = 0"
    then have "count users j = 0" using d(2) [OF j] by simp
    with assms(2) show False by (metis count_eq_zero_iff)
  qed
  have drop: "unat (gn_inflight (drop_user (sv_gens s ! j))) = count users j - 1"
    using d(2) [OF j] pos unat_word64_pred [OF pos] by (simp add: drop_user_def word_gt_0_iff)
  have nc: "\<not> gn_closed (sv_gens s ! j)" using d(4) [OF j] pos by (auto simp: close_due_def)
  have same: "gn_closed (drop_user g) = gn_closed g" "gn_retired (drop_user g) = gn_retired g" for g by (simp_all add: drop_user_def)
  show ?thesis
  proof (rule gens_okI, goal_cases)
    case 1 then show ?case using d(1) by simp
  next
    case (2 i) then show ?case using d(2) [of i] drop by (auto simp: upd_gen_nth)
  next
    case (3 i) then show ?case using d(3) [of i] by (auto simp: upd_gen_nth same)
  next
    case (4 i) then show ?case using d(4) [of i] nc by (auto simp: upd_gen_nth same split: if_splits)
  next
    case (5 i) then show ?case using d(5) [of i] by (auto simp: upd_gen_nth split: if_splits)
  next
    case (6 i) then show ?case using d(6) [of i] by (auto dest: in_diffD)
  next
    case (7 i j c) then show ?case using d(7) unfolding own by blast
  next
    case (8 i c) then show ?case using d(8) unfolding own by blast
  next
    case (9 c)
    have "gn_closed (sv_gens (upd_gen j drop_user s) ! i) = gn_closed (sv_gens s ! i)" if "owns (sv_gens s) i c" for i
      using that by (simp add: owns_def upd_gen_nth same)
    then show ?case using d(9) [of c] unfolding own by (simp cong: imp_cong)
  qed
qed

lemma release_ok:
  assumes "gens_ok None s users made out" "j \<in># users" "release j s = (c, s')"
  shows "gens_ok None s' (users - {#j#}) made (out + closers c)"
proof -
  have "j < length (sv_gens (upd_gen j drop_user s))" using gens_okD(6) [OF assms(1,2)] by simp
  from closable_ok [OF drop_user_ok [OF assms(1,2)] this] assms(3) show ?thesis by (simp add: release_def)
qed

lemma Close_ok:
  assumes "gens_ok None s users made out" "Close s = (c, s')"
  shows "gens_ok None s' users made (out + closers c)"
proof -
  let ?f = "\<lambda>g. g\<lparr>gn_retired := True\<rparr>" and ?j = "sv_current s"
  let ?s = "upd_gen ?j ?f (s\<lparr>sv_closed := True\<rparr>)"
  note d = gens_okD [OF assms(1)]
  have own: "owns (sv_gens ?s) = owns (sv_gens s)" using upd_gen_owns [of ?f ?j "s\<lparr>sv_closed := True\<rparr>"] by simp
  have nth: "sv_gens ?s ! i = (if i = ?j then ?f (sv_gens s ! i) else sv_gens s ! i)" if "i < length (sv_gens s)" for i
    using that upd_gen_nth [of i "s\<lparr>sv_closed := True\<rparr>"] by simp
  have "gens_ok (Some ?j) ?s users made out"
  proof (rule gens_okI, goal_cases)
    case 1 then show ?case using d(1) by simp
  next
    case (2 i) then show ?case using d(2) [of i] by (auto simp: nth)
  next
    case (3 i) then show ?case using d(3) [of i] by (auto simp: nth)
  next
    case (4 i) then show ?case using d(4) [of i] by (auto simp: nth close_due_def split: if_splits)
  next
    case (5 i) then show ?case using d(5) [of i] by (auto simp: nth split: if_splits)
  next
    case (6 i) then show ?case using d(6) [of i] by simp
  next
    case (7 i j c) then show ?case using d(7) unfolding own by blast
  next
    case (8 i c) then show ?case using d(8) unfolding own by blast
  next
    case (9 c)
    have "gn_closed (sv_gens ?s ! i) = gn_closed (sv_gens s ! i)" if "owns (sv_gens s) i c" for i
      using that by (simp add: owns_def nth)
    then show ?case using d(9) [of c] unfolding own by (simp cong: imp_cong)
  qed
  moreover have "?j < length (sv_gens ?s)" using d(1) by simp
  ultimately show ?thesis using closable_ok assms(2) unfolding Close_def by blast
qed

lemma publish_ok:
  assumes "gens_ok None s users made out" "set_option closer \<inter> made = {}" "\<not> sv_closed s"
    "publish_generation cfg runner closer s = ((err, c), s')"
  shows "gens_ok None s' users (made \<union> set_option closer) (out + closers c)"
proof -
  let ?n = "length (sv_gens s)" and ?old = "sv_current s" and ?f = "\<lambda>g. g\<lparr>gn_retired := True\<rparr>"
  let ?g = "new_generation (sv_next s + 1) cfg runner closer"
  let ?s1 = "s\<lparr>sv_next := sv_next s + 1, sv_gens := sv_gens s @ [?g], sv_current := ?n\<rparr>"
  let ?s2 = "upd_gen ?old ?f ?s1"
  note d = gens_okD [OF assms(1)]
  have nth: "sv_gens ?s2 ! i = (if i = ?n then ?g else if i = ?old then ?f (sv_gens s ! i) else sv_gens s ! i)" if "i < Suc ?n" for i
    using that d(1) upd_gen_nth [of i ?s1 ?old ?f] by (auto simp: nth_append less_Suc_eq)
  have own: "owns (sv_gens ?s2) i x \<longleftrightarrow> (if i = ?n then closer = Some x else owns (sv_gens s) i x)" for i x
    using nth [of i] by (auto simp: owns_def new_generation_def split: if_splits)
  have fresh: "closer = Some x \<Longrightarrow> x \<notin> made" for x using assms(2) by auto
  have new: "gn_inflight ?g = 0" "\<not> gn_retired ?g" "\<not> gn_closed ?g" "\<not> close_due ?g"
    by (simp_all add: new_generation_def close_due_def)
  have un: "count users ?n = 0" using d(6) [of ?n] by (auto simp: not_in_iff [symmetric])
  have "gens_ok (Some ?old) ?s2 users (made \<union> set_option closer) out"
  proof (rule gens_okI, goal_cases)
    case 1 then show ?case by simp
  next
    case (2 i) then show ?case using d(2) [of i] un new by (auto simp: nth less_Suc_eq)
  next
    case (3 i) then show ?case using d(1) d(3) [of i] new assms(3) by (auto simp: nth less_Suc_eq)
  next
    case (4 i) then show ?case using d(4) [of i] new by (auto simp: nth less_Suc_eq close_due_def split: if_splits)
  next
    case (5 i) then show ?case using d(5) [of i] new by (auto simp: nth less_Suc_eq split: if_splits)
  next
    case (6 i) then show ?case using d(6) [of i] by simp
  next
    case (7 i j x)
    have no: "\<not> owns (sv_gens s) k x" if "closer = Some x" for k using d(8) [of k x] fresh [OF that] by blast
    show ?case
    proof (cases "i = ?n \<or> j = ?n")
      case True
      then show ?thesis using 7 no unfolding own by metis
    next
      case False
      then show ?thesis using 7 d(7) [of i x j] unfolding own by simp
    qed
  next
    case (8 i x) then show ?case using d(8) [of i x] unfolding own by (cases "i = ?n") simp_all
  next
    case (9 x)
    have "gn_closed (sv_gens ?s2 ! i) = gn_closed (sv_gens s ! i)" if "owns (sv_gens s) i x" for i
      using that by (auto simp: owns_def nth)
    then have old: "(\<forall>i. owns (sv_gens s) i x \<longrightarrow> gn_closed (sv_gens ?s2 ! i)) = (\<forall>i. owns (sv_gens s) i x \<longrightarrow> gn_closed (sv_gens s ! i))"
      by blast
    have ne: "owns (sv_gens s) i x \<Longrightarrow> i \<noteq> ?n" for i by (simp add: owns_def)
    show ?case
    proof (cases "closer = Some x")
      case True
      then have "x \<notin> made" "owns (sv_gens ?s2) ?n x" "\<not> gn_closed (sv_gens ?s2 ! ?n)"
        using fresh own nth [of ?n] new by auto
      then show ?thesis using d(9) [of x] by auto
    next
      case False
      then have "owns (sv_gens ?s2) i x = owns (sv_gens s) i x" for i using own ne by auto
      then show ?thesis using d(9) [of x] old False by auto
    qed
  qed
  moreover have "?old < length (sv_gens ?s2)" using d(1) by simp
  moreover obtain c3 s3 where "closableLocked ?old ?s2 = (c3, s3)" by fastforce
  ultimately have "gens_ok None s3 users (made \<union> set_option closer) (out + closers c3)" using closable_ok by blast
  with \<open>closableLocked ?old ?s2 = (c3, s3)\<close> assms(3,4) show ?thesis
    by (auto simp: publish_generation_def Let_def)
qed

text \<open>A closer that belongs to no generation is called at once.\<close>

lemma unowned_ok:
  assumes "gens_ok None s users made out" "set_option closer \<inter> made = {}"
  shows "gens_ok None s users (made \<union> set_option closer) (out + closers closer)"
proof (cases closer)
  case None
  then show ?thesis using assms(1) by (simp add: closers_def)
next
  case (Some x)
  note d = gens_okD [OF assms(1)]
  have fresh: "x \<notin> made" "\<not> owns (sv_gens s) i x" for i using assms(2) Some d(8) by auto
  show ?thesis
  proof (rule gens_okI, goal_cases)
    case (9 y)
    show ?case
    proof (cases "y = x")
      case True
      then show ?thesis using d(9) [of x] fresh Some by (simp add: closers_def)
    next
      case False
      then show ?thesis using d(9) [of y] Some by (simp add: closers_def)
    qed
  next
    case (8 i y) then show ?case using d(8) by blast
  qed (use d(1-7) in blast)+
qed

lemma Reconfigure_ok:
  assumes "gens_ok None s users made out" "reply_closers cfg reply \<inter> made = {}" "Reconfigure cfg reply s = ((err, c), s')"
  shows "gens_ok None s' users (made \<union> reply_closers cfg reply) (out + closers c)"
proof (cases "HeadroomEnabled cfg")
  case False
  then have p: "publish_generation cfg False None s = ((err, c), s')" "reply_closers cfg reply = {}"
    using assms(3) by (auto simp: Reconfigure_def reply_closers_def split: factory_reply.splits)
  show ?thesis
  proof (cases "sv_closed s")
    case True
    with p assms(1) show ?thesis by (auto simp: publish_generation_def closers_def)
  next
    case f: False
    from publish_ok [OF assms(1) _ f p(1)] p(2) show ?thesis by simp
  qed
next
  case True
  show ?thesis
  proof (cases reply)
    case FactoryError
    with True assms show ?thesis by (auto simp: Reconfigure_def reply_closers_def closers_def)
  next
    case (FactoryReturns runner closer)
    then have rc: "reply_closers cfg reply = set_option closer" using True by (simp add: reply_closers_def)
    with assms(2) have fresh: "set_option closer \<inter> made = {}" by simp
    show ?thesis
    proof (cases "runner \<and> \<not> sv_closed s")
      case False
      then have "s' = s" "c = closer"
        using assms(3) True FactoryReturns by (auto simp: Reconfigure_def publish_generation_def split: if_splits)
      with unowned_ok [OF assms(1) fresh] rc show ?thesis by simp
    next
      case r: True
      then have "publish_generation cfg True closer s = ((err, c), s')"
        using assms(3) True FactoryReturns by (simp add: Reconfigure_def)
      from publish_ok [OF assms(1) fresh _ this] r rc show ?thesis by simp
    qed
  qed
qed

subsection \<open>Reachable states\<close>

definition service_inv :: "service_system \<Rightarrow> bool" where
  "service_inv t \<longleftrightarrow> gens_ok None (ls_service t) (ls_requests t + ls_probes t) (ls_made t) (ls_closing t + ls_called t)
     \<and> live_calls t < 2 ^ 64"

lemma service_inv_start: "service_inv (service_start now)"
proof -
  have "\<not> owns [new_generation 0 Defaults False None] i c" for i c by (cases i) (simp_all add: owns_def new_generation_def)
  then show ?thesis
    by (simp add: service_inv_def gens_ok_def service_start_def NewService_def live_calls_def close_due_def)
      (simp add: new_generation_def)
qed

lemma service_inv_step:
  assumes "service_step t t'" "service_inv t"
  shows "service_inv t'"
proof -
  have ok: "gens_ok None (ls_service t) (ls_requests t + ls_probes t) (ls_made t) (ls_closing t + ls_called t)"
    and live: "live_calls t < 2 ^ 64" using assms(2) by (auto simp: service_inv_def)
  have shift: "ls_closing t + closers c + ls_called t = ls_closing t + ls_called t + closers c" for c
    by (simp add: union_assoc union_commute)
  have holder: "i \<in># ls_requests t \<Longrightarrow> ls_requests t - {#i#} + ls_probes t = ls_requests t + ls_probes t - {#i#}"
    "i \<in># ls_probes t \<Longrightarrow> ls_requests t + (ls_probes t - {#i#}) = ls_requests t + ls_probes t - {#i#}" for i
    by (auto dest!: multi_member_split)
  from assms(1) show ?thesis
  proof cases
    case (service_reconfigure cfg reply err c s)
    from Reconfigure_ok [OF ok service_reconfigure(3,2)] live show ?thesis
      by (simp add: service_reconfigure(1) service_inv_def live_calls_def shift)
  next
    case (service_acquire i s)
    let ?s = "ls_service t"
    have o: "\<not> sv_closed ?s" "i = sv_current ?s"
      "s = (upd_gen i (\<lambda>g. g\<lparr>gn_inflight := gn_inflight g + 1\<rparr>) ?s)
         \<lparr>sv_metrics := Begin (gn_generation (sv_gens ?s ! i)) (sv_metrics ?s)\<rparr>"
      using service_acquire(2) by (auto simp: acquire_def Let_def split: if_splits)
    have "Suc (size (ls_requests t + ls_probes t)) < 2 ^ 64" using service_acquire(3) by (simp add: live_calls_def)
    from add_user_ok [OF ok o(1) this] o service_acquire(1,3) show ?thesis
      by (simp add: service_inv_def live_calls_def)
  next
    case (service_release i c s)
    have "i \<in># ls_requests t + ls_probes t" using service_release(2) by simp
    moreover have "size (ls_requests t) = Suc (size (ls_requests t - {#i#}))" using service_release(2) by (auto dest!: multi_member_split)
    ultimately show ?thesis using release_ok [OF ok _ service_release(3)] live service_release(1,2)
      by (simp add: service_inv_def live_calls_def holder shift del: size_Diff_singleton)
  next
    case (service_end_metric i)
    then show ?thesis using ok live by (simp add: service_inv_def live_calls_def end_metric_def size_Diff_singleton)
  next
    case (service_probe i s)
    let ?s = "ls_service t"
    have o: "\<not> sv_closed ?s" "i = sv_current ?s" "s = upd_gen i (\<lambda>g. g\<lparr>gn_inflight := gn_inflight g + 1\<rparr>) ?s"
      using service_probe(2) by (auto simp: status_enter_def Let_def split: if_splits)
    have "Suc (size (ls_requests t + ls_probes t)) < 2 ^ 64" using service_probe(3) by (simp add: live_calls_def)
    from add_user_ok [OF ok o(1) this] o service_probe(1,3) show ?thesis
      by (simp add: service_inv_def live_calls_def)
  next
    case (service_probe_end i c s)
    have "i \<in># ls_requests t + ls_probes t" using service_probe_end(2) by simp
    from release_ok [OF ok this service_probe_end(3) [unfolded releaseStatusState_release]] live service_probe_end(1,2) show ?thesis
      by (simp add: service_inv_def live_calls_def holder shift size_Diff_singleton)
  next
    case (service_close c s)
    from Close_ok [OF ok service_close(2)] live show ?thesis
      by (simp add: service_close(1) service_inv_def live_calls_def shift)
  next
    case (service_call_closer c)
    then have e: "ls_closing t - {#c#} + add_mset c (ls_called t) = ls_closing t + ls_called t"
      by (auto dest!: multi_member_split)
    have "gens_ok None (ls_service t) (ls_requests t + ls_probes t) (ls_made t) (ls_closing t - {#c#} + add_mset c (ls_called t))"
      by (simp only: e ok)
    then show ?thesis using live service_call_closer(1) by (simp add: service_inv_def live_calls_def)
  qed
qed

lemma service_reach_inv: "service_reach t \<Longrightarrow> service_inv t"
  by (induction rule: service_reach.induct) (auto intro: service_inv_start service_inv_step)

text \<open>What a closed generation list says about one closer.\<close>

lemma service_closer_counts:
  assumes "service_inv t"
  shows "count (ls_closing t) c + count (ls_called t) c \<le> 1"
    "i \<in># ls_requests t + ls_probes t \<Longrightarrow> gn_close (sv_gens (ls_service t) ! i) = Some c \<Longrightarrow> count (ls_closing t) c + count (ls_called t) c = 0"
    "sv_closed (ls_service t) \<Longrightarrow> ls_requests t + ls_probes t = {#} \<Longrightarrow> c \<in> ls_made t \<Longrightarrow> count (ls_closing t) c + count (ls_called t) c = 1"
proof -
  have ok: "gens_ok None (ls_service t) (ls_requests t + ls_probes t) (ls_made t) (ls_closing t + ls_called t)"
    using assms by (simp add: service_inv_def)
  note d = gens_okD [OF ok]
  have cnt: "count (ls_closing t) c + count (ls_called t) c = count (ls_closing t + ls_called t) c" by simp
  show "count (ls_closing t) c + count (ls_called t) c \<le> 1" unfolding cnt d(9) by simp
  show "count (ls_closing t) c + count (ls_called t) c = 0"
    if i: "i \<in># ls_requests t + ls_probes t" and c: "gn_close (sv_gens (ls_service t) ! i) = Some c"
  proof -
    have "owns (sv_gens (ls_service t)) i c" using d(6) [OF i] c by (simp add: owns_def)
    moreover have "count (ls_requests t + ls_probes t) i \<noteq> 0" using i by (metis count_eq_zero_iff)
    then have "gn_inflight (sv_gens (ls_service t) ! i) \<noteq> 0" using d(2) [OF d(6) [OF i]] by (metis unsigned_0)
    then have "\<not> gn_closed (sv_gens (ls_service t) ! i)" using d(4) [OF d(6) [OF i]] by (auto simp: close_due_def)
    ultimately show ?thesis unfolding cnt d(9) by auto
  qed
  show "count (ls_closing t) c + count (ls_called t) c = 1"
    if cl: "sv_closed (ls_service t)" and idle: "ls_requests t + ls_probes t = {#}" and made: "c \<in> ls_made t"
  proof -
    have "gn_closed (sv_gens (ls_service t) ! i)" if "owns (sv_gens (ls_service t)) i c" for i
    proof -
      have i: "i < length (sv_gens (ls_service t))" using that by (simp add: owns_def)
      have "gn_inflight (sv_gens (ls_service t) ! i) = 0" using d(2) [OF i] idle by (simp add: unsigned_eq_0_iff)
      then have "close_due (sv_gens (ls_service t) ! i)" using d(3) [OF i] cl that by (simp add: close_due_def owns_def)
      then show ?thesis using d(5) [OF i] by blast
    qed
    then show ?thesis unfolding cnt d(9) using made by simp
  qed
qed

subsection \<open>Draining\<close>

text \<open>The steps by which started calls finish.\<close>

definition pending_work :: "service_system \<Rightarrow> nat" where
  "pending_work t = 3 * size (ls_requests t) + 3 * size (ls_probes t) + size (ls_ending t) + size (ls_closing t)"

lemma size_closers: "size (closers c) \<le> 1"
  by (cases c) (simp_all add: closers_def)

lemma release_sv_closed: "release i s = (c, s') \<Longrightarrow> sv_closed s' = sv_closed s"
  using closableLocked_closed [of i "upd_gen i drop_user s"] unfolding release_def by (simp del: closableLocked_closed)

text \<open>While work is pending some step reduces it.\<close>

lemma service_progress:
  assumes "0 < pending_work t"
  obtains t' where "service_step t t'" "pending_work t' < pending_work t"
    "sv_closed (ls_service t') = sv_closed (ls_service t)" "ls_made t' = ls_made t"
proof -
  consider i where "i \<in># ls_requests t" | i where "i \<in># ls_probes t" | i where "i \<in># ls_ending t" | i where "i \<in># ls_closing t"
  proof -
    have "ls_requests t \<noteq> {#} \<or> ls_probes t \<noteq> {#} \<or> ls_ending t \<noteq> {#} \<or> ls_closing t \<noteq> {#}"
      using assms by (auto simp: pending_work_def)
    then show ?thesis using that by (meson multiset_nonemptyE)
  qed
  then show thesis
  proof cases
    case 1
    obtain c s where rel: "release i (ls_service t) = (c, s)" by fastforce
    from service_release [OF 1 rel] show thesis
      by (rule that) (use 1 rel size_closers [of c] in \<open>auto simp: pending_work_def release_sv_closed dest!: multi_member_split\<close>)
  next
    case 2
    obtain c s where rel: "release i (ls_service t) = (c, s)" by fastforce
    from service_probe_end [unfolded releaseStatusState_release, OF 2 rel] show thesis
      by (rule that) (use 2 rel size_closers [of c] in \<open>auto simp: pending_work_def release_sv_closed dest!: multi_member_split\<close>)
  next
    case 3
    from service_end_metric [OF 3] show thesis
      by (rule that) (use 3 in \<open>auto simp: pending_work_def end_metric_def dest!: multi_member_split\<close>)
  next
    case 4
    from service_call_closer [OF 4] show thesis
      by (rule that) (use 4 in \<open>auto simp: pending_work_def dest!: multi_member_split\<close>)
  qed
qed

lemma service_drains:
  "\<exists>t'. service_step\<^sup>*\<^sup>* t t' \<and> pending_work t' = 0 \<and> sv_closed (ls_service t') = sv_closed (ls_service t) \<and> ls_made t' = ls_made t"
proof (induction "pending_work t" arbitrary: t rule: less_induct)
  case less
  show ?case
  proof (cases "pending_work t = 0")
    case False
    then obtain t1 where t1: "service_step t t1" "pending_work t1 < pending_work t"
      "sv_closed (ls_service t1) = sv_closed (ls_service t)" "ls_made t1 = ls_made t"
      using service_progress by blast
    from less [OF t1(2)] t1 show ?thesis by (metis converse_rtranclp_into_rtranclp)
  qed auto
qed

lemma service_reach_steps: "service_step\<^sup>*\<^sup>* t t' \<Longrightarrow> service_reach t \<Longrightarrow> service_reach t'"
  by (induction rule: rtranclp_induct) (auto intro: service_reach_step)

subsection \<open>Generations do not change under a request\<close>

definition same_generation :: "gen_state \<Rightarrow> gen_state \<Rightarrow> bool" where
  "same_generation g h \<longleftrightarrow> gn_generation g = gn_generation h \<and> gn_config g = gn_config h
     \<and> gn_headroom g = gn_headroom h \<and> gn_close g = gn_close h"

definition extends :: "service \<Rightarrow> service \<Rightarrow> bool" where
  "extends s s' \<longleftrightarrow> length (sv_gens s) \<le> length (sv_gens s')
     \<and> (\<forall>i < length (sv_gens s). same_generation (sv_gens s ! i) (sv_gens s' ! i))"

lemma extends_refl [simp]: "extends s s"
  by (simp add: extends_def same_generation_def)

lemma extends_trans [trans]: "extends s s1 \<Longrightarrow> extends s1 s2 \<Longrightarrow> extends s s2"
  by (auto simp: extends_def same_generation_def)

lemma extends_upd_gen: "(\<And>g. same_generation g (f g)) \<Longrightarrow> extends s (upd_gen i f s)"
  by (auto simp: extends_def upd_gen_nth same_generation_def)

lemma extends_more [simp]:
  "extends s (s'\<lparr>sv_metrics := m\<rparr>) = extends s s'" "extends (s\<lparr>sv_closed := b\<rparr>) s' = extends s s'"
  by (simp_all add: extends_def)

lemma extends_closableLocked: "extends s (snd (closableLocked i s))"
  by (auto simp: closableLocked_def Let_def same_generation_def intro!: extends_upd_gen)

lemma extends_release: "extends s (snd (release i s))"
  unfolding release_def by (rule extends_trans [OF extends_upd_gen extends_closableLocked])
    (simp add: same_generation_def drop_user_def)

lemma extends_Close: "extends s (snd (Close s))"
proof -
  let ?s = "s\<lparr>sv_closed := True\<rparr>"
  have "extends ?s (snd (Close s))" unfolding Close_def
    by (rule extends_trans [OF extends_upd_gen extends_closableLocked]) (simp add: same_generation_def)
  then show ?thesis by simp
qed

lemma extends_publish: "extends s (snd (publish_generation cfg r c s))"
proof (cases "sv_closed s")
  case False
  let ?s1 = "s\<lparr>sv_next := sv_next s + 1, sv_gens := sv_gens s @ [new_generation (sv_next s + 1) cfg r c], sv_current := length (sv_gens s)\<rparr>"
  have "extends s ?s1" by (auto simp: extends_def same_generation_def nth_append)
  also have "extends ?s1 (upd_gen (sv_current s) (\<lambda>g. g\<lparr>gn_retired := True\<rparr>) ?s1)"
    by (rule extends_upd_gen) (simp add: same_generation_def)
  also have "extends \<dots> (snd (closableLocked (sv_current s) \<dots>))" by (rule extends_closableLocked)
  finally show ?thesis using False by (simp add: publish_generation_def Let_def case_prod_unfold)
qed (simp add: publish_generation_def)

lemma extends_Reconfigure: "extends s (snd (Reconfigure cfg reply s))"
  by (auto simp: Reconfigure_def extends_publish split: factory_reply.split)

lemma extends_acquire: "acquire s = Some (i, s') \<Longrightarrow> extends s s'"
  by (auto simp: acquire_def Let_def same_generation_def split: if_splits intro!: extends_upd_gen)

lemma extends_status_enter: "status_enter s = Inr (i, s') \<Longrightarrow> extends s s'"
  by (auto simp: status_enter_def Let_def same_generation_def split: if_splits intro!: extends_upd_gen)

lemma extends_step: "service_step t t' \<Longrightarrow> extends (ls_service t) (ls_service t')"
proof (induction rule: service_step.induct)
  case (service_reconfigure cfg reply t err c s)
  then show ?case using extends_Reconfigure [of "ls_service t" cfg reply] by simp
next
  case (service_release i t c s)
  then show ?case using extends_release [of "ls_service t" i] by simp
next
  case (service_probe_end i t c s)
  then show ?case using extends_release [of "ls_service t" i] by simp
next
  case (service_close t c s)
  then show ?case using extends_Close [of "ls_service t"] by simp
qed (auto simp: end_metric_def dest: extends_acquire extends_status_enter)

lemma extends_steps: "service_step\<^sup>*\<^sup>* t t' \<Longrightarrow> extends (ls_service t) (ls_service t')"
  by (induction rule: rtranclp_induct) (auto intro: extends_trans extends_step)

subsection \<open>The registry\<close>

definition request_generations :: "service_system \<Rightarrow> u64 multiset" where
  "request_generations t = image_mset (\<lambda>i. gn_generation (sv_gens (ls_service t) ! i)) (ls_requests t + ls_ending t)"

text \<open>The system drives the metrics registry as \<open>metrics_step\<close> allows: a hook is live from \<open>acquire\<close> to its \<open>End\<close>.\<close>

definition metered :: "service_system \<Rightarrow> bool" where
  "metered t \<longleftrightarrow> metrics_reach (sv_metrics (ls_service t), request_generations t)
     \<and> (\<forall>i \<in># ls_requests t + ls_ending t. i < length (sv_gens (ls_service t)))"

lemma request_generations_extends:
  assumes "extends (ls_service t) s" "\<forall>i \<in># ls_requests t + ls_ending t. i < length (sv_gens (ls_service t))"
  shows "image_mset (\<lambda>i. gn_generation (sv_gens s ! i)) (ls_requests t + ls_ending t) = request_generations t"
    "\<forall>i \<in># ls_requests t + ls_ending t. i < length (sv_gens s)"
proof -
  show "image_mset (\<lambda>i. gn_generation (sv_gens s ! i)) (ls_requests t + ls_ending t) = request_generations t"
    unfolding request_generations_def
    by (rule image_mset_cong) (use assms in \<open>auto simp: extends_def same_generation_def\<close>)
  show "\<forall>i \<in># ls_requests t + ls_ending t. i < length (sv_gens s)" using assms unfolding extends_def by (meson order_less_le_trans)
qed

lemma release_metrics [simp]: "sv_metrics (snd (release i s)) = sv_metrics s"
  by (simp add: release_def)

lemma Close_metrics [simp]: "sv_metrics (snd (Close s)) = sv_metrics s"
  by (simp add: Close_def)

lemma publish_metrics:
  "sv_metrics (snd (publish_generation cfg r c s)) =
     (if sv_closed s then sv_metrics s else PublishGeneration (sv_next s + 1) (sv_metrics s))"
  by (simp add: publish_generation_def Let_def case_prod_unfold)

lemma Reconfigure_metrics:
  "sv_metrics (snd (Reconfigure cfg reply s)) = sv_metrics s
     \<or> sv_metrics (snd (Reconfigure cfg reply s)) = PublishGeneration (sv_next s + 1) (sv_metrics s)"
  by (auto simp: Reconfigure_def publish_metrics split: factory_reply.split)

text \<open>A step that keeps the requests and leaves the registry alone, or publishes a generation.\<close>

lemma metered_kept:
  assumes "metered t" "extends (ls_service t) s" "ls_service t' = s" "ls_requests t' + ls_ending t' = ls_requests t + ls_ending t"
    "sv_metrics s = sv_metrics (ls_service t) \<or> sv_metrics s = PublishGeneration g (sv_metrics (ls_service t))"
  shows "metered t'"
proof -
  have w: "\<forall>i \<in># ls_requests t + ls_ending t. i < length (sv_gens (ls_service t))"
    and m: "metrics_reach (sv_metrics (ls_service t), request_generations t)" using assms(1) by (auto simp: metered_def)
  have "request_generations t' = request_generations t"
    using request_generations_extends(1) [OF assms(2) w] unfolding request_generations_def assms(3,4) by simp
  moreover have "metrics_reach (sv_metrics s, request_generations t)"
    using assms(5) m reach_step [OF m step_publish] by metis
  ultimately show ?thesis using request_generations_extends(2) [OF assms(2) w] unfolding metered_def assms(3,4) by simp
qed

lemma metered_step:
  assumes "service_step t t'" "metered t" "service_inv t"
  shows "metered t'"
proof -
  have w: "\<forall>i \<in># ls_requests t + ls_ending t. i < length (sv_gens (ls_service t))"
    and m: "metrics_reach (sv_metrics (ls_service t), request_generations t)" using assms(2) by (auto simp: metered_def)
  from assms(1) show ?thesis
  proof cases
    case (service_reconfigure cfg reply err c s)
    show ?thesis
      by (rule metered_kept [OF assms(2), where s = s and g = "sv_next (ls_service t) + 1"])
        (use service_reconfigure extends_Reconfigure [of "ls_service t" cfg reply] Reconfigure_metrics [of cfg reply "ls_service t"] in simp_all)
  next
    case (service_acquire i s)
    have o: "s = (upd_gen i (\<lambda>g. g\<lparr>gn_inflight := gn_inflight g + 1\<rparr>) (ls_service t))
         \<lparr>sv_metrics := Begin (gn_generation (sv_gens (ls_service t) ! i)) (sv_metrics (ls_service t))\<rparr>"
      using service_acquire(2) by (auto simp: acquire_def Let_def split: if_splits)
    have ext: "extends (ls_service t) s" by (rule extends_acquire [OF service_acquire(2)])
    let ?g = "gn_generation (sv_gens (ls_service t) ! i)"
    have i: "i < length (sv_gens (ls_service t))"
      using assms(3) service_acquire(2) by (auto simp: service_inv_def gens_ok_def acquire_def Let_def split: if_splits)
    have "gn_generation (sv_gens s ! i) = ?g" "i < length (sv_gens s)"
      using ext i by (auto simp: extends_def same_generation_def)
    then have "request_generations t' = add_mset ?g (request_generations t)"
      using request_generations_extends(1) [OF ext w] service_acquire(1) by (simp add: request_generations_def)
    moreover have "Suc (size (request_generations t)) < 2 ^ 64"
      using service_acquire(3) by (simp add: request_generations_def live_calls_def)
    then have "metrics_reach (Begin ?g (sv_metrics (ls_service t)), add_mset ?g (request_generations t))"
      by (rule reach_step [OF m step_begin])
    ultimately show ?thesis using request_generations_extends(2) [OF ext w] service_acquire(1) o \<open>i < length (sv_gens s)\<close>
      by (simp add: metered_def)
  next
    case (service_release i c s)
    show ?thesis
      by (rule metered_kept [OF assms(2), where s = s])
        (use service_release extends_release [of "ls_service t" i] release_metrics [of i "ls_service t"] in \<open>auto dest!: multi_member_split\<close>)
  next
    case (service_end_metric i)
    let ?g = "gn_generation (sv_gens (ls_service t) ! i)"
    have g: "request_generations t' = request_generations t - {#?g#}" "?g \<in># request_generations t"
      using service_end_metric by (auto simp: request_generations_def end_metric_def dest!: multi_member_split)
    have "metrics_reach (End ?g (sv_metrics (ls_service t)), request_generations t - {#?g#})"
      by (rule reach_step [OF m step_end [OF g(2)]])
    then show ?thesis using g w service_end_metric(1) by (auto simp: metered_def end_metric_def dest: in_diffD)
  next
    case (service_probe i s)
    have "sv_metrics s = sv_metrics (ls_service t)"
      using service_probe(2) by (auto simp: status_enter_def Let_def split: if_splits)
    then show ?thesis
      by (intro metered_kept [OF assms(2) extends_status_enter [OF service_probe(2)]]) (simp_all add: service_probe(1))
  next
    case (service_probe_end i c s)
    show ?thesis
      by (rule metered_kept [OF assms(2), where s = s])
        (use service_probe_end extends_release [of "ls_service t" i] release_metrics [of i "ls_service t"] in simp_all)
  next
    case (service_close c s)
    show ?thesis
      by (rule metered_kept [OF assms(2), where s = s])
        (use service_close extends_Close [of "ls_service t"] Close_metrics [of "ls_service t"] in simp_all)
  next
    case (service_call_closer c)
    show ?thesis
      by (rule metered_kept [OF assms(2), where s = "ls_service t"]) (simp_all add: service_call_closer(1))
  qed
qed

lemma metered_start: "metered (service_start now)"
proof -
  have "metrics_reach (PublishGeneration 0 (New now), {#})" by (rule reach_step [OF reach_new step_publish])
  then show ?thesis by (simp add: metered_def request_generations_def service_start_def NewService_def)
qed

lemma service_reach_metered: "service_reach t \<Longrightarrow> metered t"
  by (induction rule: service_reach.induct) (auto intro: metered_start metered_step service_reach_inv)

subsection \<open>Properties\<close>

text \<open>
  C2. In every interleaving of reconfigurations, requests, status calls and closes, a Headroom client
  the factory made is closed at most once, never while a request or a status call still holds its
  generation, and once the service is closed, idle and has made its pending calls, every client made
  has been closed exactly once.
\<close>
theorem service_closes_each_client_once:
  assumes "service_reach t"
  shows "count (ls_closing t) c + count (ls_called t) c \<le> 1
     \<and> (i \<in># ls_requests t + ls_probes t \<and> gn_close (sv_gens (ls_service t) ! i) = Some c \<longrightarrow> c \<notin># ls_closing t + ls_called t)
     \<and> (sv_closed (ls_service t) \<and> ls_requests t + ls_probes t = {#} \<and> ls_closing t = {#} \<and> c \<in> ls_made t
          \<longrightarrow> count (ls_called t) c = 1)"
  using service_closer_counts [OF service_reach_inv [OF assms], where c = c] by (auto simp: not_in_iff)

text \<open>A run: a reconfiguration with a client, a request, a close, the end of the request, the call.\<close>

definition demo_config :: config where
  "demo_config = Defaults\<lparr>HeadroomEnabled := True\<rparr>"

definition demo_gens :: "u64 \<Rightarrow> bool \<Rightarrow> bool \<Rightarrow> gen_state list" where
  "demo_gens inflight retired closed =
     [(new_generation 0 Defaults False None)\<lparr>gn_retired := True\<rparr>,
      (new_generation 1 demo_config True (Some 5))\<lparr>gn_inflight := inflight, gn_retired := retired, gn_closed := closed\<rparr>]"

definition demo_service :: "bool \<Rightarrow> gen_state list \<Rightarrow> registry \<Rightarrow> service" where
  "demo_service closed gens m = \<lparr>sv_closed = closed, sv_gens = gens, sv_current = 1, sv_next = 1, sv_metrics = m\<rparr>"

definition demo_metrics :: registry where
  "demo_metrics = PublishGeneration 1 (PublishGeneration 0 (New 0))"

definition demo_system :: "service \<Rightarrow> nat multiset \<Rightarrow> nat multiset \<Rightarrow> nat multiset \<Rightarrow> nat multiset \<Rightarrow> service_system" where
  "demo_system s requests ending closing called = \<lparr>ls_service = s, ls_requests = requests, ls_probes = {#}, ls_ending = ending,
     ls_closing = closing, ls_called = called, ls_made = {5}\<rparr>"

lemmas demo_defs = demo_gens_def demo_service_def demo_metrics_def demo_system_def new_generation_def

lemma demo_steps:
  "service_reach (demo_system (demo_service False (demo_gens 0 False False) demo_metrics) {#} {#} {#} {#})"
  "service_reach (demo_system (demo_service False (demo_gens 1 False False) (Begin 1 demo_metrics)) {#1#} {#} {#} {#})"
  "service_reach (demo_system (demo_service True (demo_gens 1 True False) (Begin 1 demo_metrics)) {#1#} {#} {#} {#})"
  "service_reach (demo_system (demo_service True (demo_gens 0 True True) (Begin 1 demo_metrics)) {#} {#1#} {#5#} {#})"
  "service_reach (demo_system (demo_service True (demo_gens 0 True True) (Begin 1 demo_metrics)) {#} {#1#} {#} {#5#})"
proof -
  have en: "HeadroomEnabled demo_config" by (simp add: demo_config_def)
  show r1: "service_reach (demo_system (demo_service False (demo_gens 0 False False) demo_metrics) {#} {#} {#} {#})"
    by (rule service_reach_step [OF service_reach_start [of 0]],
        rule back_subst [of "service_step (service_start 0)", OF service_reconfigure
          [of demo_config "FactoryReturns True (Some 5)" _ None None "demo_service False (demo_gens 0 False False) demo_metrics"]])
      (simp_all add: en service_start_def NewService_def Reconfigure_def publish_generation_def closableLocked_def upd_gen_def
        demo_defs reply_closers_def closers_def)
  show r2: "service_reach (demo_system (demo_service False (demo_gens 1 False False) (Begin 1 demo_metrics)) {#1#} {#} {#} {#})"
    by (rule service_reach_step [OF r1], rule back_subst [of "service_step _", OF service_acquire
          [of _ 1 "demo_service False (demo_gens 1 False False) (Begin 1 demo_metrics)"]])
      (simp_all add: acquire_def upd_gen_def demo_defs live_calls_def)
  show r3: "service_reach (demo_system (demo_service True (demo_gens 1 True False) (Begin 1 demo_metrics)) {#1#} {#} {#} {#})"
    by (rule service_reach_step [OF r2], rule back_subst [of "service_step _", OF service_close
          [of _ None "demo_service True (demo_gens 1 True False) (Begin 1 demo_metrics)"]])
      (simp_all add: Close_def closableLocked_def upd_gen_def demo_defs closers_def)
  show r4: "service_reach (demo_system (demo_service True (demo_gens 0 True True) (Begin 1 demo_metrics)) {#} {#1#} {#5#} {#})"
    by (rule service_reach_step [OF r3], rule back_subst [of "service_step _", OF service_release
          [of 1 _ "Some 5" "demo_service True (demo_gens 0 True True) (Begin 1 demo_metrics)"]])
      (simp_all add: release_def drop_user_def closableLocked_def upd_gen_def demo_defs closers_def)
  show "service_reach (demo_system (demo_service True (demo_gens 0 True True) (Begin 1 demo_metrics)) {#} {#1#} {#} {#5#})"
    by (rule service_reach_step [OF r4], rule back_subst [of "service_step _", OF service_call_closer [of 5]])
      (simp_all add: demo_system_def)
qed

theorem service_closes_each_client_once_witness:
  "count (ls_called (demo_system (demo_service True (demo_gens 0 True True) (Begin 1 demo_metrics)) {#} {#1#} {#} {#5#})) 5 = 1
     \<and> 5 \<notin># ls_called (demo_system (demo_service False (demo_gens 1 False False) (Begin 1 demo_metrics)) {#1#} {#} {#} {#})"
  using service_closes_each_client_once [OF demo_steps(5), of 5] service_closes_each_client_once [OF demo_steps(2), of 5 1]
  by (simp add: demo_defs)

text \<open>
  C16. From every reachable state in which the service is closed, the started calls can finish, and
  when they have, no call and no closing is pending and every client made has been closed once.
\<close>
theorem service_close_completes:
  assumes "service_reach t" "sv_closed (ls_service t)"
  shows "\<exists>t'. service_step\<^sup>*\<^sup>* t t' \<and> pending_work t' = 0 \<and> (\<forall>c. count (ls_called t') c = (if c \<in> ls_made t then 1 else 0))"
proof -
  obtain t' where t': "service_step\<^sup>*\<^sup>* t t'" "pending_work t' = 0" "sv_closed (ls_service t')" "ls_made t' = ls_made t"
    using service_drains [of t] assms(2) by auto
  have r: "service_inv t'" using service_reach_inv [OF service_reach_steps [OF t'(1) assms(1)]] .
  have "count (ls_called t') c = (if c \<in> ls_made t then 1 else 0)" for c
  proof (cases "c \<in> ls_made t'")
    case True
    then show ?thesis using service_closer_counts(3) [OF r t'(3), of c] t'(2,4) by (simp add: pending_work_def)
  next
    case False
    then show ?thesis using r t'(2,4) gens_okD(9) [of None "ls_service t'" _ "ls_made t'" "ls_closing t' + ls_called t'" c]
      by (auto simp: service_inv_def)
  qed
  with t' show ?thesis by blast
qed

theorem service_close_completes_witness:
  "\<exists>t'. service_step\<^sup>*\<^sup>* (demo_system (demo_service True (demo_gens 1 True False) (Begin 1 demo_metrics)) {#1#} {#} {#} {#}) t'
     \<and> count (ls_called t') 5 = 1"
  using service_close_completes [OF demo_steps(3)] by (auto simp: demo_system_def demo_service_def)

text \<open>
  C27. A request sees one configuration from \<open>acquire\<close> to its end, and in every interleaving the registry's in-flight
  counter of a generation is the number of its requests whose completion hook has not run.
\<close>
theorem service_request_generation_stable:
  assumes "service_reach t" "service_step\<^sup>*\<^sup>* t t'" "i \<in># ls_requests t"
  shows "same_generation (sv_gens (ls_service t) ! i) (sv_gens (ls_service t') ! i)
     \<and> unat (mget (reg_inflight (sv_metrics (ls_service t'))) g) = count (request_generations t') g"
proof -
  have "i < length (sv_gens (ls_service t))"
    using service_reach_metered [OF assms(1)] assms(3) by (simp add: metered_def)
  moreover have "metrics_inv (sv_metrics (ls_service t'), request_generations t')"
    using service_reach_metered [OF service_reach_steps [OF assms(2,1)]] metrics_reach_inv by (simp add: metered_def)
  ultimately show ?thesis using extends_steps [OF assms(2)]
    by (simp add: extends_def metrics_inv_def inflight_exact_def)
qed

theorem service_request_generation_stable_witness:
  "unat (mget (reg_inflight (Begin 1 demo_metrics)) 1) = 1"
  using service_request_generation_stable [OF demo_steps(2) rtranclp.rtrancl_refl, of 1 1]
  by (simp add: demo_system_def demo_service_def request_generations_def demo_gens_def new_generation_def)

end
