(* ===== verification/Management.thy ===== *)
theory Management
  imports Service
begin

text \<open>
  \<open>internal/management\<close>: the authenticated management routes and the public health resource.  The
  payload of a JSON response is the value that is marshalled; its encoding by \<open>encoding/json\<close> is not
  modelled, and neither are the bytes of the embedded page.  The handler is built with a service and a
  configuration store, so the tests for nil ones are never taken.
\<close>

subsection \<open>Names\<close>

definition ManagementBasePath :: bytes where "ManagementBasePath = ''/v0/management''"
definition StatusRoute :: bytes where "StatusRoute = ''/plugins/token-saver/status''"
definition SelfTestRoute :: bytes where "SelfTestRoute = ''/plugins/token-saver/self-test''"
definition DashboardRoute :: bytes where "DashboardRoute = ''/plugins/token-saver/dashboard''"
definition HeadroomCheckRoute :: bytes where "HeadroomCheckRoute = ''/plugins/token-saver/headroom/check''"
definition HeadroomPageRoute :: bytes where "HeadroomPageRoute = ''/headroom''"
definition HeadroomStatusRoute :: bytes where "HeadroomStatusRoute = ''/headroom/status''"
definition FixtureRevision :: bytes where "FixtureRevision = ''v1''"
definition checkCooldown :: duration where "checkCooldown = 2 * second"

definition resource_base :: bytes where "resource_base = ''/v0/resource/plugins/token-saver''"

fun outcome_name :: "headroom_outcome \<Rightarrow> bytes" where
  "outcome_name OutcomeApplied = ''applied''"
| "outcome_name OutcomeNoChange = ''no_change''"
| "outcome_name OutcomeUnsupportedFormat = ''bypass_unsupported_format''"
| "outcome_name OutcomeUnsupportedStructure = ''bypass_unsupported_structure''"
| "outcome_name OutcomeRequestTooLarge = ''bypass_request_too_large''"
| "outcome_name headroom_outcome.OutcomeSaturated = ''bypass_saturated''"
| "outcome_name OutcomeCircuitOpen = ''bypass_circuit_open''"
| "outcome_name headroom_outcome.OutcomeTimeout = ''fail_timeout''"
| "outcome_name OutcomeConnection = ''fail_connection''"
| "outcome_name OutcomeNetwork = ''fail_network''"
| "outcome_name OutcomeRedirect = ''fail_redirect''"
| "outcome_name OutcomeHTTPStatus = ''fail_http_status''"
| "outcome_name OutcomeResponseEncoding = ''fail_response_encoding''"
| "outcome_name OutcomeResponseTooLarge = ''fail_response_too_large''"
| "outcome_name OutcomeInvalidJSON = ''fail_invalid_json''"
| "outcome_name OutcomeInvalidResponse = ''fail_invalid_response''"

datatype config_word = ConfigValid | ConfigError
datatype pipeline_word = PipelineAllBypassed | PipelineActive
datatype dependency_word = DependencyDisabled | DependencyReady | DependencyDegraded
datatype circuit_word = HeadroomCircuitDisabled | HeadroomCircuitClosed | HeadroomCircuitOpen | HeadroomCircuitHalfOpen
datatype status_word = HeadroomStatusDisabled | HeadroomStatusUnknown | HeadroomStatusReady | HeadroomStatusDegraded
datatype self_test_word = SelfTestNever | SelfTestPassed | SelfTestFailed
datatype error_code = ErrorRouteNotFound | ErrorMethodNotAllowed | ErrorConfigInvalid | ErrorRateLimited
  | ErrorConfigChanged | ErrorUnavailable | ErrorSelfTestFailed | ErrorInternal

subsection \<open>Projections\<close>

record status_dto =
  sd_build_version :: bytes
  sd_abi_version :: u32
  sd_rpc_schema :: u32
  sd_fixture_revision :: bytes
  sd_started_at :: gotime
  sd_live :: bool
  sd_config :: config_word
  sd_config_generation :: u64
  sd_config_digest :: bytes
  sd_pipeline :: pipeline_word
  sd_dependency :: dependency_word
  sd_headroom_desired :: bool
  sd_headroom_effective :: bool
  sd_headroom_circuit :: circuit_word
  sd_current :: generation_snapshot
  sd_previous :: generation_snapshot
  sd_last_self_test_at :: "gotime option"
  sd_last_self_test :: self_test_word
  sd_metrics :: stage_projection

record public_dto =
  pd_enabled :: bool
  pd_status :: status_word
  pd_circuit :: circuit_word

record dashboard_stage =
  ds_executed :: u64
  ds_bypassed :: u64
  ds_fail_open :: u64
  ds_timeout :: u64
  ds_saturated :: u64
  ds_input_bytes :: u64
  ds_output_bytes :: u64
  ds_saved_bytes :: u64
  ds_duration_nano :: u64

record dashboard_headroom =
  dh_enabled :: bool
  dh_url :: bytes
  dh_status :: status_word
  dh_circuit :: circuit_word
  dh_last_checked_at :: "gotime option"
  dh_last_latency_ms :: "u64 option"
  dh_last_outcome :: bytes

record dashboard_dto =
  dd_started_at :: gotime
  dd_headroom :: dashboard_headroom
  dd_rtk :: dashboard_stage
  dd_headroom_stage :: dashboard_stage
  dd_caveman :: dashboard_stage
  dd_ponytail :: dashboard_stage
  dd_route_outcomes :: "route_snapshot list"

record check_dto =
  ck_reachable :: bool
  ck_status :: status_word
  ck_outcome :: bytes
  ck_latency_ms :: u64
  ck_tested_at :: gotime

datatype management_payload = StatusPayload status_dto | SelfTestPayload gotime self_test_word
  | DashboardPayload dashboard_dto | CheckPayload check_dto | PublicPayload public_dto
  | ErrorPayload error_code bytes | PagePayload

record management_response =
  mr_status :: int
  mr_content_type :: bytes
  mr_payload :: management_payload

record management_request =
  mq_method :: bytes
  mq_path :: bytes

definition errorResponse :: "int \<Rightarrow> error_code \<Rightarrow> bytes \<Rightarrow> management_response" where
  "errorResponse status code message = \<lparr>mr_status = status, mr_content_type = ''application/json'', mr_payload = ErrorPayload code message\<rparr>"

definition jsonResponse :: "int \<Rightarrow> management_payload \<Rightarrow> management_response" where
  "jsonResponse status payload = \<lparr>mr_status = status, mr_content_type = ''application/json'', mr_payload = payload\<rparr>"

definition htmlResponse :: "int \<Rightarrow> management_response" where
  "htmlResponse status = \<lparr>mr_status = status, mr_content_type = ''text/html; charset=utf-8'', mr_payload = PagePayload\<rparr>"

record route =
  rt_method :: bytes
  rt_path :: bytes
  rt_menu :: bytes
  rt_description :: bytes

text \<open>\<open>Registration\<close>: the routes and the resources.  The texts of the page are UTF-8 bytes.\<close>

definition page_menu :: bytes where
  "page_menu = ''Headroom ''
       @ [CHR 0xE7, CHR 0x8A, CHR 0xB6, CHR 0xE6, CHR 0x80, CHR 0x81]"

definition page_description :: bytes where
  "page_description = [CHR 0xE6, CHR 0x9F, CHR 0xA5, CHR 0xE7, CHR 0x9C, CHR 0x8B]
       @ '' Headroom ''
       @ [CHR 0xE8, CHR 0xA2, CHR 0xAB, CHR 0xE5, CHR 0x8A, CHR 0xA8, CHR 0xE5, CHR 0x81, CHR 0xA5, CHR 0xE5, CHR 0xBA, CHR 0xB7]
       @ [CHR 0xE7, CHR 0x8A, CHR 0xB6, CHR 0xE6, CHR 0x80, CHR 0x81, CHR 0xE5, CHR 0xB9, CHR 0xB6, CHR 0xE6, CHR 0x89, CHR 0x8B]
       @ [CHR 0xE5, CHR 0x8A, CHR 0xA8, CHR 0xE5, CHR 0x88, CHR 0xB7, CHR 0xE6, CHR 0x96, CHR 0xB0]"

definition api_route :: "bytes \<Rightarrow> bytes \<Rightarrow> route" where
  "api_route method path = \<lparr>rt_method = method, rt_path = path, rt_menu = [], rt_description = []\<rparr>"

definition management_registration :: "route list \<times> route list" where
  "management_registration =
     ([api_route ''GET'' StatusRoute, api_route ''POST'' SelfTestRoute,
       api_route ''GET'' DashboardRoute, api_route ''POST'' HeadroomCheckRoute],
      [\<lparr>rt_method = [], rt_path = HeadroomPageRoute, rt_menu = page_menu, rt_description = page_description\<rparr>,
       api_route [] HeadroomStatusRoute])"

subsection \<open>The handler\<close>

record handler =
  hd_build_version :: bytes
  hd_abi_version :: u32
  hd_rpc_schema :: u32
  hd_self_test_at :: "gotime option"
  hd_self_test :: self_test_word
  hd_check_in_flight :: bool
  hd_checked_at :: "gotime option"
  hd_latency_ms :: "u64 option"
  hd_outcome :: bytes

definition NewHandler :: "bytes \<Rightarrow> u32 \<Rightarrow> u32 \<Rightarrow> handler" where
  "NewHandler buildVersion abiVersion rpcSchema =
     \<lparr>hd_build_version = (if buildVersion = [] then ''unknown'' else buildVersion), hd_abi_version = abiVersion,
      hd_rpc_schema = rpcSchema, hd_self_test_at = None, hd_self_test = SelfTestNever, hd_check_in_flight = False,
      hd_checked_at = None, hd_latency_ms = None, hd_outcome = ''unknown''\<rparr>"

text \<open>
  What a call reads from the rest of the process: the published store, the service, the runner's
  observations, the iteration over the route map, the clock before and after a test, the generation and the
  store as the attempts of the self-test read them, the result of \<open>Normalize\<close>, and the check.
\<close>

record menv =
  mn_hash :: "bytes \<Rightarrow> bytes"
  mn_store :: store
  mn_service :: service
  mn_probe :: "(headroom_outcome \<times> circuit_state) option"
  mn_snapshot :: "(headroom_outcome option \<times> circuit_state) option"
  mn_routes :: "route_key list"
  mn_now :: gotime
  mn_after :: gotime
  mn_generation :: "nat \<Rightarrow> u64"
  mn_store_at :: "nat \<Rightarrow> store"
  mn_normalize :: "nat \<Rightarrow> request \<Rightarrow> bytes"
  mn_check :: "bytes \<Rightarrow> duration \<Rightarrow> check_result"

definition circuitProjection :: "circuit_state option \<Rightarrow> circuit_word" where
  "circuitProjection st =
     (case st of Some CircuitOpen \<Rightarrow> HeadroomCircuitOpen | Some CircuitHalfOpen \<Rightarrow> HeadroomCircuitHalfOpen
      | _ \<Rightarrow> HeadroomCircuitClosed)"

definition publicHeadroomStatus :: "menv \<Rightarrow> public_dto" where
  "publicHeadroomStatus env =
     (case StatusSnapshot (mn_hash env) (mn_store env) of
        (cfg, valid, _) \<Rightarrow>
          if \<not> valid \<or> \<not> HeadroomEnabled cfg then
            \<lparr>pd_enabled = valid \<and> HeadroomEnabled cfg, pd_status = HeadroomStatusDisabled, pd_circuit = HeadroomCircuitDisabled\<rparr>
          else
            let snapshot = fst (HeadroomSnapshot (mn_snapshot env) (mn_service env));
                circuit = circuitProjection (hs_circuit snapshot)
            in if \<not> hs_observed snapshot then \<lparr>pd_enabled = True, pd_status = HeadroomStatusUnknown, pd_circuit = circuit\<rparr>
               else \<lparr>pd_enabled = True,
                      pd_status = (if hs_effective snapshot then HeadroomStatusReady else HeadroomStatusDegraded),
                      pd_circuit = circuit\<rparr>)"

definition projectStage :: "stage_snapshot \<Rightarrow> dashboard_stage" where
  "projectStage snap =
     \<lparr>ds_executed = ss_executed snap, ds_bypassed = ss_bypassed snap, ds_fail_open = ss_fail_open snap,
      ds_timeout = ss_timeout snap, ds_saturated = ss_saturated snap, ds_input_bytes = ss_input snap,
      ds_output_bytes = ss_output snap, ds_saved_bytes = SavedBytes snap, ds_duration_nano = ss_duration snap\<rparr>"

definition dashboard :: "menv \<Rightarrow> handler \<Rightarrow> dashboard_dto" where
  "dashboard env h =
     (case StatusSnapshot (mn_hash env) (mn_store env) of
        (cfg, valid, _) \<Rightarrow>
          let ms = Snapshot (sv_metrics (mn_service env));
              enabled = valid \<and> HeadroomEnabled cfg;
              snap = fst (HeadroomSnapshot (mn_snapshot env) (mn_service env))
          in \<lparr>dd_started_at = ms_started_at ms,
              dd_headroom = \<lparr>dh_enabled = enabled, dh_url = HeadroomURL cfg,
                dh_status = (if \<not> enabled then HeadroomStatusDisabled
                             else if \<not> hs_observed snap then HeadroomStatusUnknown
                             else if hs_effective snap then HeadroomStatusReady else HeadroomStatusDegraded),
                dh_circuit = (if enabled then circuitProjection (hs_circuit snap) else HeadroomCircuitDisabled),
                dh_last_checked_at = hd_checked_at h, dh_last_latency_ms = hd_latency_ms h, dh_last_outcome = hd_outcome h\<rparr>,
              dd_rtk = projectStage (sp_rtk (ms_stages ms)), dd_headroom_stage = projectStage (sp_headroom (ms_stages ms)),
              dd_caveman = projectStage (sp_caveman (ms_stages ms)), dd_ponytail = projectStage (sp_ponytail (ms_stages ms)),
              dd_route_outcomes = RouteOutcomes (mn_routes env) (sv_metrics (mn_service env))\<rparr>)"

definition status :: "menv \<Rightarrow> handler \<Rightarrow> status_dto" where
  "status env h =
     (case StatusSnapshot (mn_hash env) (mn_store env) of
        (cfg, valid, digest) \<Rightarrow>
          let ms = Snapshot (sv_metrics (mn_service env));
              health = fst (HeadroomStatus (mn_probe env) (mn_service env))
          in \<lparr>sd_build_version = hd_build_version h, sd_abi_version = hd_abi_version h, sd_rpc_schema = hd_rpc_schema h,
              sd_fixture_revision = FixtureRevision, sd_started_at = ms_started_at ms, sd_live = True,
              sd_config = (if valid then ConfigValid else ConfigError),
              sd_config_generation = Generation (mn_service env), sd_config_digest = digest,
              sd_pipeline = (if RTKEnabled cfg \<or> HeadroomEnabled cfg \<or> CavemanEnabled cfg \<or> PonytailEnabled cfg
                             then PipelineActive else PipelineAllBypassed),
              sd_dependency = (if \<not> HeadroomEnabled cfg then DependencyDisabled
                               else if hs_effective health then DependencyReady else DependencyDegraded),
              sd_headroom_desired = HeadroomEnabled cfg,
              sd_headroom_effective = HeadroomEnabled cfg \<and> hs_effective health,
              sd_headroom_circuit = (if HeadroomEnabled cfg then circuitProjection (hs_circuit health) else HeadroomCircuitDisabled),
              sd_current = ms_current ms, sd_previous = ms_previous ms,
              sd_last_self_test_at = hd_self_test_at h, sd_last_self_test = hd_self_test h, sd_metrics = ms_stages ms\<rparr>)"

subsection \<open>The manual check\<close>

definition milliseconds :: "duration \<Rightarrow> int" where
  "milliseconds d = (if d < 0 then - ((- d) div millisecond) else d div millisecond)"

definition recordCheck :: "gotime \<Rightarrow> u64 \<Rightarrow> bytes \<Rightarrow> handler \<Rightarrow> handler" where
  "recordCheck at latency oc h = h\<lparr>hd_checked_at := Some at, hd_latency_ms := Some latency, hd_outcome := oc\<rparr>"

text \<open>Taking the slot and the cooldown test; \<open>None\<close> admits the check, which then holds the slot.\<close>

definition check_enter :: "gotime \<Rightarrow> handler \<Rightarrow> management_response option \<times> handler" where
  "check_enter now h =
     (if hd_check_in_flight h then (Some (errorResponse 429 ErrorRateLimited ''headroom check is already in flight''), h)
      else if (case hd_checked_at h of None \<Rightarrow> False | Some at \<Rightarrow> now - at < checkCooldown)
        then (Some (errorResponse 429 ErrorRateLimited ''headroom check cooldown active''), h)
      else (None, h\<lparr>hd_check_in_flight := True\<rparr>))"

definition check_finish :: "gotime \<Rightarrow> check_result \<Rightarrow> handler \<Rightarrow> management_response \<times> handler" where
  "check_finish testedAt result h =
     (let latencyMS = word_of_int (milliseconds (cr_latency result))
      in (jsonResponse 200 (CheckPayload \<lparr>ck_reachable = cr_reachable result,
            ck_status = (if cr_reachable result then HeadroomStatusReady else HeadroomStatusDegraded),
            ck_outcome = outcome_name (cr_outcome result), ck_latency_ms = latencyMS, ck_tested_at = testedAt\<rparr>),
          (recordCheck testedAt latencyMS (outcome_name (cr_outcome result)) h)\<lparr>hd_check_in_flight := False\<rparr>))"

definition check :: "menv \<Rightarrow> handler \<Rightarrow> management_response \<times> handler" where
  "check env h =
     (case StatusSnapshot (mn_hash env) (mn_store env) of
        (cfg, valid, _) \<Rightarrow>
          if \<not> valid \<or> \<not> HeadroomEnabled cfg
          then (errorResponse 409 ErrorConfigInvalid ''headroom is disabled or configuration is invalid'', h)
          else (case check_enter (mn_now env) h of
                  (Some refused, h') \<Rightarrow> (refused, h')
                | (None, h') \<Rightarrow>
                    check_finish (mn_after env) (mn_check env (HeadroomURL cfg) (client_timeout cfg)) h'))"

subsection \<open>The self-test\<close>

definition selfTestBody :: bytes where
  "selfTestBody = ''{'' @ json_string ''messages'' @ '':[{'' @ json_string ''role'' @ '':'' @ json_string ''user'' @ '',''
     @ json_string ''content'' @ '':'' @ json_string ''Verify the local token saver pipeline.'' @ ''}]}''"

definition recordSelfTestAt :: "gotime \<Rightarrow> self_test_word \<Rightarrow> handler \<Rightarrow> handler" where
  "recordSelfTestAt at result h = h\<lparr>hd_self_test_at := Some at, hd_self_test := result\<rparr>"

definition self_test_request :: "config \<Rightarrow> request" where
  "self_test_request cfg = \<lparr>rq_from = ''openai'', rq_to = ''openai'',
     rq_model = (if ModelAllowlist cfg \<noteq> [] then ModelAllowlist cfg ! 0 else ''self-test-model''),
     rq_stream = False, rq_body = selfTestBody\<rparr>"

text \<open>Attempt \<open>k\<close> reads the generation three times: at its start, after the store, after the run.\<close>

function self_test_attempts :: "menv \<Rightarrow> nat \<Rightarrow> handler \<Rightarrow> management_response \<times> handler" where
  "self_test_attempts env k h =
     (if k \<ge> 2 then
        (errorResponse 409 ErrorConfigChanged ''runtime configuration changed during self-test'',
         recordSelfTestAt (mn_now env) SelfTestFailed h)
      else
        (case StatusSnapshot (mn_hash env) (mn_store_at env k) of
           (cfg, valid, _) \<Rightarrow>
             if \<not> valid then
               (errorResponse 409 ErrorConfigInvalid ''runtime configuration is invalid'',
                recordSelfTestAt (mn_now env) SelfTestFailed h)
             else if mn_generation env (3 * k) \<noteq> mn_generation env (3 * k + 1) then self_test_attempts env (Suc k) h
             else
               let result = mn_normalize env k (self_test_request cfg)
               in if mn_generation env (3 * k) \<noteq> mn_generation env (3 * k + 2) then self_test_attempts env (Suc k) h
                  else if \<not> json_valid result then
                    (errorResponse 500 ErrorSelfTestFailed ''local pipeline self-test failed'',
                     recordSelfTestAt (mn_now env) SelfTestFailed h)
                  else (jsonResponse 200 (SelfTestPayload (mn_now env) SelfTestPassed),
                        recordSelfTestAt (mn_now env) SelfTestPassed h)))"
  by pat_completeness auto

termination
  by (relation "measure (\<lambda>(env, k, h). 2 - k)") auto

declare self_test_attempts.simps [simp del]

definition selfTest :: "menv \<Rightarrow> handler \<Rightarrow> management_response \<times> handler" where
  "selfTest env h = self_test_attempts env 0 h"

subsection \<open>Dispatch\<close>

definition management_not_allowed :: management_response where
  "management_not_allowed = errorResponse 405 ErrorMethodNotAllowed ''management method is not allowed''"

definition resource_not_allowed :: management_response where
  "resource_not_allowed = errorResponse 405 ErrorMethodNotAllowed ''resource method is not allowed''"

definition resource_paths :: "bytes \<Rightarrow> bytes list" where
  "resource_paths route = [resource_base @ route, resource_base @ ''/'' @ route, route]"

definition Handle :: "menv \<Rightarrow> management_request \<Rightarrow> handler \<Rightarrow> management_response \<times> handler" where
  "Handle env q h =
     (let path = mq_path q; method = mq_method q
      in if path = ManagementBasePath @ StatusRoute then
           (if method \<noteq> ''GET'' then (management_not_allowed, h) else (jsonResponse 200 (StatusPayload (status env h)), h))
         else if path = ManagementBasePath @ SelfTestRoute then
           (if method \<noteq> ''POST'' then (management_not_allowed, h) else selfTest env h)
         else if path = ManagementBasePath @ DashboardRoute then
           (if method \<noteq> ''GET'' then (management_not_allowed, h) else (jsonResponse 200 (DashboardPayload (dashboard env h)), h))
         else if path = ManagementBasePath @ HeadroomCheckRoute then
           (if method \<noteq> ''POST'' then (management_not_allowed, h) else check env h)
         else if List.member (resource_paths HeadroomPageRoute) path then
           (if method \<noteq> ''GET'' then (resource_not_allowed, h) else (htmlResponse 200, h))
         else if List.member (resource_paths HeadroomStatusRoute) path then
           (if method \<noteq> ''GET'' then (resource_not_allowed, h)
            else (jsonResponse 200 (PublicPayload (publicHeadroomStatus env)), h))
         else (errorResponse 404 ErrorRouteNotFound ''management route was not found'', h))"

subsection \<open>The self-test always passes on a stable, valid configuration\<close>

lemma selfTestBody_valid: "json_valid selfTestBody"
  by code_simp

lemma validProviderShape_json: "validProviderShape g body r \<Longrightarrow> json_valid body"
  by (cases "json_valid body") (simp_all add: validProviderShape_def)

lemma normalize_keeps_json:
  assumes "json_valid (rq_body r)"
  shows "json_valid (fst (Normalize nenv opts runner g cfg r c m))"
  using Normalize_cases [of nenv opts runner g cfg r c m] assms validProviderShape_json by metis

definition stable_attempt :: "menv \<Rightarrow> nat \<Rightarrow> bool" where
  "stable_attempt env k \<longleftrightarrow> mn_generation env (3 * k) = mn_generation env (3 * k + 1) \<and> mn_generation env (3 * k) = mn_generation env (3 * k + 2)"

definition store_valid_at :: "menv \<Rightarrow> nat \<Rightarrow> bool" where
  "store_valid_at env k = fst (snd (StatusSnapshot (mn_hash env) (mn_store_at env k)))"

definition self_test_outcome :: "menv \<Rightarrow> int" where
  "self_test_outcome env =
     (if \<not> store_valid_at env 0 then 409 else if stable_attempt env 0 then 200
      else if \<not> store_valid_at env 1 then 409 else if stable_attempt env 1 then 200 else 409)"

text \<open>
  C37. The self-test cannot find a fault of the pipeline.  Whatever the stages, the runner and the
  coalesced results do, it passes on the first attempt of a valid configuration and an unchanged
  generation, and otherwise reports a configuration problem, after at most two attempts: since
  normalisation fails open, the answer 500 for a failed self-test is never given.
\<close>
theorem self_test_outcomes:
  assumes "\<forall>k r. mn_normalize env k r = fst (Normalize (nenv k) opts (runner k) (g k) (cfg k) r (c k) (m k))"
  shows "mr_status (fst (selfTest env h)) = self_test_outcome env
     \<and> hd_self_test_at (snd (selfTest env h)) = Some (mn_now env)
     \<and> hd_self_test (snd (selfTest env h)) = (if self_test_outcome env = 200 then SelfTestPassed else SelfTestFailed)"
proof -
  have v: "json_valid (mn_normalize env k (self_test_request c'))" for k c'
    unfolding assms [rule_format] by (rule normalize_keeps_json) (simp add: self_test_request_def selfTestBody_valid)
  have last: "self_test_attempts env (Suc (Suc 0)) h =
      (errorResponse 409 ErrorConfigChanged ''runtime configuration changed during self-test'',
       recordSelfTestAt (mn_now env) SelfTestFailed h)"
    by (subst self_test_attempts.simps) simp
  show ?thesis
    by (simp add: selfTest_def self_test_attempts.simps [of env 0] self_test_attempts.simps [of env "Suc 0"] last v self_test_outcome_def store_valid_at_def stable_attempt_def
        errorResponse_def jsonResponse_def recordSelfTestAt_def Let_def case_prod_unfold)
qed

text \<open>A concrete environment: a valid store, a stable generation, the production stages.\<close>

definition demo_nenv :: "demo_result nenv" where
  "demo_nenv = \<lparr>ne_gjson = demo_gjson, ne_hash = id, ne_order = (\<lambda>m. []), ne_duration = (\<lambda>st. 0), ne_now_enter = 0,
     ne_now_complete = 0, ne_others = id\<rparr>"

definition demo_menv :: menv where
  "demo_menv = \<lparr>mn_hash = id, mn_store = Some (newStoreState id Defaults True), mn_service = NewService 0,
     mn_probe = None, mn_snapshot = None, mn_routes = [], mn_now = 7, mn_after = 8, mn_generation = (\<lambda>i. 0),
     mn_store_at = (\<lambda>k. Some (newStoreState id Defaults True)),
     mn_normalize = (\<lambda>k r. fst (Normalize demo_nenv (default_options demo_gjson id) None 0 Defaults r newDedupe (New 0))),
     mn_check = (\<lambda>u d. \<lparr>cr_reachable = True, cr_outcome = OutcomeApplied, cr_latency = 1000000\<rparr>)\<rparr>"

theorem self_test_outcomes_witness:
  "mr_status (fst (selfTest demo_menv (NewHandler [] 1 3))) = 200
     \<and> hd_self_test (snd (selfTest demo_menv (NewHandler [] 1 3))) = SelfTestPassed"
proof -
  have "self_test_outcome demo_menv = 200"
    by (simp add: self_test_outcome_def store_valid_at_def stable_attempt_def demo_menv_def StatusSnapshot_def newStoreState_def)
  moreover have "\<forall>k r. mn_normalize demo_menv k r =
      fst (Normalize demo_nenv (default_options demo_gjson id) None 0 Defaults r newDedupe (New 0))"
    by (simp add: demo_menv_def)
  ultimately show ?thesis
    using self_test_outcomes [of demo_menv "\<lambda>k. demo_nenv" "default_options demo_gjson id" "\<lambda>k. None" "\<lambda>k. 0" "\<lambda>k. Defaults"
        "\<lambda>k. newDedupe" "\<lambda>k. New 0" "NewHandler [] 1 3"] by simp
qed

subsection \<open>Checks are rate limited\<close>

text \<open>A state: the handler, the number of checks under way, and when the last one ended.\<close>

type_synonym check_state = "handler \<times> nat \<times> gotime option"

inductive check_step :: "check_state \<Rightarrow> check_state \<Rightarrow> bool" where
  check_admitted: "check_enter now h = (None, h') \<Longrightarrow> check_step (h, n, last_end) (h', Suc n, last_end)"
| check_refused: "check_enter now h = (Some r, h') \<Longrightarrow> check_step (h, n, last_end) (h', n, last_end)"
| check_ends: "0 < n \<Longrightarrow> check_finish at res h = (r, h') \<Longrightarrow> check_step (h, n, last_end) (h', n - 1, Some at)"
| self_test_recorded: "check_step (h, n, last_end) (recordSelfTestAt at res h, n, last_end)"

inductive check_reach :: "check_state \<Rightarrow> bool" where
  check_reach_new: "check_reach (NewHandler build abi rpc, 0, None)"
| check_reach_step: "check_reach s \<Longrightarrow> check_step s s' \<Longrightarrow> check_reach s'"

inductive_cases check_stepE: "check_step s s'"

definition check_inv :: "check_state \<Rightarrow> bool" where
  "check_inv s \<longleftrightarrow> (case s of (h, n, last_end) \<Rightarrow> n = (if hd_check_in_flight h then 1 else 0) \<and> hd_checked_at h = last_end)"

lemma check_inv_step: "check_step s s' \<Longrightarrow> check_inv s \<Longrightarrow> check_inv s'"
  by (induction rule: check_step.induct)
    (auto simp: check_inv_def check_enter_def check_finish_def recordCheck_def recordSelfTestAt_def Let_def split: if_splits option.splits)

lemma check_reach_inv: "check_reach s \<Longrightarrow> check_inv s"
proof (induction rule: check_reach.induct)
  case (check_reach_new build abi rpc)
  then show ?case by (simp add: check_inv_def NewHandler_def)
qed (rule check_inv_step)

text \<open>
  In every interleaving of manual checks at most one is under way, an admitted check starts at least two
  seconds after the end of the last one, and while it runs every other check is refused and changes nothing.
\<close>
theorem check_rate_limited:
  assumes "check_reach (h, n, last_end)" "check_enter now h = (None, h')"
  shows "n = 0 \<and> (case last_end of None \<Rightarrow> True | Some at \<Rightarrow> at + 2 * second \<le> now)
     \<and> (\<exists>refusal. \<forall>later. check_enter later h' = (Some refusal, h'))"
  using check_reach_inv [OF assms(1)] assms(2)
  by (auto simp: check_inv_def check_enter_def checkCooldown_def split: if_splits option.splits)

theorem check_rate_limited_witness:
  "\<exists>h h'. hd_checked_at h = Some 5 \<and> check_enter (5 + 2 * second) h = (None, h')
     \<and> (\<exists>refusal. check_enter (6 + 2 * second) h' = (Some refusal, h'))"
proof -
  let ?r = "\<lparr>cr_reachable = True, cr_outcome = OutcomeApplied, cr_latency = 1000000\<rparr>" and ?h0 = "NewHandler [] 1 3"
  let ?h1 = "?h0\<lparr>hd_check_in_flight := True\<rparr>"
  have "check_reach (?h1, Suc 0, None)"
    by (rule check_reach_step [OF check_reach_new [of "[]" 1 3] check_admitted [of 0]]) (simp add: check_enter_def NewHandler_def)
  from check_reach_step [OF this check_ends [of "Suc 0" 5 ?r ?h1 "fst (check_finish 5 ?r ?h1)" "snd (check_finish 5 ?r ?h1)" None]]
  have r: "check_reach (snd (check_finish 5 ?r ?h1), 0, Some 5)" by simp
  let ?h = "snd (check_finish 5 ?r ?h1)"
  have e: "check_enter (5 + 2 * second) ?h = (None, ?h\<lparr>hd_check_in_flight := True\<rparr>)"
    by (simp add: check_enter_def check_finish_def recordCheck_def checkCooldown_def Let_def)
  have "hd_checked_at ?h = Some 5" by (simp add: check_finish_def recordCheck_def Let_def)
  with e check_rate_limited [OF r e] show ?thesis by blast
qed

text \<open>The dashboard and the public resource tell the same about Headroom.\<close>

lemma dashboard_matches_public:
  "pd_enabled (publicHeadroomStatus env) = dh_enabled (dd_headroom (dashboard env h))
   \<and> pd_status (publicHeadroomStatus env) = dh_status (dd_headroom (dashboard env h))
   \<and> pd_circuit (publicHeadroomStatus env) = dh_circuit (dd_headroom (dashboard env h))"
  by (auto simp: publicHeadroomStatus_def dashboard_def Let_def case_prod_unfold)

text \<open>Only the two POST routes change the handler.\<close>

lemma Handle_read_only: "mq_method q \<noteq> ''POST'' \<Longrightarrow> snd (Handle env q h) = h"
  by (auto simp: Handle_def Let_def)

end
