(* ===== verification/GoDecode.thy ===== *)
theory GoDecode
  imports GoJson
begin

text \<open>
  The part of \<open>encoding/json\<close> that fills a struct, and \<open>encoding/base64\<close>, which a \<open>[]byte\<close> field
  is written in.  Members are decoded in text order into the field whose name is theirs up to letter
  case; a null leaves a field as it is (a byte slice becomes nil); the first mismatch makes the whole
  \<open>Unmarshal\<close> an error.
\<close>

subsection \<open>Base64\<close>

definition b64_alphabet :: bytes where
  "b64_alphabet = ''ABCDEFGHIJKLMNOPQRSTUVWXYZabcdefghijklmnopqrstuvwxyz0123456789+/''"

definition b64_char :: "nat \<Rightarrow> char" where
  "b64_char n = b64_alphabet ! n"

fun base64 :: "bytes \<Rightarrow> bytes" where
  "base64 [] = []"
| "base64 [a] = [b64_char (of_char a div 4), b64_char (of_char a mod 4 * 16), CHR ''='', CHR ''='']"
| "base64 [a, b] = [b64_char (of_char a div 4), b64_char (of_char a mod 4 * 16 + of_char b div 16),
     b64_char (of_char b mod 16 * 4), CHR ''='']"
| "base64 (a # b # c # s) = [b64_char (of_char a div 4), b64_char (of_char a mod 4 * 16 + of_char b div 16),
     b64_char (of_char b mod 16 * 4 + of_char c div 64), b64_char (of_char c mod 64)] @ base64 s"

fun position :: "'a \<Rightarrow> 'a list \<Rightarrow> nat option" where
  "position x [] = None"
| "position x (y # ys) = (if x = y then Some 0 else map_option Suc (position x ys))"

definition b64_val :: "char \<Rightarrow> nat option" where
  "b64_val c = position c b64_alphabet"

text \<open>The decoder skips line breaks; a quantum with padding must be the last.\<close>

fun b64_quanta :: "bytes \<Rightarrow> bytes option" where
  "b64_quanta [] = Some []"
| "b64_quanta (p # q # r # s # rest) =
     (case (b64_val p, b64_val q) of
        (Some w, Some x) \<Rightarrow>
          if r = CHR ''='' then (if s = CHR ''='' \<and> rest = [] then Some [char_of (w * 4 + x div 16)] else None)
          else (case b64_val r of
                  None \<Rightarrow> None
                | Some y \<Rightarrow>
                    if s = CHR ''='' then
                      (if rest = [] then Some [char_of (w * 4 + x div 16), char_of (x mod 16 * 16 + y div 4)] else None)
                    else (case b64_val s of
                            None \<Rightarrow> None
                          | Some z \<Rightarrow>
                              map_option (\<lambda>t. [char_of (w * 4 + x div 16), char_of (x mod 16 * 16 + y div 4),
                                char_of (y mod 4 * 64 + z)] @ t) (b64_quanta rest)))
      | _ \<Rightarrow> None)"
| "b64_quanta _ = None"

definition b64_decode :: "bytes \<Rightarrow> bytes option" where
  "b64_decode s = b64_quanta (filter (\<lambda>c. c \<noteq> CHR 0x0A \<and> c \<noteq> CHR 0x0D) s)"

lemma b64_val_char: "n < 64 \<Longrightarrow> b64_val (b64_char n) = Some n"
proof -
  have all: "list_all (\<lambda>n. b64_val (b64_char n) = Some n) [0..<64]" by code_simp
  assume "n < 64"
  then show ?thesis using all by (auto simp: list_all_iff)
qed

lemma b64_char_plain: "n < 64 \<Longrightarrow> b64_char n \<noteq> CHR 0x0A \<and> b64_char n \<noteq> CHR 0x0D \<and> b64_char n \<noteq> CHR ''=''"
proof -
  have all: "list_all (\<lambda>n. b64_char n \<noteq> CHR 0x0A \<and> b64_char n \<noteq> CHR 0x0D \<and> b64_char n \<noteq> CHR ''='') [0..<64]" by code_simp
  assume "n < 64"
  then show ?thesis using all by (auto simp: list_all_iff)
qed

lemma of_char_lt: "(of_char c :: nat) < 256"
  by (simp add: less_char_def)

lemma b64_parts:
  "(of_char a :: nat) div 4 < 64" "(of_char a :: nat) mod 4 * 16 + of_char b div 16 < 64"
  "(of_char b :: nat) mod 16 * 4 + of_char c div 64 < 64" "(of_char a :: nat) mod 4 * 16 < 64" "(of_char b :: nat) mod 16 * 4 < 64"
  using of_char_lt [of a] of_char_lt [of b] of_char_lt [of c] by linarith+

lemma quot_rem: "r < d \<Longrightarrow> (k * d + r) div d = (k :: nat)" "r < d \<Longrightarrow> (k * d + r) mod d = (r :: nat)"
  by simp_all

lemma b64_join:
  fixes l m n :: nat
  assumes "l < 256" "m < 256" "n < 256"
  shows "l div 4 * 4 + (l mod 4 * 16 + m div 16) div 16 = l"
    "(l mod 4 * 16 + m div 16) mod 16 * 16 + (m mod 16 * 4 + n div 64) div 4 = m"
    "(m mod 16 * 4 + n div 64) mod 4 * 64 + n mod 64 = n"
    "l div 4 * 4 + l mod 4 * 16 div 16 = l" "(l mod 4 * 16 + m div 16) mod 16 * 16 + m mod 16 * 4 div 4 = m"
proof -
  have "m div 16 < 16" "n div 64 < 4" using assms by linarith+
  then show "l div 4 * 4 + (l mod 4 * 16 + m div 16) div 16 = l"
    "(l mod 4 * 16 + m div 16) mod 16 * 16 + (m mod 16 * 4 + n div 64) div 4 = m"
    "(m mod 16 * 4 + n div 64) mod 4 * 64 + n mod 64 = n"
    "l div 4 * 4 + l mod 4 * 16 div 16 = l" "(l mod 4 * 16 + m div 16) mod 16 * 16 + m mod 16 * 4 div 4 = m"
    by (simp_all only: quot_rem div_mult_mod_eq mult_div_mod_eq) simp_all
qed

lemma base64_clean: "\<forall>c \<in> set (base64 s). c \<noteq> CHR 0x0A \<and> c \<noteq> CHR 0x0D"
  by (induction s rule: base64.induct) (auto simp: b64_char_plain b64_parts)

lemma b64_quanta_base64: "b64_quanta (base64 s) = Some s"
proof (induction s rule: base64.induct)
  case (2 a)
  show ?case by (simp add: b64_val_char b64_char_plain b64_parts b64_join(4) [of "of_char a" 0 0] of_char_lt)
next
  case (3 a b)
  have "(of_char b :: nat) div 16 < 16" using of_char_lt [of b] by linarith
  then show ?case by (simp add: b64_val_char b64_char_plain b64_parts b64_join [of _ _ 0] b64_join(5) [of "of_char a" "of_char b" 0] of_char_lt)
next
  case (4 a b c s)
  have "(of_char b :: nat) div 16 < 16" "(of_char c :: nat) div 64 < 4" using of_char_lt [of b] of_char_lt [of c] by linarith+
  with 4 show ?case
    by (simp add: b64_val_char b64_char_plain b64_parts b64_join [of "of_char a" "of_char b" "of_char c"] of_char_lt)
qed simp

lemma b64_decode_base64: "b64_decode (base64 s) = Some s"
proof -
  have "filter (\<lambda>c. c \<noteq> CHR 0x0A \<and> c \<noteq> CHR 0x0D) (base64 s) = base64 s"
    using base64_clean [of s] by (auto simp: filter_id_conv)
  then show ?thesis by (simp add: b64_decode_def b64_quanta_base64)
qed

lemma base64_length: "length (base64 s) = 4 * ((length s + 2) div 3)"
proof (induction s rule: base64.induct)
  case (4 a b c s)
  have "(length (a # b # c # s) + 2) div 3 = (3 + (length s + 2)) div 3" by simp
  also have "\<dots> = Suc ((length s + 2) div 3)" by (simp only: div_add_self1)
  finally show ?case using 4 by simp
qed simp_all

subsection \<open>Struct fields\<close>

text \<open>Field names are compared up to letter case; two runes outside ASCII fold to ASCII letters.\<close>

fun fold_name :: "bytes \<Rightarrow> bytes" where
  "fold_name [] = []"
| "fold_name (c # cs) =
     (if has_prefix [CHR 0xC5, CHR 0xBF] (c # cs) then CHR ''s'' # fold_name (drop 1 cs)
      else if has_prefix [CHR 0xE2, CHR 0x84, CHR 0xAA] (c # cs) then CHR ''k'' # fold_name (drop 2 cs)
      else lower_byte c # fold_name cs)"

definition names_field :: "bytes \<Rightarrow> bytes \<Rightarrow> bool" where
  "names_field field key = (fold_name key = fold_name field)"

definition dec_string :: "json \<Rightarrow> bytes \<Rightarrow> bytes option" where
  "dec_string v cur = (case v of JStr s \<Rightarrow> Some s | JNull \<Rightarrow> Some cur | _ \<Rightarrow> None)"

definition dec_bool :: "json \<Rightarrow> bool \<Rightarrow> bool option" where
  "dec_bool v cur = (case v of JBool b \<Rightarrow> Some b | JNull \<Rightarrow> Some cur | _ \<Rightarrow> None)"

text \<open>An unsigned integer field: a literal of digits only, below the bound.\<close>

definition dec_uint :: "nat \<Rightarrow> json \<Rightarrow> nat \<Rightarrow> nat option" where
  "dec_uint bound v cur =
     (case v of
        JNum n \<Rightarrow> if list_all is_digit n \<and> digits_val n < bound then Some (digits_val n) else None
      | JNull \<Rightarrow> Some cur
      | _ \<Rightarrow> None)"

text \<open>A byte slice: base64 text, null, or an array of bytes.\<close>

fun dec_byte_items :: "json list \<Rightarrow> bytes option" where
  "dec_byte_items [] = Some []"
| "dec_byte_items (v # vs) =
     (case (dec_uint 256 v 0, dec_byte_items vs) of (Some n, Some s) \<Rightarrow> Some (char_of n # s) | _ \<Rightarrow> None)"

definition dec_bytes :: "json \<Rightarrow> bytes option" where
  "dec_bytes v =
     (case v of JStr s \<Rightarrow> b64_decode s | JNull \<Rightarrow> Some [] | JArr vs \<Rightarrow> dec_byte_items vs | _ \<Rightarrow> None)"

text \<open>\<open>Unmarshal\<close> into a struct: \<open>set_field\<close> decodes one member, unknown names included.\<close>

fun dec_members :: "(bytes \<Rightarrow> json \<Rightarrow> 's \<Rightarrow> 's option) \<Rightarrow> (bytes \<times> json) list \<Rightarrow> 's \<Rightarrow> 's option" where
  "dec_members set_field [] s = Some s"
| "dec_members set_field ((k, v) # ms) s =
     (case set_field k v s of None \<Rightarrow> None | Some s' \<Rightarrow> dec_members set_field ms s')"

text \<open>A nested struct: null leaves it alone.\<close>

definition dec_object :: "(bytes \<Rightarrow> json \<Rightarrow> 's \<Rightarrow> 's option) \<Rightarrow> json \<Rightarrow> 's \<Rightarrow> 's option" where
  "dec_object set_field v s =
     (case v of JObj ms \<Rightarrow> dec_members set_field ms s | JNull \<Rightarrow> Some s | _ \<Rightarrow> None)"

definition unmarshal :: "(bytes \<Rightarrow> json \<Rightarrow> 's \<Rightarrow> 's option) \<Rightarrow> 's \<Rightarrow> bytes \<Rightarrow> 's option" where
  "unmarshal set_field zero_value raw =
     (case json_parse raw of None \<Rightarrow> None | Some v \<Rightarrow> dec_object set_field v zero_value)"

definition dec_u32 :: "json \<Rightarrow> u32 \<Rightarrow> u32 option" where
  "dec_u32 v cur = map_option word_of_nat (dec_uint (2 ^ 32) v (unat cur))"

definition dec_u64 :: "json \<Rightarrow> u64 \<Rightarrow> u64 option" where
  "dec_u64 v cur = map_option word_of_nat (dec_uint (2 ^ 64) v (unat cur))"

text \<open>An \<open>int\<close> field: a literal without fraction or exponent, in 64 bits.\<close>

definition dec_int :: "json \<Rightarrow> int \<Rightarrow> int option" where
  "dec_int v cur = (case v of JNum n \<Rightarrow> parse_int n | JNull \<Rightarrow> Some cur | _ \<Rightarrow> None)"

text \<open>
  A slice field.  The decoder writes into the elements the slice already has, the ones behind a shortened
  length included, so a slice is its memory and its length; null and an empty array start afresh.
\<close>

record 'a go_slice =
  gs_memory :: "'a list"
  gs_length :: nat

definition nil_slice :: "'a go_slice" where
  "nil_slice = \<lparr>gs_memory = [], gs_length = 0\<rparr>"

definition slice_items :: "'a go_slice \<Rightarrow> 'a list" where
  "slice_items sl = take (gs_length sl) (gs_memory sl)"

fun dec_items :: "(json \<Rightarrow> 'a \<Rightarrow> 'a option) \<Rightarrow> 'a \<Rightarrow> json list \<Rightarrow> 'a list \<Rightarrow> 'a list option" where
  "dec_items dec zero_value [] memory = Some memory"
| "dec_items dec zero_value (v # vs) memory =
     (case dec v (case memory of [] \<Rightarrow> zero_value | m # ms \<Rightarrow> m) of
        None \<Rightarrow> None
      | Some x \<Rightarrow> map_option (\<lambda>xs. x # xs) (dec_items dec zero_value vs (drop 1 memory)))"

definition dec_slice :: "(json \<Rightarrow> 'a \<Rightarrow> 'a option) \<Rightarrow> 'a \<Rightarrow> json \<Rightarrow> 'a go_slice \<Rightarrow> 'a go_slice option" where
  "dec_slice dec zero_value v sl =
     (case v of
        JNull \<Rightarrow> Some nil_slice
      | JArr [] \<Rightarrow> Some nil_slice
      | JArr vs \<Rightarrow> map_option (\<lambda>memory. \<lparr>gs_memory = memory, gs_length = length vs\<rparr>) (dec_items dec zero_value vs (gs_memory sl))
      | _ \<Rightarrow> None)"

end
