(* ===== verification/Buffers.thy ===== *)
theory Buffers
  imports Prelude
begin

text \<open>
  \<open>internal/abi/buffer.go\<close>: the response buffers the plugin allocates and the host frees.  A non-nil
  pointer is a number and nil is \<open>None\<close>; the allocator is C code, so what it returns is an argument.
\<close>

definition MaxMethodBytes :: nat where "MaxMethodBytes = 256"
definition MaxRequestBytes :: nat where "MaxRequestBytes = 16777216"
definition MaxResponseBytes :: nat where "MaxResponseBytes = 16777216"

record buffer_pool =
  bp_allocations :: "nat \<rightharpoonup> u64"

definition NewBufferPool :: buffer_pool where
  "NewBufferPool = \<lparr>bp_allocations = Map.empty\<rparr>"

datatype buffer_error = ResponseTooLarge | AllocationFailed | LivePointer | RequestTooLarge | RequestNil

datatype allocated = Allocated "nat option" u64 | AllocateError buffer_error

text \<open>\<open>got\<close> is what the allocator returned, if it is called.\<close>

definition Allocate :: "bytes \<Rightarrow> nat option \<Rightarrow> buffer_pool \<Rightarrow> allocated \<times> buffer_pool" where
  "Allocate raw got p =
     (if raw = [] then (Allocated None 0, p)
      else if length raw > MaxResponseBytes then (AllocateError ResponseTooLarge, p)
      else (case got of
              None \<Rightarrow> (AllocateError AllocationFailed, p)
            | Some ptr \<Rightarrow>
                if bp_allocations p ptr \<noteq> None then (AllocateError LivePointer, p)
                else (Allocated (Some ptr) (word_of_nat (length raw)),
                      p\<lparr>bp_allocations := (bp_allocations p)(ptr \<mapsto> word_of_nat (length raw))\<rparr>)))"

text \<open>Whether the buffer was freed; the reported length is ignored.\<close>

definition Free :: "nat option \<Rightarrow> u64 \<Rightarrow> buffer_pool \<Rightarrow> bool \<times> buffer_pool" where
  "Free ptr reportedLength p =
     (case ptr of
        None \<Rightarrow> (False, p)
      | Some q \<Rightarrow>
          if bp_allocations p q = None then (False, p)
          else (True, p\<lparr>bp_allocations := mdelete (bp_allocations p) q\<rparr>))"

definition Outstanding :: "buffer_pool \<Rightarrow> nat" where
  "Outstanding p = card (dom (bp_allocations p))"

text \<open>The host's memory is read only after the checks.\<close>

definition CopyRequest :: "bytes option \<Rightarrow> nat \<Rightarrow> buffer_error + bytes" where
  "CopyRequest memory len =
     (if len = 0 then Inr []
      else if len > MaxRequestBytes then Inl RequestTooLarge
      else (case memory of None \<Rightarrow> Inl RequestNil | Some m \<Rightarrow> Inr (take len m)))"

subsection \<open>Each buffer is freed once\<close>

text \<open>
  A history: what the allocator handed out and what was released to C, per pointer.  The allocator
  never returns memory that is not free (its contract), the host may free what it likes.
\<close>

record buffer_history =
  bh_pool :: buffer_pool
  bh_given :: "nat \<Rightarrow> nat"
  bh_freed :: "nat \<Rightarrow> nat"

inductive buffer_step :: "buffer_history \<Rightarrow> buffer_history \<Rightarrow> bool" where
  buffer_allocated:
    "Allocate raw (Some ptr) (bh_pool h) = (Allocated (Some ptr) n, p) \<Longrightarrow>
     buffer_step h (h\<lparr>bh_pool := p, bh_given := (bh_given h)(ptr := Suc (bh_given h ptr))\<rparr>)"
| buffer_refused: "Allocate raw got (bh_pool h) = (AllocateError e, p) \<Longrightarrow> buffer_step h (h\<lparr>bh_pool := p\<rparr>)"
| buffer_freed:
    "Free (Some ptr) n (bh_pool h) = (True, p) \<Longrightarrow>
     buffer_step h (h\<lparr>bh_pool := p, bh_freed := (bh_freed h)(ptr := Suc (bh_freed h ptr))\<rparr>)"
| buffer_ignored: "Free ptr n (bh_pool h) = (False, p) \<Longrightarrow> buffer_step h (h\<lparr>bh_pool := p\<rparr>)"

inductive buffer_reach :: "buffer_history \<Rightarrow> bool" where
  buffer_new: "buffer_reach \<lparr>bh_pool = NewBufferPool, bh_given = (\<lambda>_. 0), bh_freed = (\<lambda>_. 0)\<rparr>"
| buffer_more: "buffer_reach h \<Longrightarrow> buffer_step h h' \<Longrightarrow> buffer_reach h'"

definition buffer_inv :: "buffer_history \<Rightarrow> bool" where
  "buffer_inv h \<longleftrightarrow> finite (dom (bp_allocations (bh_pool h)))
     \<and> (\<forall>ptr. bh_given h ptr = bh_freed h ptr + (if bp_allocations (bh_pool h) ptr = None then 0 else 1))"

inductive_cases buffer_stepE: "buffer_step h h'"

lemma buffer_inv_step: "buffer_step h h' \<Longrightarrow> buffer_inv h \<Longrightarrow> buffer_inv h'"
  by (erule buffer_stepE) (auto simp: buffer_inv_def Allocate_def Free_def split: if_splits option.splits)

lemma buffer_reach_inv: "buffer_reach h \<Longrightarrow> buffer_inv h"
proof (induction rule: buffer_reach.induct)
  case buffer_new
  show ?case by (simp add: buffer_inv_def NewBufferPool_def)
qed (rule buffer_inv_step)

text \<open>
  Every response buffer is released to C exactly once.  In every history of allocations, frees, double
  frees and frees of foreign pointers, a pointer has been released as often as it was handed to the host,
  one less while the buffer is outstanding; \<open>Free\<close> releases exactly an outstanding one, whatever length
  the host reports, and \<open>Outstanding\<close> counts a finite set.
\<close>
theorem buffer_freed_once:
  assumes "buffer_reach h"
  shows "bh_given h ptr = bh_freed h ptr + (if bp_allocations (bh_pool h) ptr = None then 0 else 1)
     \<and> fst (Free (Some ptr) n (bh_pool h)) = (bh_freed h ptr < bh_given h ptr)
     \<and> fst (Free (Some ptr) n' (snd (Free (Some ptr) n (bh_pool h)))) = False
     \<and> finite (dom (bp_allocations (bh_pool h)))"
proof -
  have inv: "buffer_inv h" by (rule buffer_reach_inv [OF assms])
  then have "bh_given h ptr = bh_freed h ptr + (if bp_allocations (bh_pool h) ptr = None then 0 else 1)"
    by (simp add: buffer_inv_def)
  then show ?thesis using inv by (auto simp: buffer_inv_def Free_def)
qed

theorem buffer_freed_once_witness:
  "fst (Free (Some 7) 0 (snd (Allocate ''ok'' (Some 7) NewBufferPool))) = True
     \<and> fst (Free (Some 7) 2 (snd (Free (Some 7) 0 (snd (Allocate ''ok'' (Some 7) NewBufferPool))))) = False"
proof -
  let ?h0 = "\<lparr>bh_pool = NewBufferPool, bh_given = (\<lambda>_. 0), bh_freed = (\<lambda>_. 0)\<rparr>"
  let ?p = "snd (Allocate ''ok'' (Some 7) NewBufferPool)"
  have "Allocate ''ok'' (Some 7) (bh_pool ?h0) = (Allocated (Some 7) 2, ?p)"
    by (simp add: Allocate_def NewBufferPool_def MaxResponseBytes_def)
  from buffer_freed_once [OF buffer_more [OF buffer_new buffer_allocated [OF this]], of 7 0 2]
  show ?thesis by simp
qed

end
