(* ===== verification/Abi.thy ===== *)
theory Abi
  imports Management GoDecode Buffers
begin

text \<open>
  \<open>internal/abi/envelope.go\<close>: the runtime behind the native entry points.  A reply is the value that is
  wrapped in the RPC envelope; its bytes are modelled for failures and for normalised payloads.  The texts
  of decoder errors are an argument.  \<open>lifecycleMu\<close> serialises the calls that touch the store or the
  handler, so a call is one step here; the gate that admits calls is modelled with its interleavings.
\<close>

subsection \<open>Names and results\<close>

definition MethodPluginRegister :: bytes where "MethodPluginRegister = ''plugin.register''"
definition MethodPluginReconfigure :: bytes where "MethodPluginReconfigure = ''plugin.reconfigure''"
definition MethodPluginShutdown :: bytes where "MethodPluginShutdown = ''plugin.shutdown''"
definition MethodRequestNormalize :: bytes where "MethodRequestNormalize = ''request.normalize''"
definition MethodManagementRegister :: bytes where "MethodManagementRegister = ''management.register''"
definition MethodManagementHandle :: bytes where "MethodManagementHandle = ''management.handle''"

definition ABIVersion :: u32 where "ABIVersion = 1"
definition RPCSchemaVersion :: u32 where "RPCSchemaVersion = 3"
definition MaxLifecycleRequestSchemaVersion :: nat where "MaxLifecycleRequestSchemaVersion = 6"
definition CallStatusOK :: int where "CallStatusOK = 0"
definition CallStatusError :: int where "CallStatusError = 1"
definition PluginName :: bytes where "PluginName = ''Token Saver''"
definition PluginAuthor :: bytes where "PluginAuthor = ''Mr.King''"
definition PluginRepository :: bytes where
  "PluginRepository = ''https://github.com/jinpeng2700-tech/cpa-plugin-token-saver''"
definition PluginVersion :: bytes where "PluginVersion = ''1.2.7''"

record config_field =
  cf_name :: bytes
  cf_type :: bytes
  cf_enum_values :: "bytes list"
  cf_description :: bytes

record plugin_registration =
  pr_schema_version :: u32
  pr_name :: bytes
  pr_version :: bytes
  pr_author :: bytes
  pr_repository :: bytes
  pr_logo :: bytes
  pr_config_fields :: "config_field list"
  pr_request_normalizer :: bool
  pr_management_api :: bool

definition plain_field :: "bytes \<Rightarrow> bytes \<Rightarrow> bytes \<Rightarrow> config_field" where
  "plain_field name type description =
     \<lparr>cf_name = name, cf_type = type, cf_enum_values = [], cf_description = description\<rparr>"

definition pluginConfigFields :: "config_field list" where
  "pluginConfigFields =
     [plain_field ''rtk_enabled'' ''boolean'' ''Enables RTK tool-output compression.'',
      plain_field ''headroom_enabled'' ''boolean'' ''Enables loopback Headroom compression.'',
      plain_field ''headroom_url'' ''string'' ''Headroom HTTP base URL at literal 127.0.0.1 or ::1.'',
      plain_field ''headroom_timeout_ms'' ''integer'' ''Headroom timeout in milliseconds (100-1500).'',
      plain_field ''caveman_enabled'' ''boolean'' ''Enables the Caveman response-style prompt.'',
      \<lparr>cf_name = ''caveman_level'', cf_type = ''enum'', cf_enum_values = [''lite'', ''full'', ''ultra'', ''wenyan-lite'', ''wenyan'', ''wenyan-ultra''],
       cf_description = ''Selects the Caveman compression level.''\<rparr>,
      plain_field ''ponytail_enabled'' ''boolean'' ''Enables the Ponytail minimal-code prompt.'',
      \<lparr>cf_name = ''ponytail_level'', cf_type = ''enum'', cf_enum_values = [''lite'', ''full'', ''ultra''],
       cf_description = ''Selects the Ponytail strictness level.''\<rparr>,
      plain_field ''model_allowlist'' ''array'' ''Exact, case-sensitive model strings; empty means all models.'']"

definition pluginRegistration :: plugin_registration where
  "pluginRegistration = \<lparr>pr_schema_version = RPCSchemaVersion, pr_name = PluginName, pr_version = PluginVersion,
     pr_author = PluginAuthor, pr_repository = PluginRepository, pr_logo = [],
     pr_config_fields = pluginConfigFields, pr_request_normalizer = True, pr_management_api = True\<rparr>"

datatype abi_result = PayloadResult bytes | RegistrationResult plugin_registration
  | RoutesResult "route list \<times> route list" | ManagementResult management_response

datatype envelope = Success abi_result | Failed bytes bytes

definition Failure :: "bytes \<Rightarrow> bytes \<Rightarrow> envelope" where
  "Failure code message = Failed (if code = [] then ''plugin_error'' else code) (if message = [] then ''plugin call failed'' else message)"

text \<open>The envelope's bytes, where they are modelled; an empty body is a nil slice.\<close>

definition failure_bytes :: "bytes \<Rightarrow> bytes \<Rightarrow> bytes" where
  "failure_bytes code message =
     ''{'' @ json_key ''ok'' @ ''false,'' @ json_key ''error'' @ ''{'' @ json_key ''code'' @ json_string code @ '',''
     @ json_key ''message'' @ json_string message @ ''}}''"

definition payload_bytes :: "bytes \<Rightarrow> bytes" where
  "payload_bytes body =
     ''{'' @ json_key ''ok'' @ ''true,'' @ json_key ''result'' @ ''{'' @ json_key ''Body''
     @ (if body = [] then ''null'' else quote # base64 body @ [quote]) @ ''}}''"

subsection \<open>Requests\<close>

record lifecycle_request =
  lr_config_yaml :: bytes
  lr_schema_version :: nat

definition set_lifecycle :: "bytes \<Rightarrow> json \<Rightarrow> lifecycle_request \<Rightarrow> lifecycle_request option" where
  "set_lifecycle k v r =
     (if names_field ''config_yaml'' k then map_option (\<lambda>b. r\<lparr>lr_config_yaml := b\<rparr>) (dec_bytes v)
      else if names_field ''schema_version'' k
        then map_option (\<lambda>n. r\<lparr>lr_schema_version := n\<rparr>) (dec_uint (2 ^ 32) v (lr_schema_version r))
      else Some r)"

definition zero_request :: request where
  "zero_request = \<lparr>rq_from = [], rq_to = [], rq_model = [], rq_stream = False, rq_body = []\<rparr>"

definition set_request :: "bytes \<Rightarrow> json \<Rightarrow> request \<Rightarrow> request option" where
  "set_request k v r =
     (if names_field ''FromFormat'' k then map_option (\<lambda>s. r\<lparr>rq_from := s\<rparr>) (dec_string v (rq_from r))
      else if names_field ''ToFormat'' k then map_option (\<lambda>s. r\<lparr>rq_to := s\<rparr>) (dec_string v (rq_to r))
      else if names_field ''Model'' k then map_option (\<lambda>s. r\<lparr>rq_model := s\<rparr>) (dec_string v (rq_model r))
      else if names_field ''Stream'' k then map_option (\<lambda>b. r\<lparr>rq_stream := b\<rparr>) (dec_bool v (rq_stream r))
      else if names_field ''Body'' k then map_option (\<lambda>b. r\<lparr>rq_body := b\<rparr>) (dec_bytes v)
      else Some r)"

definition set_management :: "bytes \<Rightarrow> json \<Rightarrow> management_request \<Rightarrow> management_request option" where
  "set_management k v q =
     (if names_field ''Method'' k then map_option (\<lambda>s. q\<lparr>mq_method := s\<rparr>) (dec_string v (mq_method q))
      else if names_field ''Path'' k then map_option (\<lambda>s. q\<lparr>mq_path := s\<rparr>) (dec_string v (mq_path q))
      else Some q)"

text \<open>\<open>decode_error\<close> is the text of the decoder's error.\<close>

definition decodeLifecycleRequest :: "(bytes \<Rightarrow> bytes) \<Rightarrow> bytes \<Rightarrow> bytes + lifecycle_request" where
  "decodeLifecycleRequest decode_error raw =
     (case unmarshal set_lifecycle \<lparr>lr_config_yaml = [], lr_schema_version = 0\<rparr> raw of
        None \<Rightarrow> Inl (''decode lifecycle request: '' @ decode_error raw)
      | Some r \<Rightarrow>
          if lr_schema_version r > MaxLifecycleRequestSchemaVersion
          then Inl (''RPC schema version '' @ show_nat (lr_schema_version r) @ '' is not supported'')
          else Inr r)"

subsection \<open>The runtime\<close>

record runtime =
  rn_active :: int
  rn_stopped :: bool
  rn_store :: store
  rn_service :: service
  rn_cache :: "bytes dedupe_cache"
  rn_handler :: handler

text \<open>
  What one call observes: the YAML decoder, the environment and options of normalisation, the runner of a
  generation, the number of the closer the factory makes, and what the management routes read.
\<close>

record ('n, 'r) abi_env =
  ae_yaml :: "'n yaml"
  ae_nenv :: "'r nenv"
  ae_options :: options
  ae_runner :: "nat \<Rightarrow> headroom_runner"
  ae_closer :: nat
  ae_decode_error :: "bytes \<Rightarrow> bytes"
  ae_probe :: "(headroom_outcome \<times> circuit_state) option"
  ae_snapshot :: "(headroom_outcome option \<times> circuit_state) option"
  ae_routes :: "route_key list"
  ae_now :: gotime
  ae_after :: gotime
  ae_check :: "bytes \<Rightarrow> duration \<Rightarrow> check_result"

definition ae_hash :: "('n, 'r) abi_env \<Rightarrow> bytes \<Rightarrow> bytes" where
  "ae_hash env = ne_hash (ae_nenv env)"

definition NewRuntime :: "'n yaml \<Rightarrow> (bytes \<Rightarrow> bytes) \<Rightarrow> gotime \<Rightarrow> runtime" where
  "NewRuntime y hash now = \<lparr>rn_active = 0, rn_stopped = False, rn_store = fst (NewStore y hash []),
     rn_service = NewService now, rn_cache = newDedupe, rn_handler = NewHandler PluginVersion ABIVersion RPCSchemaVersion\<rparr>"

text \<open>\<open>Service.Normalize\<close> as a whole: the generation is held from \<open>acquire\<close> to the release hook.\<close>

definition service_normalize :: "('n, 'r) abi_env \<Rightarrow> request \<Rightarrow> runtime \<Rightarrow> bytes \<times> runtime" where
  "service_normalize env r rt =
     (case acquire (rn_service rt) of
        None \<Rightarrow> (rq_body r, rt)
      | Some (i, s1) \<Rightarrow>
          let g = sv_gens s1 ! i;
              (result, cache, m) = Normalize (ae_nenv env) (ae_options env)
                (if gn_headroom g then Some (ae_runner env i) else None) (gn_generation g) (gn_config g) r (rn_cache rt) (sv_metrics s1)
          in (result, rt\<lparr>rn_cache := cache, rn_service := end_metric i (snd (release i (s1\<lparr>sv_metrics := m\<rparr>)))\<rparr>))"

definition management_env :: "('n, 'r) abi_env \<Rightarrow> runtime \<Rightarrow> menv" where
  "management_env env rt = \<lparr>mn_hash = ae_hash env, mn_store = rn_store rt, mn_service = rn_service rt,
     mn_probe = ae_probe env, mn_snapshot = ae_snapshot env, mn_routes = ae_routes env,
     mn_now = ae_now env, mn_after = ae_after env, mn_generation = (\<lambda>i. Generation (rn_service rt)),
     mn_store_at = (\<lambda>k. rn_store rt), mn_normalize = (\<lambda>k r. fst (service_normalize env r rt)), mn_check = ae_check env\<rparr>"

text \<open>The self-test runs the pipeline once, since no reconfiguration happens while the lock is held.\<close>

definition self_test_runs :: "('n, 'r) abi_env \<Rightarrow> management_request \<Rightarrow> runtime \<Rightarrow> bool" where
  "self_test_runs env q rt \<longleftrightarrow> mq_path q = ManagementBasePath @ SelfTestRoute \<and> mq_method q = ''POST''
     \<and> fst (snd (StatusSnapshot (ae_hash env) (rn_store rt)))"

definition manage :: "('n, 'r) abi_env \<Rightarrow> management_request \<Rightarrow> runtime \<Rightarrow> management_response \<times> runtime" where
  "manage env q rt =
     (case Handle (management_env env rt) q (rn_handler rt) of
        (response, h) \<Rightarrow>
          (response, (if self_test_runs env q rt
             then snd (service_normalize env (self_test_request (config_Snapshot (rn_store rt))) rt) else rt)\<lparr>rn_handler := h\<rparr>))"

definition configure_service :: "('n, 'r) abi_env \<Rightarrow> store \<Rightarrow> runtime \<Rightarrow> (envelope \<times> int) \<times> runtime" where
  "configure_service env next_store rt =
     (let cfg = config_Snapshot next_store
      in case Reconfigure cfg (defaultHeadroomFactory (ae_closer env) cfg) (rn_service rt) of
           ((errConfigure, _), s) \<Rightarrow>
             if errConfigure \<noteq> None
             then ((Failure ''invalid_config'' ''configure token saver runtime'', CallStatusError), rt\<lparr>rn_service := s\<rparr>)
             else ((Success (RegistrationResult pluginRegistration), CallStatusOK), rt\<lparr>rn_service := s, rn_store := next_store\<rparr>))"

text \<open>A bad cold configuration registers with safe-off defaults; a bad reload is refused.\<close>

definition register :: "('n, 'r) abi_env \<Rightarrow> bytes \<Rightarrow> runtime \<Rightarrow> (envelope \<times> int) \<times> runtime" where
  "register env raw rt =
     (case decodeLifecycleRequest (ae_decode_error env) raw of
        Inl message \<Rightarrow> ((Failure ''invalid_request'' message, CallStatusError), rt)
      | Inr r \<Rightarrow> configure_service env (fst (NewStore (ae_yaml env) (ae_hash env) (lr_config_yaml r))) rt)"

definition reconfigure :: "('n, 'r) abi_env \<Rightarrow> bytes \<Rightarrow> runtime \<Rightarrow> (envelope \<times> int) \<times> runtime" where
  "reconfigure env raw rt =
     (case decodeLifecycleRequest (ae_decode_error env) raw of
        Inl message \<Rightarrow> ((Failure ''invalid_request'' message, CallStatusError), rt)
      | Inr r \<Rightarrow>
          (case NewStore (ae_yaml env) (ae_hash env) (lr_config_yaml r) of
             (next_store, errConfig) \<Rightarrow>
               if errConfig \<noteq> None then ((Failure ''invalid_config'' ''configuration is invalid'', CallStatusError), rt)
               else configure_service env next_store rt))"

definition dispatch :: "('n, 'r) abi_env \<Rightarrow> bytes \<Rightarrow> bytes \<Rightarrow> runtime \<Rightarrow> (envelope \<times> int) \<times> runtime" where
  "dispatch env method raw rt =
     (if method = MethodPluginRegister then register env raw rt
      else if method = MethodPluginReconfigure then reconfigure env raw rt
      else if method = MethodRequestNormalize then
        (case unmarshal set_request zero_request raw of
           None \<Rightarrow> ((Failure ''invalid_request'' (''decode request.normalize: '' @ ae_decode_error env raw), CallStatusError), rt)
         | Some input \<Rightarrow>
             (case service_normalize env input rt of (body, rt') \<Rightarrow> ((Success (PayloadResult body), CallStatusOK), rt')))
      else if method = MethodManagementRegister then ((Success (RoutesResult management_registration), CallStatusOK), rt)
      else if method = MethodManagementHandle then
        (case unmarshal set_management \<lparr>mq_method = [], mq_path = []\<rparr> raw of
           None \<Rightarrow> ((Failure ''invalid_request'' ''management request is invalid'', CallStatusError), rt)
         | Some input \<Rightarrow>
             (case manage env input rt of (response, rt') \<Rightarrow> ((Success (ManagementResult response), CallStatusOK), rt')))
      else if method = MethodPluginShutdown then
        ((Failure ''unsupported_method'' ''plugin.shutdown must use the native shutdown function'', CallStatusError), rt)
      else ((Failure ''unknown_method'' (''unknown method: '' @ method), CallStatusError), rt))"

subsection \<open>The gate of calls\<close>

definition call_acquire :: "runtime \<Rightarrow> (unit \<times> runtime) option" where
  "call_acquire rt = (if rn_stopped rt then None else Some ((), rt\<lparr>rn_active := rn_active rt + 1\<rparr>))"

definition call_release :: "unit \<Rightarrow> runtime \<Rightarrow> runtime" where
  "call_release u rt = rt\<lparr>rn_active := rn_active rt - 1\<rparr>"

definition shutdown_begin :: "runtime \<Rightarrow> runtime" where
  "shutdown_begin rt = rt\<lparr>rn_stopped := True\<rparr>"

text \<open>After the wait for the active calls.\<close>

definition shutdown_end :: "runtime \<Rightarrow> runtime" where
  "shutdown_end rt = rt\<lparr>rn_service := snd (Close (rn_service rt))\<rparr>"

definition Call :: "('n, 'r) abi_env \<Rightarrow> bytes \<Rightarrow> bytes \<Rightarrow> runtime \<Rightarrow> (envelope \<times> int) \<times> runtime" where
  "Call env method raw rt =
     (case call_acquire rt of
        None \<Rightarrow> ((Failure ''plugin_shutdown'' ''plugin has been shut down'', CallStatusError), rt)
      | Some (u, rt1) \<Rightarrow> (case dispatch env method raw rt1 of (reply, rt2) \<Rightarrow> (reply, call_release u rt2)))"

definition runtime_Snapshot :: "runtime \<Rightarrow> config" where
  "runtime_Snapshot rt = config_Snapshot (rn_store rt)"

definition call_users :: "runtime \<Rightarrow> unit \<Rightarrow> nat" where
  "call_users rt u = nat (rn_active rt)"

interpretation calls: admission_gate call_users "\<lambda>rt. \<not> rn_stopped rt" "\<lambda>rt. 0 \<le> rn_active rt" call_acquire call_release shutdown_begin
  by unfold_locales
    (auto simp: call_users_def call_acquire_def call_release_def shutdown_begin_def fun_eq_iff nat_add_distrib split: if_splits)

text \<open>The host is offered exactly the fields, and the levels, the parser knows.\<close>

lemma registered_fields_known:
  "map cf_name pluginConfigFields = known_fields
   \<and> set (concat (map cf_enum_values pluginConfigFields)) = set cavemanLevels \<union> set ponytailLevels"
  by (auto simp: pluginConfigFields_def plain_field_def known_fields_def cavemanLevels_def ponytailLevels_def)

subsection \<open>The store and the service agree\<close>

definition same_config :: "service \<Rightarrow> service \<Rightarrow> bool" where
  "same_config s s' \<longleftrightarrow> sv_current s' = sv_current s \<and> sv_closed s' = sv_closed s \<and> length (sv_gens s') = length (sv_gens s)
     \<and> (\<forall>j. gn_config (sv_gens s' ! j) = gn_config (sv_gens s ! j))"

lemma same_config_refl [simp]: "same_config s s"
  by (simp add: same_config_def)

lemma same_config_trans [trans]: "same_config s s1 \<Longrightarrow> same_config s1 s2 \<Longrightarrow> same_config s s2"
  by (simp add: same_config_def)

lemma same_config_metrics [simp]: "same_config s (s'\<lparr>sv_metrics := m\<rparr>) = same_config s s'"
  "same_config (s\<lparr>sv_metrics := m\<rparr>) s' = same_config s s'"
  by (simp_all add: same_config_def)

lemma same_config_upd: "(\<And>g. gn_config (f g) = gn_config g) \<Longrightarrow> same_config s (upd_gen i f s)"
  by (simp add: same_config_def upd_gen_field)

lemma closableLocked_length [simp]: "length (sv_gens (snd (closableLocked i s))) = length (sv_gens s)"
  by (simp add: closableLocked_def Let_def)

lemma same_config_release: "same_config s (snd (release i s))"
proof -
  have "same_config s (upd_gen i drop_user s)" by (rule same_config_upd) (simp add: drop_user_def)
  also have "same_config \<dots> (snd (release i s))" by (simp add: same_config_def release_def)
  finally show ?thesis .
qed

lemma same_config_acquire: "acquire s = Some (i, s') \<Longrightarrow> same_config s s'"
  by (auto simp: acquire_def Let_def split: if_splits intro!: same_config_upd)

lemma service_normalize_config:
  "service_normalize env r rt = (result, rt') \<Longrightarrow>
   same_config (rn_service rt) (rn_service rt') \<and> rn_store rt' = rn_store rt \<and> rn_stopped rt' = rn_stopped rt
     \<and> rn_active rt' = rn_active rt \<and> rn_handler rt' = rn_handler rt"
proof (cases "acquire (rn_service rt)")
  case None
  moreover assume "service_normalize env r rt = (result, rt')"
  ultimately show ?thesis by (simp add: service_normalize_def)
next
  case (Some p)
  assume n: "service_normalize env r rt = (result, rt')"
  obtain i s1 where a: "acquire (rn_service rt) = Some (i, s1)" using Some by (cases p) simp
  have "same_config (rn_service rt) s1" by (rule same_config_acquire [OF a])
  moreover have "same_config s1 (end_metric i (snd (release i (s1\<lparr>sv_metrics := m\<rparr>))))" for m
    using same_config_release [of "s1\<lparr>sv_metrics := m\<rparr>" i] by (simp add: end_metric_def)
  ultimately show ?thesis using n a
    by (auto simp: service_normalize_def Let_def case_prod_unfold intro: same_config_trans)
qed

lemma manage_config:
  "manage env q rt = (response, rt') \<Longrightarrow>
   same_config (rn_service rt) (rn_service rt') \<and> rn_store rt' = rn_store rt \<and> rn_stopped rt' = rn_stopped rt \<and> rn_active rt' = rn_active rt"
  using service_normalize_config [of env "self_test_request (config_Snapshot (rn_store rt))" rt "fst (service_normalize env (self_test_request (config_Snapshot (rn_store rt))) rt)"
      "snd (service_normalize env (self_test_request (config_Snapshot (rn_store rt))) rt)"]
  by (auto simp: manage_def split: prod.splits if_splits)

definition runtime_ok :: "runtime \<Rightarrow> bool" where
  "runtime_ok rt \<longleftrightarrow>
     config_Snapshot (rn_store rt) = gn_config (sv_gens (rn_service rt) ! sv_current (rn_service rt))
   \<and> config_ok (config_Snapshot (rn_store rt)) \<and> (sv_closed (rn_service rt) \<longrightarrow> rn_stopped rt)"

lemma runtime_ok_same:
  "runtime_ok rt \<Longrightarrow> same_config (rn_service rt) (rn_service rt') \<Longrightarrow> rn_store rt' = rn_store rt \<Longrightarrow> rn_stopped rt' = rn_stopped rt
     \<Longrightarrow> runtime_ok rt'"
  unfolding runtime_ok_def same_config_def by metis

lemma NewStore_ok: "config_ok (config_Snapshot (fst (NewStore y hash raw)))"
  using Parse_ok [of y raw] defaults_ok
  by (auto simp: NewStore_def Let_def publish_def newStoreState_def config_Snapshot_def split: sum.split)

lemma configure_service_ok:
  assumes "config_ok (config_Snapshot st)" "\<not> sv_closed (rn_service rt)" "configure_service env st rt = (reply, rt')"
  shows "reply = (Success (RegistrationResult pluginRegistration), CallStatusOK) \<and> rn_store rt' = st
    \<and> gn_config (sv_gens (rn_service rt') ! sv_current (rn_service rt')) = config_Snapshot st \<and> \<not> sv_closed (rn_service rt')
    \<and> Generation (rn_service rt') = sv_next (rn_service rt) + 1 \<and> rn_stopped rt' = rn_stopped rt \<and> rn_active rt' = rn_active rt"
proof -
  obtain err c s where r: "Reconfigure (config_Snapshot st) (defaultHeadroomFactory (ae_closer env) (config_Snapshot st)) (rn_service rt) = ((err, c), s)"
    by (metis prod.collapse)
  from Reconfigure_config_ok [OF assms(1) r] assms(2,3) r show ?thesis
    by (auto simp: configure_service_def Let_def)
qed

lemma configure_runtime_ok:
  assumes "runtime_ok rt" "\<not> rn_stopped rt" "config_ok (config_Snapshot st)" "configure_service env st rt = (reply, rt')"
  shows "runtime_ok rt'"
  using configure_service_ok [OF assms(3) _ assms(4)] assms(1,2,3) by (auto simp: runtime_ok_def)

lemma dispatch_ok:
  assumes "runtime_ok rt" "\<not> rn_stopped rt" "dispatch env method raw rt = (reply, rt')"
  shows "runtime_ok rt'"
proof -
  consider "rt' = rt"
    | st where "config_ok (config_Snapshot st)" "configure_service env st rt = (reply, rt')"
    | r where "service_normalize env r rt = (fst (service_normalize env r rt), rt')"
    | q where "manage env q rt = (fst (manage env q rt), rt')"
    using assms(3) NewStore_ok
    by (auto simp: dispatch_def register_def reconfigure_def split: if_split_asm sum.split_asm option.split_asm prod.split_asm) (metis fst_conv NewStore_ok)+
  then show ?thesis
  proof cases
    case 2
    then show ?thesis using configure_runtime_ok [OF assms(1,2)] by blast
  next
    case 3
    then show ?thesis using service_normalize_config [OF 3] runtime_ok_same [OF assms(1)] by blast
  next
    case 4
    then show ?thesis using manage_config [OF 4] runtime_ok_same [OF assms(1)] by blast
  qed (use assms(1) in simp)
qed

text \<open>Histories: calls with any observations, one after another, and shutdowns.\<close>

inductive runtime_reach :: "'n yaml \<Rightarrow> 'r gjson \<Rightarrow> runtime \<Rightarrow> bool" for y :: "'n yaml" and g :: "'r gjson" where
  runtime_new: "runtime_reach y g (NewRuntime y hash now)"
| runtime_call: "runtime_reach y g rt \<Longrightarrow> ae_yaml env = y \<Longrightarrow> ne_gjson (ae_nenv env) = g \<Longrightarrow>
     runtime_reach y g (snd (Call (env :: ('n, 'r) abi_env) method raw rt))"
| runtime_shutdown: "runtime_reach y g rt \<Longrightarrow> runtime_reach y g (shutdown_end (shutdown_begin rt))"

lemma runtime_ok_active [simp]: "runtime_ok (rt\<lparr>rn_active := n\<rparr>) = runtime_ok rt"
  by (simp add: runtime_ok_def)

lemma same_config_Close: "same_config (s\<lparr>sv_closed := True\<rparr>) (snd (Close s))"
  by (simp add: same_config_def Close_def upd_gen_field)

lemma runtime_reach_ok: "runtime_reach y g rt \<Longrightarrow> runtime_ok rt"
proof (induction rule: runtime_reach.induct)
  case (runtime_new hash now)
  have "trim_space [] = []" by code_simp
  then show ?case
    by (simp add: runtime_ok_def NewRuntime_def NewStore_def newStoreState_def config_Snapshot_def NewService_def
        new_generation_def defaults_ok Let_def)
next
  case (runtime_call rt env name data)
  show ?case
  proof (cases "rn_stopped rt")
    case True
    with runtime_call.IH show ?thesis by (simp add: Call_def call_acquire_def)
  next
    case False
    let ?rt1 = "rt\<lparr>rn_active := rn_active rt + 1\<rparr>"
    obtain reply rt2 where d: "dispatch env name data ?rt1 = (reply, rt2)" by fastforce
    have "runtime_ok rt2" by (rule dispatch_ok [OF _ _ d]) (use runtime_call.IH False in simp_all)
    then show ?thesis using False d by (simp add: Call_def call_acquire_def call_release_def)
  qed
next
  case (runtime_shutdown rt)
  then show ?case using same_config_Close [of "rn_service rt"]
    by (auto simp: runtime_ok_def shutdown_end_def shutdown_begin_def same_config_def)
qed

text \<open>What a registration answers while the runtime runs.\<close>

definition register_result :: "('n, 'r) abi_env \<Rightarrow> bytes \<Rightarrow> runtime \<Rightarrow> bool" where
  "register_result env raw rt \<longleftrightarrow>
     (case decodeLifecycleRequest (ae_decode_error env) raw of
        Inl message \<Rightarrow> Call env MethodPluginRegister raw rt = ((Failure ''invalid_request'' message, CallStatusError), rt)
      | Inr r \<Rightarrow>
          fst (Call env MethodPluginRegister raw rt) = (Success (RegistrationResult pluginRegistration), CallStatusOK)
          \<and> rn_store (snd (Call env MethodPluginRegister raw rt)) = fst (NewStore (ae_yaml env) (ae_hash env) (lr_config_yaml r))
          \<and> Generation (rn_service (snd (Call env MethodPluginRegister raw rt))) = sv_next (rn_service rt) + 1)"

definition reconfigure_result :: "('n, 'r) abi_env \<Rightarrow> bytes \<Rightarrow> runtime \<Rightarrow> bool" where
  "reconfigure_result env raw rt \<longleftrightarrow>
     snd (fst (Call env MethodPluginReconfigure raw rt)) = CallStatusOK
     \<or> snd (fst (Call env MethodPluginReconfigure raw rt)) = CallStatusError \<and> snd (Call env MethodPluginReconfigure raw rt) = rt"

lemma register_outcome:
  assumes "runtime_ok rt" "\<not> rn_stopped rt"
  shows "register_result env raw rt"
proof (cases "decodeLifecycleRequest (ae_decode_error env) raw")
  case (Inl message)
  then show ?thesis using assms(2)
    by (cases rt) (simp add: register_result_def Call_def call_acquire_def call_release_def dispatch_def register_def)
next
  case (Inr r)
  let ?st = "fst (NewStore (ae_yaml env) (ae_hash env) (lr_config_yaml r))" and ?rt1 = "rt\<lparr>rn_active := rn_active rt + 1\<rparr>"
  obtain reply rt2 where c: "configure_service env ?st ?rt1 = (reply, rt2)" by fastforce
  have "\<not> sv_closed (rn_service ?rt1)" using assms by (auto simp: runtime_ok_def)
  from configure_service_ok [OF NewStore_ok this c] show ?thesis using assms(2) Inr c
    by (simp add: register_result_def Call_def call_acquire_def call_release_def dispatch_def register_def)
qed

lemma reconfigure_outcome:
  assumes "runtime_ok rt" "\<not> rn_stopped rt"
  shows "reconfigure_result env raw rt"
proof -
  let ?rt1 = "rt\<lparr>rn_active := rn_active rt + 1\<rparr>"
  have m: "dispatch env MethodPluginReconfigure raw ?rt1 = reconfigure env raw ?rt1"
    by (simp add: dispatch_def MethodPluginReconfigure_def MethodPluginRegister_def)
  have same: "call_release () ?rt1 = rt" by (cases rt) (simp add: call_release_def)
  show ?thesis
  proof (cases "decodeLifecycleRequest (ae_decode_error env) raw")
    case (Inl message)
    then show ?thesis using assms(2) m same
      by (simp add: reconfigure_result_def Call_def call_acquire_def reconfigure_def)
  next
    case (Inr r)
    obtain st e where s: "NewStore (ae_yaml env) (ae_hash env) (lr_config_yaml r) = (st, e)" by fastforce
    show ?thesis
    proof (cases e)
      case None
      obtain reply rt2 where c: "configure_service env st ?rt1 = (reply, rt2)" by fastforce
      have "config_ok (config_Snapshot st)" using NewStore_ok [of "ae_yaml env" "ae_hash env" "lr_config_yaml r"] s by simp
      moreover have "\<not> sv_closed (rn_service ?rt1)" using assms by (auto simp: runtime_ok_def)
      ultimately have "reply = (Success (RegistrationResult pluginRegistration), CallStatusOK)"
        using configure_service_ok [OF _ _ c] by blast
      then show ?thesis using assms(2) m c None Inr s
        by (simp add: reconfigure_result_def Call_def call_acquire_def reconfigure_def)
    next
      case (Some err)
      then show ?thesis using assms(2) m same Inr s
        by (simp add: reconfigure_result_def Call_def call_acquire_def reconfigure_def)
    qed
  qed
qed

subsection \<open>Properties\<close>

text \<open>
  C4. Over every history of calls and shutdowns the configuration the runtime publishes is the one its
  service runs, and it is always safe to run.  While the runtime is not stopped, a registration that decodes always
  succeeds, with safe-off defaults if its configuration is bad, as a new generation; and a reconfiguration
  either succeeds or changes nothing.
\<close>
theorem runtime_config_agrees:
  assumes "runtime_reach y g rt"
  shows "runtime_Snapshot rt = gn_config (sv_gens (rn_service rt) ! sv_current (rn_service rt))
     \<and> config_ok (runtime_Snapshot rt)
     \<and> (rn_stopped rt \<or> register_result env raw rt \<and> reconfigure_result env raw rt)"
proof (intro conjI)
  have ok: "runtime_ok rt" by (rule runtime_reach_ok [OF assms])
  show "runtime_Snapshot rt = gn_config (sv_gens (rn_service rt) ! sv_current (rn_service rt))" "config_ok (runtime_Snapshot rt)"
    using ok by (auto simp: runtime_ok_def runtime_Snapshot_def)
  show "rn_stopped rt \<or> register_result env raw rt \<and> reconfigure_result env raw rt"
    using register_outcome [OF ok] reconfigure_outcome [OF ok] by blast
qed

definition demo_yaml :: "unit yaml" where
  "demo_yaml = \<lparr>ym_first = (\<lambda>_. YamlError), ym_second = (\<lambda>_. YamlEOF), ym_kind = (\<lambda>_. OtherNode), ym_tag = (\<lambda>_. []),
     ym_value = (\<lambda>_. []), ym_content = (\<lambda>_. []), ym_int = (\<lambda>_. None)\<rparr>"

definition demo_abi_env :: "(unit, demo_result) abi_env" where
  "demo_abi_env = \<lparr>ae_yaml = demo_yaml, ae_nenv = demo_nenv, ae_options = default_options demo_gjson id,
     ae_runner = (\<lambda>i body r. RunnerPanics), ae_closer = 0, ae_decode_error = (\<lambda>raw. ''invalid''), ae_probe = None,
     ae_snapshot = None, ae_routes = [], ae_now = 0, ae_after = 0,
     ae_check = (\<lambda>u d. \<lparr>cr_reachable = False, cr_outcome = OutcomeNetwork, cr_latency = 0\<rparr>)\<rparr>"

text \<open>A registration whose configuration does not parse: the answer is a success and the defaults run.\<close>

definition demo_register :: bytes where
  "demo_register = ''{'' @ json_string ''config_yaml'' @ '':'' @ json_string ''Og=='' @ ''}''"

theorem runtime_config_agrees_witness:
  "fst (Call demo_abi_env MethodPluginRegister demo_register (NewRuntime demo_yaml id 0)) =
     (Success (RegistrationResult pluginRegistration), CallStatusOK)
   \<and> runtime_Snapshot (NewRuntime demo_yaml id 0) = Defaults"
proof -
  have r: "runtime_reach demo_yaml demo_gjson (NewRuntime demo_yaml id 0)" by (rule runtime_new)
  have "\<not> rn_stopped (NewRuntime demo_yaml id 0)" by (simp add: NewRuntime_def)
  moreover have "decodeLifecycleRequest (ae_decode_error demo_abi_env) demo_register
      = Inr \<lparr>lr_config_yaml = '':'', lr_schema_version = 0\<rparr>" by code_simp
  moreover have "gn_config (sv_gens (rn_service (NewRuntime demo_yaml id 0)) ! sv_current (rn_service (NewRuntime demo_yaml id 0))) = Defaults"
    by (simp add: NewRuntime_def NewService_def new_generation_def)
  ultimately show ?thesis
    using runtime_config_agrees [OF r, of demo_abi_env demo_register] by (auto simp: register_result_def)
qed


subsection \<open>A response that does not fit\<close>

definition b64_safe :: "char \<Rightarrow> bool" where
  "b64_safe c \<longleftrightarrow> List.member b64_alphabet c \<or> c = CHR ''=''"

lemma b64_char_safe: "n < 64 \<Longrightarrow> b64_safe (b64_char n)"
proof -
  have all: "list_all (\<lambda>n. b64_safe (b64_char n)) [0..<64]" by code_simp
  assume "n < 64"
  then show ?thesis using all by (auto simp: list_all_iff)
qed

lemma base64_safe: "list_all b64_safe (base64 s)"
  by (induction s rule: base64.induct) (simp_all add: b64_char_safe b64_parts, simp_all add: b64_safe_def)

lemma b64_safe_plain: "b64_safe c \<Longrightarrow> c < CHR 0x80 \<and> esc_ascii html c = [c]"
proof -
  have all: "list_all (\<lambda>c. c < CHR 0x80 \<and> esc_ascii True c = [c] \<and> esc_ascii False c = [c]) (CHR ''='' # b64_alphabet)" by code_simp
  assume "b64_safe c"
  then have "c \<in> set (CHR ''='' # b64_alphabet)" by (auto simp: b64_safe_def)
  with all show ?thesis by (cases html) (auto simp: list_all_iff)
qed

lemma json_esc_safe: "list_all b64_safe s \<Longrightarrow> json_esc html s = s"
  by (induction s) (auto simp: b64_safe_plain)

lemma to_valid_plain: "list_all b64_safe s \<Longrightarrow> to_valid s = s"
  by (induction s) (auto simp: b64_safe_plain)

lemma pstring_base64: "pstring (base64 s @ quote # r) = Some (base64 s, r)"
  using pstring_json_esc [of True "base64 s" r] json_esc_safe [OF base64_safe] to_valid_plain [OF base64_safe] by simp

text \<open>The smallest request with a body.\<close>

definition body_request :: "bytes \<Rightarrow> bytes" where
  "body_request body = ''{'' @ json_key ''Body'' @ quote # base64 body @ [quote, CHR ''}'']"

lemma body_request_parse: "json_parse (body_request body) = Some (JObj [(''Body'', JStr (base64 body))])"
proof -
  let ?s = "body_request body"
  let ?rest = "quote # base64 body @ [quote, CHR ''}'']"
  have s: "?s = CHR ''{'' # quote # ''Body'' @ quote # CHR '':'' # ?rest" by (simp add: body_request_def json_key_def)
  have key: "pstring (''Body'' @ quote # CHR '':'' # ?rest) = Some (''Body'', CHR '':'' # ?rest)"
  proof -
    have "json_esc True ''Body'' = ''Body''" "to_valid ''Body'' = ''Body''" by code_simp+
    then show ?thesis using pstring_json_esc [of True "''Body''" "CHR '':'' # ?rest"] by simp
  qed
  have ws: "skip_ws (quote # t) = quote # t" "skip_ws (CHR '':'' # t) = CHR '':'' # t" "skip_ws (CHR ''{'' # t) = CHR ''{'' # t"
    "skip_ws (CHR ''}'' # t) = CHR ''}'' # t" "skip_ws [] = []" for t
    by (simp_all add: skip_ws_def is_ws_def quote_def)
  have q: "quote \<noteq> CHR ''[''" "quote \<noteq> CHR ''{''" "quote \<noteq> CHR ''}''" "CHR ''}'' \<noteq> quote" by (simp_all add: quote_def)
  obtain n where n: "2 * length ?s + 1 = Suc (Suc (Suc n))" by (simp add: s)
  have v: "pvalue (Suc n) 1 ?rest = Some (JStr (base64 body), [CHR ''}''])"
    using pstring_base64 [of body "[CHR ''}'']"] q by simp
  have m: "pmembers (Suc (Suc n)) 1 (quote # ''Body'' @ quote # CHR '':'' # ?rest) = Some ([(''Body'', JStr (base64 body))], [])"
    unfolding pmembers.simps using key v by (simp only: has_prefix.simps drop_Suc_Cons drop_0 One_nat_def option.case prod.case ws refl if_True list.case) simp
  have "pvalue (Suc (Suc (Suc n))) 0 ?s = Some (JObj [(''Body'', JStr (base64 body))], [])"
    unfolding s pvalue.simps using m q by (simp only: list.case ws One_nat_def) (simp add: max_depth_def)
  moreover have "skip_ws ?s = ?s" unfolding s by (rule ws)
  ultimately show ?thesis unfolding json_parse_def n by (simp add: ws)
qed

lemma body_request_length: "length (body_request body) = 4 * ((length body + 2) div 3) + 11"
  by (simp add: body_request_def json_key_def base64_length)

lemma payload_bytes_length: "length (payload_bytes body) = (if body = [] then 34 else 4 * ((length body + 2) div 3) + 32)"
  by (simp add: payload_bytes_def json_key_def base64_length)

lemma body_request_decodes: "unmarshal set_request zero_request (body_request body) = Some (zero_request\<lparr>rq_body := body\<rparr>)"
proof -
  have "names_field ''Body'' ''Body'' \<and> \<not> names_field ''FromFormat'' ''Body'' \<and> \<not> names_field ''ToFormat'' ''Body''
      \<and> \<not> names_field ''Model'' ''Body'' \<and> \<not> names_field ''Stream'' ''Body''" by code_simp
  then show ?thesis
    by (simp add: unmarshal_def dec_object_def body_request_parse set_request_def dec_bytes_def b64_decode_base64)
qed


end
