(* ===== verification/GoJsonRoundtrip.thy ===== *)
theory GoJsonRoundtrip
  imports GoJson
begin

text \<open>
  \<open>encoding/json\<close> decodes what it encodes: for a value with well-formed strings, number literals and at
  most 10000 levels the decoder returns the value the encoder was given.
\<close>

subsection \<open>Values that survive\<close>

definition good_number :: "bytes \<Rightarrow> bool" where
  "good_number n = (pnumber n = Some (n, []))"

text \<open>\<open>good_json v d\<close>: the value may stand at depth \<open>d\<close>.\<close>

primrec good_json :: "json \<Rightarrow> nat \<Rightarrow> bool" where
  "good_json JNull d = True"
| "good_json (JBool b) d = True"
| "good_json (JNum n) d = good_number n"
| "good_json (JStr t) d = valid_utf8 t"
| "good_json (JArr vs) d = (d < max_depth \<and> list_all (\<lambda>p. p (Suc d)) (map good_json vs))"
| "good_json (JObj ms) d =
     (d < max_depth \<and> list_all (\<lambda>(k, p). valid_utf8 k \<and> p (Suc d)) (map (map_prod id good_json) ms))"

text \<open>What can follow a value inside an encoded text.\<close>

definition delimited :: "bytes \<Rightarrow> bool" where
  "delimited r \<longleftrightarrow> r = [] \<or> hd r = CHR '','' \<or> hd r = CHR '']'' \<or> hd r = CHR ''}''"

lemma delimited_simps [simp]:
  "delimited []" "delimited (CHR '','' # r)" "delimited (CHR '']'' # r)" "delimited (CHR ''}'' # r)"
  by (simp_all add: delimited_def)

subsection \<open>Numbers\<close>

lemma digits_delimited:
  "delimited r \<Longrightarrow> takeWhile is_digit (s @ r) = takeWhile is_digit s"
  "delimited r \<Longrightarrow> dropWhile is_digit (s @ r) = dropWhile is_digit s @ r"
proof -
  assume "delimited r"
  then have "takeWhile is_digit r = []" "dropWhile is_digit r = r"
    by (cases r; auto simp: delimited_def is_digit_def)+
  then show "takeWhile is_digit (s @ r) = takeWhile is_digit s" "dropWhile is_digit (s @ r) = dropWhile is_digit s @ r"
    by (induction s) auto
qed

lemma prefix1_delimited: "delimited r \<Longrightarrow> c \<noteq> CHR '','' \<Longrightarrow> c \<noteq> CHR '']'' \<Longrightarrow> c \<noteq> CHR ''}'' \<Longrightarrow> has_prefix [c] (s @ r) = has_prefix [c] s"
  by (cases s; cases r) (auto simp: delimited_def)

lemma pexp_delimited:
  assumes "pexp acc s = Some (n, t)" "delimited r"
  shows "pexp acc (s @ r) = Some (n, t @ r)"
proof (cases s)
  case Nil
  with assms show ?thesis by (cases r) (auto simp: pexp_def delimited_def)
next
  case (Cons e u)
  show ?thesis
  proof (cases "e = CHR ''e'' \<or> e = CHR ''E''")
    case True
    have sign: "has_prefix ''+'' (u @ r) = has_prefix ''+'' u" "has_prefix ''-'' (u @ r) = has_prefix ''-'' u"
      using prefix1_delimited [OF assms(2)] by simp_all
    show ?thesis
    proof (cases "has_prefix ''+'' u \<or> has_prefix ''-'' u")
      case signed: True
      then obtain a u' where "u = a # u'" by (cases u) auto
      with signed show ?thesis
        using assms(1) True by (auto simp: Cons pexp_def Let_def digits_delimited [OF assms(2)] split: if_splits)
    next
      case False
      then show ?thesis
        using assms(1) True sign by (auto simp: Cons pexp_def Let_def digits_delimited [OF assms(2)] split: if_splits)
    qed
  qed (use assms(1) Cons in \<open>auto simp: pexp_def\<close>)
qed

lemma pfrac_delimited:
  assumes "pfrac acc s = Some (n, t)" "delimited r"
  shows "pfrac acc (s @ r) = Some (n, t @ r)"
proof -
  have dot: "has_prefix ''.'' (s @ r) = has_prefix ''.'' s" by (rule prefix1_delimited [OF assms(2)]) simp_all
  show ?thesis
  proof (cases "has_prefix ''.'' s")
    case True
    then obtain u where u: "s = CHR ''.'' # u" by (cases s) auto
    with assms show ?thesis
      by (auto simp: pfrac_def Let_def digits_delimited [OF assms(2)] pexp_delimited split: if_splits)
  qed (use assms dot in \<open>auto simp: pfrac_def pexp_delimited\<close>)
qed

lemma pnumber_delimited:
  assumes "pnumber s = Some (n, t)" "delimited r"
  shows "pnumber (s @ r) = Some (n, t @ r)"
proof -
  have sign: "has_prefix ''-'' (s @ r) = has_prefix ''-'' s" by (rule prefix1_delimited [OF assms(2)]) simp_all
  let ?sign = "if has_prefix ''-'' s then ''-'' else []"
  obtain c u where u: "drop (length ?sign) s = c # u"
    using assms(1) by (auto simp: pnumber_def Let_def split: list.splits)
  then have a: "drop (length ?sign) (s @ r) = c # u @ r" by (cases s) (auto split: if_splits)
  show ?thesis
    using assms(1) unfolding pnumber_def Let_def sign a u
    by (auto simp: digits_delimited [OF assms(2)] intro: pfrac_delimited [OF _ assms(2)] split: if_splits)
qed

lemma good_number_head:
  assumes "good_number n"
  shows "\<exists>c t. n = c # t \<and> (is_digit c \<or> c = CHR ''-'')"
  using assms by (cases n) (auto simp: good_number_def pnumber_def Let_def is_digit_def less_eq_char_def split: if_splits)

subsection \<open>Values\<close>

lemma json_marshal_head:
  assumes "good_json v d"
  shows "\<exists>c t. json_marshal v = c # t \<and> \<not> is_ws c \<and> c \<noteq> CHR '']''"
proof (cases v)
  case (JNum n)
  with assms obtain c t where "n = c # t" "is_digit c \<or> c = CHR ''-''" using good_number_head by force
  moreover from this have "\<not> is_ws c" "c \<noteq> CHR '']''" by (auto simp: is_ws_def is_digit_def less_eq_char_def)
  ultimately show ?thesis using JNum by simp
qed (auto simp: json_string_def json_quote_def quote_def is_ws_def)

lemma skip_ws_marshal: "good_json v d \<Longrightarrow> skip_ws (json_marshal v @ r) = json_marshal v @ r"
  using json_marshal_head [of v d] by (auto simp: skip_ws_def)

lemma skip_ws_plain: "\<not> is_ws c \<Longrightarrow> skip_ws (c # s) = c # s"
  by (simp add: skip_ws_def)

lemma skip_ws_string: "skip_ws (json_string k @ r) = json_string k @ r"
  by (simp add: skip_ws_def json_string_def json_quote_def quote_def is_ws_def)

lemma pstring_json_string: "pstring (drop 1 (json_string k @ r)) = Some (to_valid k, r)"
  using pstring_json_esc [of True k r] by (simp add: json_string_def json_quote_def)

definition member_text :: "bytes \<times> json \<Rightarrow> bytes" where
  "member_text m = json_string (fst m) @ '':'' @ json_marshal (snd m)"

lemma json_marshal_obj: "json_marshal (JObj ms) = ''{'' @ join '','' (map member_text ms) @ ''}''"
  by (simp add: member_text_def [abs_def] comp_def case_prod_unfold map_prod_def)

text \<open>A value reads back, at any depth it may stand at and before any delimiter.\<close>

definition reads_back :: "json \<Rightarrow> bool" where
  "reads_back v \<longleftrightarrow> (\<forall>d r n. good_json v d \<longrightarrow> delimited r \<longrightarrow> 2 * length (json_marshal v @ r) < n \<longrightarrow>
     pvalue n d (json_marshal v @ r) = Some (v, r))"

lemma pelems_reads_back:
  "vs \<noteq> [] \<Longrightarrow> \<forall>v\<in>set vs. reads_back v \<and> good_json v d \<Longrightarrow>
   Suc (2 * length (join '','' (map json_marshal vs) @ '']'' @ r)) < n \<Longrightarrow>
   pelems n d (join '','' (map json_marshal vs) @ '']'' @ r) = Some (vs, r)"
proof (induction vs arbitrary: n rule: list_nonempty_induct)
  case (single v)
  then obtain k where n: "n = Suc k" by (cases n) auto
  have "pvalue k d (json_marshal v @ CHR '']'' # r) = Some (v, CHR '']'' # r)"
    using single n by (auto simp: reads_back_def)
  with n show ?case by (simp add: skip_ws_plain is_ws_def)
next
  case (cons v vs)
  then obtain k where n: "n = Suc k" by (cases n) auto
  let ?rest = "join '','' (map json_marshal vs) @ '']'' @ r"
  have j: "join '','' (map json_marshal (v # vs)) @ '']'' @ r = json_marshal v @ CHR '','' # ?rest"
    using cons.hyps by (cases vs) simp_all
  have "pvalue k d (json_marshal v @ CHR '','' # ?rest) = Some (v, CHR '','' # ?rest)"
    using cons.prems n unfolding j by (auto simp: reads_back_def)
  moreover have "skip_ws ?rest = ?rest"
    using cons.hyps cons.prems(1) skip_ws_marshal by (cases vs; cases "tl vs") auto
  moreover have "pelems k d ?rest = Some (vs, r)"
    using cons.IH [of k] cons.prems n unfolding j by auto
  ultimately show ?case unfolding j n by (simp add: skip_ws_plain is_ws_def)
qed

lemma pmembers_reads_back:
  "ms \<noteq> [] \<Longrightarrow> \<forall>m\<in>set ms. valid_utf8 (fst m) \<and> reads_back (snd m) \<and> good_json (snd m) d \<Longrightarrow>
   Suc (2 * length (join '','' (map member_text ms) @ ''}'' @ r)) < n \<Longrightarrow>
   pmembers n d (join '','' (map member_text ms) @ ''}'' @ r) = Some (ms, r)"
proof (induction ms arbitrary: n rule: list_nonempty_induct)
  case (single m)
  then obtain k where n: "n = Suc k" by (cases n) auto
  let ?t = "json_marshal (snd m) @ CHR ''}'' # r"
  have v: "pvalue k d ?t = Some (snd m, CHR ''}'' # r)"
    using single n by (auto simp: reads_back_def member_text_def)
  have s: "skip_ws ?t = ?t" using single.prems skip_ws_marshal by auto
  have k: "has_prefix [quote] (json_string (fst m) @ CHR '':'' # ?t)" by (simp add: json_string_def json_quote_def)
  show ?case
    using v s k single.prems(1) unfolding n
    by (simp add: member_text_def pstring_json_string [unfolded One_nat_def] skip_ws_plain is_ws_def valid_utf8_def del: drop_append)
next
  case (cons m ms)
  then obtain k where n: "n = Suc k" by (cases n) auto
  let ?rest = "join '','' (map member_text ms) @ ''}'' @ r"
  let ?t = "json_marshal (snd m) @ CHR '','' # ?rest"
  have j: "join '','' (map member_text (m # ms)) @ ''}'' @ r = json_string (fst m) @ CHR '':'' # ?t"
    using cons.hyps by (cases ms) (simp_all add: member_text_def)
  have v: "pvalue k d ?t = Some (snd m, CHR '','' # ?rest)"
    using cons.prems n unfolding j by (auto simp: reads_back_def)
  have s: "skip_ws ?t = ?t" "skip_ws ?rest = ?rest"
    using cons.prems skip_ws_marshal cons.hyps by (cases ms; cases "tl ms"; auto simp: member_text_def skip_ws_string)+
  have k: "has_prefix [quote] (json_string (fst m) @ CHR '':'' # ?t)" by (simp add: json_string_def json_quote_def)
  have i: "pmembers k d ?rest = Some (ms, r)"
    using cons.IH [of k] cons.prems n unfolding j by auto
  show ?case
    using v s k i cons.prems(1) unfolding j n
    by (simp add: pstring_json_string [unfolded One_nat_def] skip_ws_plain is_ws_def valid_utf8_def del: drop_append)
qed

lemma json_reads_back: "reads_back v"
proof (induction v)
  case (JNum n)
  show ?case
  proof (unfold reads_back_def, intro allI impI)
    fix d r k assume good: "good_json (JNum n) d" and r: "delimited r" and k: "2 * length (json_marshal (JNum n) @ r) < k"
    from good obtain c t where n: "n = c # t" "is_digit c \<or> c = CHR ''-''" using good_number_head by force
    have c: "c \<noteq> CHR ''[''" "c \<noteq> CHR ''{''" "c \<noteq> quote" "c \<noteq> CHR ''n''" "c \<noteq> CHR ''t''" "c \<noteq> CHR ''f''"
      using n(2) by (auto simp: is_digit_def less_eq_char_def quote_def)
    have "pnumber (n @ r) = Some (n, r)" using good pnumber_delimited [of n n "[]" r] r by (simp add: good_number_def)
    then show "pvalue k d (json_marshal (JNum n) @ r) = Some (JNum n, r)"
      using c k by (cases k) (simp_all add: n(1) pliteral_def)
  qed
next
  case (JStr t)
  show ?case
  proof (unfold reads_back_def, intro allI impI)
    fix d r k assume good: "good_json (JStr t) d" and k: "2 * length (json_marshal (JStr t) @ r) < k"
    show "pvalue k d (json_marshal (JStr t) @ r) = Some (JStr t, r)"
      using good k pstring_json_esc [of True t r] by (cases k) (simp_all add: json_string_def json_quote_def quote_def valid_utf8_def)
  qed
next
  case (JArr vs)
  show ?case
  proof (unfold reads_back_def, intro allI impI)
    fix d r k assume good: "good_json (JArr vs) d" and r: "delimited r" and k: "2 * length (json_marshal (JArr vs) @ r) < k"
    then obtain n where n: "k = Suc n" by (cases k) auto
    let ?t = "join '','' (map json_marshal vs) @ '']'' @ r"
    show "pvalue k d (json_marshal (JArr vs) @ r) = Some (JArr vs, r)"
    proof (cases "vs = []")
      case True
      with good n show ?thesis by (simp add: skip_ws_plain is_ws_def)
    next
      case False
      then obtain v vs' where vs: "vs = v # vs'" by (cases vs) auto
      have g: "good_json v (Suc d)" using good by (simp add: vs)
      obtain u where u: "?t = json_marshal v @ u" by (cases vs') (auto simp: vs)
      have "skip_ws ?t = ?t" unfolding u by (rule skip_ws_marshal [OF g])
      moreover obtain c w where "?t = c # w" "c \<noteq> CHR '']''" using json_marshal_head [OF g] u by auto
      moreover have "pelems n (Suc d) ?t = Some (vs, r)"
        using JArr.IH good False k n by (intro pelems_reads_back) (auto simp: list_all_iff)
      ultimately show ?thesis using good n by simp
    qed
  qed
next
  case (JObj ms)
  show ?case
  proof (unfold reads_back_def, intro allI impI)
    fix d r k assume good: "good_json (JObj ms) d" and r: "delimited r" and k: "2 * length (json_marshal (JObj ms) @ r) < k"
    then obtain n where n: "k = Suc n" by (cases k) auto
    let ?t = "join '','' (map member_text ms) @ ''}'' @ r"
    have t: "json_marshal (JObj ms) @ r = CHR ''{'' # ?t" by (simp only: json_marshal_obj) simp
    have gs: "\<forall>m\<in>set ms. valid_utf8 (fst m) \<and> reads_back (snd m) \<and> good_json (snd m) (Suc d)"
    proof
      fix m assume m: "m \<in> set ms"
      then have "reads_back (snd m)" using JObj.IH [of m "snd m"] by (cases m) (auto simp: snds.simps)
      with good m show "valid_utf8 (fst m) \<and> reads_back (snd m) \<and> good_json (snd m) (Suc d)"
        by (cases m) (fastforce simp: list_all_iff)
    qed
    show "pvalue k d (json_marshal (JObj ms) @ r) = Some (JObj ms, r)"
    proof (cases "ms = []")
      case True
      with good n show ?thesis by (simp add: skip_ws_plain is_ws_def)
    next
      case False
      then obtain m ms' where ms: "ms = m # ms'" by (cases ms) auto
      obtain u where u: "?t = json_string (fst m) @ u" by (cases ms') (auto simp: ms member_text_def)
      have "skip_ws ?t = ?t" unfolding u by (rule skip_ws_string)
      moreover obtain c w where "?t = c # w" "c \<noteq> CHR ''}''" unfolding u by (auto simp: json_string_def json_quote_def quote_def)
      moreover have "pmembers n (Suc d) ?t = Some (ms, r)"
        using k n unfolding t by (intro pmembers_reads_back [OF False gs]) auto
      ultimately show ?thesis unfolding t n using good by simp
    qed
  qed
next
  case (JBool b)
  have "pvalue k d (json_marshal (JBool b) @ r) = Some (JBool b, r)" if "0 < k" for k d r
    using that by (cases k; cases b) (simp_all add: pliteral_def quote_def)
  then show ?case by (auto simp: reads_back_def)
next
  case JNull
  have "pvalue k d (json_marshal JNull @ r) = Some (JNull, r)" if "0 < k" for k d r
    using that by (cases k) (simp_all add: pliteral_def quote_def)
  then show ?case by (auto simp: reads_back_def)
qed

text \<open>Decoding what was encoded.\<close>

theorem json_parse_marshal:
  assumes "good_json v 0"
  shows "json_parse (json_marshal v) = Some v"
proof -
  have "pvalue (2 * length (json_marshal v) + 1) 0 (json_marshal v @ []) = Some (v, [])"
    by (rule json_reads_back [of v, unfolded reads_back_def, rule_format]) (use assms in simp_all)
  moreover have "skip_ws (json_marshal v) = json_marshal v" using skip_ws_marshal [OF assms, of "[]"] by simp
  ultimately show ?thesis by (simp add: json_parse_def skip_ws_def del: pvalue.simps)
qed

end
