(* ===== verification/Wire.thy ===== *)
theory Wire
  imports Abi GoJsonRoundtrip
begin

text \<open>
  The bytes that leave the plugin: the JSON of \<open>internal/management/dto.go\<close> and \<open>internal/metrics/metrics.go\<close>
  with its words and names, and the envelopes of \<open>internal/abi/envelope.go\<close>.  The format of a time and the
  embedded page are arguments; a time the format refuses (a year of five digits) does not occur.
\<close>

subsection \<open>The words\<close>

fun config_text :: "config_word \<Rightarrow> bytes" where
  "config_text ConfigValid = ''valid''"
| "config_text ConfigError = ''config_error''"

fun pipeline_text :: "pipeline_word \<Rightarrow> bytes" where
  "pipeline_text PipelineAllBypassed = ''all_bypassed''"
| "pipeline_text PipelineActive = ''active''"

fun dependency_text :: "dependency_word \<Rightarrow> bytes" where
  "dependency_text DependencyDisabled = ''disabled''"
| "dependency_text DependencyReady = ''ready''"
| "dependency_text DependencyDegraded = ''degraded''"

fun circuit_text :: "circuit_word \<Rightarrow> bytes" where
  "circuit_text HeadroomCircuitDisabled = ''disabled''"
| "circuit_text HeadroomCircuitClosed = ''closed''"
| "circuit_text HeadroomCircuitOpen = ''open''"
| "circuit_text HeadroomCircuitHalfOpen = ''half_open''"

fun self_test_text :: "self_test_word \<Rightarrow> bytes" where
  "self_test_text SelfTestNever = ''never''"
| "self_test_text SelfTestPassed = ''passed''"
| "self_test_text SelfTestFailed = ''failed''"

fun status_text :: "status_word \<Rightarrow> bytes" where
  "status_text HeadroomStatusDisabled = ''disabled''"
| "status_text HeadroomStatusUnknown = ''unknown''"
| "status_text HeadroomStatusReady = ''ready''"
| "status_text HeadroomStatusDegraded = ''degraded''"

fun error_text :: "error_code \<Rightarrow> bytes" where
  "error_text ErrorRouteNotFound = ''route_not_found''"
| "error_text ErrorMethodNotAllowed = ''method_not_allowed''"
| "error_text ErrorConfigInvalid = ''config_invalid''"
| "error_text ErrorRateLimited = ''rate_limited''"
| "error_text ErrorConfigChanged = ''config_changed''"
| "error_text ErrorUnavailable = ''runtime_unavailable''"
| "error_text ErrorSelfTestFailed = ''self_test_failed''"
| "error_text ErrorInternal = ''internal_error''"

subsection \<open>The bodies of management responses\<close>

definition word_json :: "'w::len word \<Rightarrow> json" where
  "word_json w = JNum (show_nat (unat w))"

definition stage_json :: "stage_snapshot \<Rightarrow> json" where
  "stage_json s = JObj
     [(''executed'', word_json (ss_executed s)), (''bypassed'', word_json (ss_bypassed s)), (''fail_open'', word_json (ss_fail_open s)),
      (''timeout'', word_json (ss_timeout s)), (''saturated'', word_json (ss_saturated s)), (''input_bytes'', word_json (ss_input s)),
      (''output_bytes'', word_json (ss_output s)), (''duration_ns'', word_json (ss_duration s))]"

definition stages_json :: "stage_projection \<Rightarrow> json" where
  "stages_json p = JObj
     [(''pipeline'', stage_json (sp_pipeline p)), (''rtk'', stage_json (sp_rtk p)), (''headroom'', stage_json (sp_headroom p)),
      (''caveman'', stage_json (sp_caveman p)), (''ponytail'', stage_json (sp_ponytail p))]"

definition generation_json :: "generation_snapshot \<Rightarrow> json" where
  "generation_json g = JObj [(''generation'', word_json (gs_generation g)), (''in_flight'', word_json (gs_in_flight g))]"

definition status_json :: "(gotime \<Rightarrow> bytes) \<Rightarrow> status_dto \<Rightarrow> json" where
  "status_json fmt s = JObj
     [(''build_version'', JStr (sd_build_version s)), (''abi_version'', word_json (sd_abi_version s)),
      (''rpc_schema'', word_json (sd_rpc_schema s)), (''fixture_revision'', JStr (sd_fixture_revision s)),
      (''started_at'', JStr (fmt (sd_started_at s))), (''live'', JBool (sd_live s)), (''config'', JStr (config_text (sd_config s))),
      (''config_generation'', word_json (sd_config_generation s)), (''config_digest'', JStr (sd_config_digest s)),
      (''pipeline'', JStr (pipeline_text (sd_pipeline s))), (''dependency'', JStr (dependency_text (sd_dependency s))),
      (''headroom_desired'', JBool (sd_headroom_desired s)), (''headroom_effective'', JBool (sd_headroom_effective s)),
      (''headroom_circuit'', JStr (circuit_text (sd_headroom_circuit s))), (''current'', generation_json (sd_current s)),
      (''previous'', generation_json (sd_previous s)),
      (''last_self_test_at'', case sd_last_self_test_at s of None \<Rightarrow> JNull | Some at \<Rightarrow> JStr (fmt at)),
      (''last_self_test_result'', JStr (self_test_text (sd_last_self_test s))), (''metrics'', stages_json (sd_metrics s))]"

definition self_test_json :: "(gotime \<Rightarrow> bytes) \<Rightarrow> gotime \<Rightarrow> self_test_word \<Rightarrow> json" where
  "self_test_json fmt at w =
     JObj [(''fixture_revision'', JStr FixtureRevision), (''tested_at'', JStr (fmt at)), (''result'', JStr (self_test_text w))]"

definition dashboard_stage_json :: "dashboard_stage \<Rightarrow> json" where
  "dashboard_stage_json s = JObj
     [(''executed'', word_json (ds_executed s)), (''bypassed'', word_json (ds_bypassed s)), (''fail_open'', word_json (ds_fail_open s)),
      (''timeout'', word_json (ds_timeout s)), (''saturated'', word_json (ds_saturated s)), (''input_bytes'', word_json (ds_input_bytes s)),
      (''output_bytes'', word_json (ds_output_bytes s)), (''saved_bytes'', word_json (ds_saved_bytes s)),
      (''duration_ns'', word_json (ds_duration_nano s))]"

definition dashboard_stages_json :: "dashboard_dto \<Rightarrow> json" where
  "dashboard_stages_json d = JObj
     [(''rtk'', dashboard_stage_json (dd_rtk d)), (''headroom'', dashboard_stage_json (dd_headroom_stage d)),
      (''caveman'', dashboard_stage_json (dd_caveman d)), (''ponytail'', dashboard_stage_json (dd_ponytail d))]"

definition outcome_json :: "outcome_projection \<Rightarrow> json" where
  "outcome_json c = JObj
     [(''executed'', word_json (op_executed c)), (''bypassed'', word_json (op_bypassed c)), (''fail_open'', word_json (op_fail_open c)),
      (''timeout'', word_json (op_timeout c)), (''saturated'', word_json (op_saturated c))]"

definition route_stages_json :: "route_projection \<Rightarrow> json" where
  "route_stages_json p = JObj
     [(''pipeline'', outcome_json (rp_pipeline p)), (''rtk'', outcome_json (rp_rtk p)), (''headroom'', outcome_json (rp_headroom p)),
      (''caveman'', outcome_json (rp_caveman p)), (''ponytail'', outcome_json (rp_ponytail p))]"

definition route_json :: "route_snapshot \<Rightarrow> json" where
  "route_json r = JObj [(''from_format'', JStr (rs_from r)), (''to_format'', JStr (rs_to r)), (''stages'', route_stages_json (rs_stages r))]"

definition nullable :: "('a \<Rightarrow> json) \<Rightarrow> 'a option \<Rightarrow> json" where
  "nullable f v = (case v of None \<Rightarrow> JNull | Some x \<Rightarrow> f x)"

definition dashboard_headroom_json :: "(gotime \<Rightarrow> bytes) \<Rightarrow> dashboard_headroom \<Rightarrow> json" where
  "dashboard_headroom_json fmt h = JObj
     [(''enabled'', JBool (dh_enabled h)), (''url'', JStr (dh_url h)), (''status'', JStr (status_text (dh_status h))),
      (''circuit'', JStr (circuit_text (dh_circuit h))), (''last_checked_at'', nullable (\<lambda>t. JStr (fmt t)) (dh_last_checked_at h)),
      (''last_latency_ms'', nullable word_json (dh_last_latency_ms h)), (''last_outcome'', JStr (dh_last_outcome h))]"

text \<open>\<open>RouteOutcomes\<close> is made non-nil, so no routes are an empty array.\<close>

definition dashboard_json :: "(gotime \<Rightarrow> bytes) \<Rightarrow> dashboard_dto \<Rightarrow> json" where
  "dashboard_json fmt d = JObj
     [(''started_at'', JStr (fmt (dd_started_at d))), (''headroom'', dashboard_headroom_json fmt (dd_headroom d)),
      (''stages'', dashboard_stages_json d), (''route_outcomes'', JArr (map route_json (dd_route_outcomes d)))]"

definition check_json :: "(gotime \<Rightarrow> bytes) \<Rightarrow> check_dto \<Rightarrow> json" where
  "check_json fmt c = JObj
     [(''reachable'', JBool (ck_reachable c)), (''status'', JStr (status_text (ck_status c))), (''outcome'', JStr (ck_outcome c)),
      (''latency_ms'', word_json (ck_latency_ms c)), (''tested_at'', JStr (fmt (ck_tested_at c)))]"

definition public_json :: "public_dto \<Rightarrow> json" where
  "public_json p = JObj
     [(''enabled'', JBool (pd_enabled p)), (''status'', JStr (status_text (pd_status p))), (''circuit'', JStr (circuit_text (pd_circuit p)))]"

definition error_json :: "error_code \<Rightarrow> bytes \<Rightarrow> json" where
  "error_json code message = JObj [(''error'', JObj [(''code'', JStr (error_text code)), (''message'', JStr message)])]"

text \<open>The body of a response; \<open>page\<close> is the embedded HTML.\<close>

fun body_bytes :: "(gotime \<Rightarrow> bytes) \<Rightarrow> bytes \<Rightarrow> management_payload \<Rightarrow> bytes" where
  "body_bytes fmt page (StatusPayload s) = json_marshal (status_json fmt s)"
| "body_bytes fmt page (SelfTestPayload at w) = json_marshal (self_test_json fmt at w)"
| "body_bytes fmt page (DashboardPayload d) = json_marshal (dashboard_json fmt d)"
| "body_bytes fmt page (CheckPayload c) = json_marshal (check_json fmt c)"
| "body_bytes fmt page (PublicPayload p) = json_marshal (public_json p)"
| "body_bytes fmt page (ErrorPayload code message) = json_marshal (error_json code message)"
| "body_bytes fmt page PagePayload = page"

subsection \<open>Envelopes\<close>

text \<open>A \<open>[]byte\<close> field: base64, or null for a nil slice.\<close>

definition bytes_json :: "bytes \<Rightarrow> json" where
  "bytes_json b = (if b = [] then JNull else JStr (base64 b))"

definition response_json :: "(gotime \<Rightarrow> bytes) \<Rightarrow> bytes \<Rightarrow> management_response \<Rightarrow> json" where
  "response_json fmt page r = JObj
     [(''StatusCode'', JNum (show_int (mr_status r))), (''Headers'', JObj [(''Content-Type'', JArr [JStr (mr_content_type r)])]),
      (''Body'', bytes_json (body_bytes fmt page (mr_payload r)))]"

definition management_route_json :: "route \<Rightarrow> json" where
  "management_route_json r = JObj
     [(''Method'', JStr (rt_method r)), (''Path'', JStr (rt_path r)), (''Menu'', JStr (rt_menu r)), (''Description'', JStr (rt_description r))]"

definition routes_json :: "route list \<times> route list \<Rightarrow> json" where
  "routes_json r = JObj [(''routes'', JArr (map management_route_json (fst r))), (''resources'', JArr (map management_route_json (snd r)))]"

text \<open>A field without enumeration values has a nil slice.\<close>

definition config_field_json :: "config_field \<Rightarrow> json" where
  "config_field_json f = JObj
     [(''Name'', JStr (cf_name f)), (''Type'', JStr (cf_type f)),
      (''EnumValues'', if cf_enum_values f = [] then JNull else JArr (map JStr (cf_enum_values f))),
      (''Description'', JStr (cf_description f))]"

definition registration_json :: "plugin_registration \<Rightarrow> json" where
  "registration_json p = JObj
     [(''schema_version'', word_json (pr_schema_version p)),
      (''metadata'', JObj
         [(''Name'', JStr (pr_name p)), (''Version'', JStr (pr_version p)), (''Author'', JStr (pr_author p)),
          (''GitHubRepository'', JStr (pr_repository p)), (''Logo'', JStr (pr_logo p)),
          (''ConfigFields'', JArr (map config_field_json (pr_config_fields p)))]),
      (''capabilities'', JObj
         [(''request_normalizer'', JBool (pr_request_normalizer p)), (''management_api'', JBool (pr_management_api p))])]"

fun result_json :: "(gotime \<Rightarrow> bytes) \<Rightarrow> bytes \<Rightarrow> abi_result \<Rightarrow> json" where
  "result_json fmt page (PayloadResult body) = JObj [(''Body'', bytes_json body)]"
| "result_json fmt page (RegistrationResult p) = registration_json p"
| "result_json fmt page (RoutesResult r) = routes_json r"
| "result_json fmt page (ManagementResult r) = response_json fmt page r"

text \<open>\<open>Success\<close> and \<open>Failure\<close>: the members that are omitted when empty are not there.\<close>

fun envelope_json :: "(gotime \<Rightarrow> bytes) \<Rightarrow> bytes \<Rightarrow> envelope \<Rightarrow> json" where
  "envelope_json fmt page (Success r) = JObj [(''ok'', JBool True), (''result'', result_json fmt page r)]"
| "envelope_json fmt page (Failed code message) =
     JObj [(''ok'', JBool False), (''error'', JObj [(''code'', JStr code), (''message'', JStr message)])]"

definition envelope_bytes :: "(gotime \<Rightarrow> bytes) \<Rightarrow> bytes \<Rightarrow> envelope \<Rightarrow> bytes" where
  "envelope_bytes fmt page e = json_marshal (envelope_json fmt page e)"

subsection \<open>The values can be read back\<close>

lemma show_nat_head: "\<exists>c t. show_nat n = c # t \<and> is_digit c \<and> (c = CHR ''0'' \<longrightarrow> t = [])"
proof (induction n rule: show_nat.induct)
  case (1 n)
  show ?case
  proof (cases "n < 10")
    case True
    then show ?thesis by (subst show_nat.simps) (simp add: is_digit_digit_char)
  next
    case False
    then obtain c t where ct: "show_nat (n div 10) = c # t" "is_digit c" "c = CHR ''0'' \<longrightarrow> t = []" using 1 by blast
    have "c \<noteq> CHR ''0''"
    proof
      assume c: "c = CHR ''0''"
      then have "digits_val (show_nat (n div 10)) = 0" using ct by (simp add: digits_val_def digit_val_def)
      with False show False by (simp add: digits_val_show_nat)
    qed
    with ct False show ?thesis by (subst show_nat.simps) simp
  qed
qed

lemma good_number_show_nat: "good_number (show_nat n)"
proof -
  obtain c t where ct: "show_nat n = c # t" "is_digit c" "c = CHR ''0'' \<longrightarrow> t = []" using show_nat_head by blast
  have digits: "list_all is_digit t" using show_nat_digits [of n] ct(1) by simp
  then have run: "takeWhile is_digit t = t" "dropWhile is_digit t = []" by (simp_all add: list_all_iff takeWhile_eq_all_conv)
  have "c \<noteq> CHR ''-''" using ct(2) by (auto simp: is_digit_def)
  with ct show ?thesis
    by (simp add: good_number_def pnumber_def Let_def pfrac_def pexp_def run)
qed

lemma good_word_json [simp]: "good_json (word_json w) d"
  by (simp add: word_json_def good_number_show_nat)

lemma to_valid_ascii: "list_all (\<lambda>c. c < CHR 0x80) s \<Longrightarrow> to_valid s = s"
  by (induction s) simp_all

lemma valid_utf8_ascii: "list_all (\<lambda>c. c < CHR 0x80) s \<Longrightarrow> valid_utf8 s"
  by (simp add: valid_utf8_def to_valid_ascii)

lemma valid_text [simp]:
  "valid_utf8 (config_text w)" "valid_utf8 (pipeline_text p)" "valid_utf8 (dependency_text e)" "valid_utf8 (circuit_text c)"
  "valid_utf8 (self_test_text f)"
  by (cases w; cases p; cases e; cases c; cases f; simp add: valid_utf8_ascii)+

lemma good_stages: "d < 9990 \<Longrightarrow> good_json (stages_json p) d" "d < 9990 \<Longrightarrow> good_json (generation_json g) d"
  by (simp_all add: stages_json_def stage_json_def generation_json_def max_depth_def valid_utf8_ascii)

lemma good_status:
  assumes "valid_utf8 (sd_build_version s)" "valid_utf8 (sd_fixture_revision s)" "valid_utf8 (sd_config_digest s)"
    "\<And>t. valid_utf8 (fmt t)"
  shows "good_json (status_json fmt s) 0"
  by (simp add: status_json_def max_depth_def assms good_stages valid_utf8_ascii split: option.split)

lemma dec_word_json: "dec_u32 (word_json w) cur = Some w" "dec_u64 (word_json v) cur' = Some v"
proof -
  have "unat w < 2 ^ 32" "unat v < 2 ^ 64" using unsigned_less [of w, where 'a = nat] unsigned_less [of v, where 'a = nat] by simp_all
  then show "dec_u32 (word_json w) cur = Some w" "dec_u64 (word_json v) cur' = Some v"
    by (simp_all add: dec_u32_def dec_u64_def dec_uint_def word_json_def show_nat_digits digits_val_show_nat)
qed

end
