(* ===== verification/Native.thy ===== *)
theory Native
  imports Wire
begin

text \<open>
  \<open>main.go\<close>: the four native entry points over the runtime and the buffer pool.  A C pointer is \<open>None\<close> for
  NULL; what a string or request pointer of the host points to is the bytes readable from there on.  The
  C heap holds the blocks of the response buffers: \<open>C.CBytes\<close> fills the block the allocator returns, \<open>C.free\<close>
  drops it.
\<close>

subsection \<open>The entry points\<close>

datatype native_entry = CallEntry | FreeEntry | ShutdownEntry

record plugin_api =
  pa_abi_version :: u32
  pa_call :: "native_entry option"
  pa_free :: "native_entry option"
  pa_shutdown :: "native_entry option"

record c_buffer =
  cb_ptr :: "nat option"
  cb_len :: u64

record native =
  nv_runtime :: runtime
  nv_buffers :: buffer_pool
  nv_heap :: "nat \<rightharpoonup> bytes"

definition native_start :: "runtime \<Rightarrow> native" where
  "native_start rt = \<lparr>nv_runtime = rt, nv_buffers = NewBufferPool, nv_heap = Map.empty\<rparr>"

fun strlen_upto :: "nat \<Rightarrow> bytes \<Rightarrow> nat" where
  "strlen_upto (Suc limit) (c # cs) = (if c = CHR 0x00 then 0 else Suc (strlen_upto limit cs))"
| "strlen_upto _ _ = 0"

definition bounded_strlen :: "bytes option \<Rightarrow> nat \<Rightarrow> nat" where
  "bounded_strlen memory limit = (case memory of None \<Rightarrow> 0 | Some m \<Rightarrow> strlen_upto limit m)"

text \<open>\<open>cliproxy_plugin_init\<close>: the host's version if it passes its API, and the structure to fill.\<close>

definition plugin_init :: "u32 option \<Rightarrow> plugin_api option \<Rightarrow> native \<Rightarrow> int \<times> plugin_api option" where
  "plugin_init host plugin s =
     (case plugin of
        None \<Rightarrow> (1, None)
      | Some api \<Rightarrow>
          if rn_stopped (nv_runtime s) then (1, plugin)
          else if (case host of None \<Rightarrow> False | Some v \<Rightarrow> v \<noteq> ABIVersion) then (1, plugin)
          else (0, Some \<lparr>pa_abi_version = ABIVersion, pa_call = Some CallEntry, pa_free = Some FreeEntry,
                         pa_shutdown = Some ShutdownEntry\<rparr>))"

text \<open>\<open>got\<close> is what the allocator returns, if it is called.\<close>

definition writeResponse :: "nat option \<Rightarrow> c_buffer \<Rightarrow> bytes \<Rightarrow> native \<Rightarrow> (bool \<times> c_buffer) \<times> native" where
  "writeResponse got response raw s =
     (case Allocate raw got (nv_buffers s) of
        (AllocateError e, p) \<Rightarrow> ((False, response), s\<lparr>nv_buffers := p\<rparr>)
      | (Allocated ptr len, p) \<Rightarrow>
          ((True, \<lparr>cb_ptr = ptr, cb_len = len\<rparr>),
           s\<lparr>nv_buffers := p, nv_heap := (case ptr of None \<Rightarrow> nv_heap s | Some q \<Rightarrow> (nv_heap s)(q \<mapsto> raw))\<rparr>))"

text \<open>The texts of the errors of \<open>CopyRequest\<close>.\<close>

definition copy_error_text :: "buffer_error \<Rightarrow> bytes" where
  "copy_error_text e =
     (if e = RequestTooLarge then ''request exceeds '' @ show_nat MaxRequestBytes @ ''-byte limit''
      else ''request pointer is nil for non-empty request'')"

text \<open>How the plugin writes its bytes: the format of a time, the page, and the envelope.\<close>

record native_env =
  na_format :: "gotime \<Rightarrow> bytes"
  na_page :: bytes

definition native_bytes :: "native_env \<Rightarrow> envelope \<Rightarrow> bytes" where
  "native_bytes ne e = envelope_bytes (na_format ne) (na_page ne) e"

text \<open>A refused call still tries to explain itself; whether that fits does not matter.\<close>

definition refuse_call :: "native_env \<Rightarrow> nat option \<Rightarrow> c_buffer \<Rightarrow> bytes \<Rightarrow> bytes \<Rightarrow> native \<Rightarrow> (int \<times> c_buffer option) \<times> native" where
  "refuse_call ne got response code message s =
     (case writeResponse got response (native_bytes ne (Failure code message)) s of
        ((_, out), s') \<Rightarrow> ((1, Some out), s'))"

definition plugin_call ::
  "native_env \<Rightarrow> ('n, 'r) abi_env \<Rightarrow> nat option \<Rightarrow> bytes option \<Rightarrow> bytes option \<Rightarrow> nat \<Rightarrow> c_buffer option \<Rightarrow> native
     \<Rightarrow> (int \<times> c_buffer option) \<times> native" where
  "plugin_call ne env got name request requestLen response s =
     (case response of
        None \<Rightarrow> ((1, None), s)
      | Some _ \<Rightarrow>
          let cleared = \<lparr>cb_ptr = None, cb_len = 0\<rparr>
          in case name of
               None \<Rightarrow> refuse_call ne got cleared ''invalid_method'' ''method is required'' s
             | Some memory \<Rightarrow>
                 let methodLength = bounded_strlen name (MaxMethodBytes + 1)
                 in if methodLength > MaxMethodBytes
                    then refuse_call ne got cleared ''invalid_method'' ''method exceeds 256-byte limit'' s
                    else (case CopyRequest request requestLen of
                            Inl e \<Rightarrow> refuse_call ne got cleared ''invalid_request'' (copy_error_text e) s
                          | Inr requestBytes \<Rightarrow>
                              (case Call env (take methodLength memory) requestBytes (nv_runtime s) of
                                 ((reply, st), rt) \<Rightarrow>
                                   (case writeResponse got cleared (native_bytes ne reply) (s\<lparr>nv_runtime := rt\<rparr>) of
                                      ((written, out), s') \<Rightarrow> ((if written then st else 1, Some out), s')))))"

definition plugin_free :: "nat option \<Rightarrow> u64 \<Rightarrow> native \<Rightarrow> native" where
  "plugin_free ptr len s =
     (case Free ptr len (nv_buffers s) of
        (False, p) \<Rightarrow> s\<lparr>nv_buffers := p\<rparr>
      | (True, p) \<Rightarrow> s\<lparr>nv_buffers := p, nv_heap := (case ptr of None \<Rightarrow> nv_heap s | Some q \<Rightarrow> mdelete (nv_heap s) q)\<rparr>)"

definition plugin_shutdown :: "native \<Rightarrow> native" where
  "plugin_shutdown s = s\<lparr>nv_runtime := shutdown_end (shutdown_begin (nv_runtime s))\<rparr>"

subsection \<open>Histories\<close>

text \<open>The host calls what it likes in any order; the allocator never returns a block in use.\<close>

inductive native_step :: "'n yaml \<Rightarrow> 'r gjson \<Rightarrow> native \<Rightarrow> native \<Rightarrow> bool" for y :: "'n yaml" and g :: "'r gjson" where
  native_called: "(\<And>q. got = Some q \<Longrightarrow> nv_heap s q = None) \<Longrightarrow> ae_yaml env = y \<Longrightarrow> ne_gjson (ae_nenv env) = g \<Longrightarrow>
     native_step y g s (snd (plugin_call ne (env :: ('n, 'r) abi_env) got name request len response s))"
| native_freed: "native_step y g s (plugin_free ptr len s)"
| native_shut: "native_step y g s (plugin_shutdown s)"

inductive native_reach :: "'n yaml \<Rightarrow> 'r gjson \<Rightarrow> native \<Rightarrow> bool" for y :: "'n yaml" and g :: "'r gjson" where
  native_started: "native_reach y g (native_start (NewRuntime y hash now))"
| native_more: "native_reach y g s \<Longrightarrow> native_step y g s s' \<Longrightarrow> native_reach y g s'"

inductive_cases native_stepE: "native_step y g s s'"

subsection \<open>Every block is tracked\<close>

definition heap_tracked :: "native \<Rightarrow> bool" where
  "heap_tracked s \<longleftrightarrow>
     (\<forall>q. bp_allocations (nv_buffers s) q = map_option (\<lambda>b. word_of_nat (length b)) (nv_heap s q))
     \<and> (\<forall>q b. nv_heap s q = Some b \<longrightarrow> b \<noteq> [] \<and> length b \<le> MaxResponseBytes)"

lemma heap_tracked_runtime [simp]: "heap_tracked (s\<lparr>nv_runtime := rt\<rparr>) = heap_tracked s"
  by (simp add: heap_tracked_def)

text \<open>What \<open>writeResponse\<close> does, with an allocator that keeps its contract.\<close>

lemma writeResponse_cases:
  assumes "heap_tracked s" "\<And>q. got = Some q \<Longrightarrow> nv_heap s q = None"
  obtains (nothing) "raw = []" "writeResponse got r raw s = ((True, \<lparr>cb_ptr = None, cb_len = 0\<rparr>), s)"
    | (refused) "raw \<noteq> []" "length raw > MaxResponseBytes \<or> got = None" "writeResponse got r raw s = ((False, r), s)"
    | (written) q where "raw \<noteq> []" "length raw \<le> MaxResponseBytes" "got = Some q"
        "writeResponse got r raw s = ((True, \<lparr>cb_ptr = Some q, cb_len = word_of_nat (length raw)\<rparr>),
           s\<lparr>nv_buffers := (nv_buffers s)\<lparr>bp_allocations := (bp_allocations (nv_buffers s))(q \<mapsto> word_of_nat (length raw))\<rparr>,
             nv_heap := (nv_heap s)(q \<mapsto> raw)\<rparr>)"
proof -
  have free: "bp_allocations (nv_buffers s) q = None" if "got = Some q" for q
    using assms that by (simp add: heap_tracked_def)
  consider "raw = []" | "raw \<noteq> []" "length raw > MaxResponseBytes \<or> got = None"
    | q where "raw \<noteq> []" "length raw \<le> MaxResponseBytes" "got = Some q"
    by (metis not_less option.exhaust)
  then show thesis
  proof cases
    case 1
    show thesis by (rule nothing) (use 1 in \<open>simp_all add: writeResponse_def Allocate_def\<close>)
  next
    case 2
    show thesis by (rule refused) (use 2 in \<open>auto simp: writeResponse_def Allocate_def\<close>)
  next
    case 3
    show thesis by (rule written [of q]) (use 3 free [of q] in \<open>simp_all add: writeResponse_def Allocate_def\<close>)
  qed
qed

lemma writeResponse_tracked:
  assumes "heap_tracked s" "\<And>q. got = Some q \<Longrightarrow> nv_heap s q = None"
  shows "heap_tracked (snd (writeResponse got r raw s))"
proof (rule writeResponse_cases [OF assms, where raw = raw and r = r])
  fix q
  assume "raw \<noteq> []" "length raw \<le> MaxResponseBytes"
    and w: "writeResponse got r raw s = ((True, \<lparr>cb_ptr = Some q, cb_len = word_of_nat (length raw)\<rparr>),
      s\<lparr>nv_buffers := (nv_buffers s)\<lparr>bp_allocations := (bp_allocations (nv_buffers s))(q \<mapsto> word_of_nat (length raw))\<rparr>,
        nv_heap := (nv_heap s)(q \<mapsto> raw)\<rparr>)"
  then show ?thesis using assms(1) unfolding w heap_tracked_def by simp
qed (use assms(1) in simp_all)

lemma refuse_call_tracked:
  assumes "heap_tracked s" "\<And>q. got = Some q \<Longrightarrow> nv_heap s q = None"
  shows "heap_tracked (snd (refuse_call ne got r code message s))"
  using writeResponse_tracked [OF assms] by (simp add: refuse_call_def split: prod.split) (metis snd_conv)

lemma plugin_call_tracked:
  assumes "heap_tracked s" "\<And>q. got = Some q \<Longrightarrow> nv_heap s q = None"
  shows "heap_tracked (snd (plugin_call ne env got name request len response s))"
proof -
  have w: "heap_tracked s'" if "writeResponse got r raw (s\<lparr>nv_runtime := rt\<rparr>) = (a, s')" for r raw rt a s'
    using writeResponse_tracked [of "s\<lparr>nv_runtime := rt\<rparr>" got r raw] assms that by simp
  show ?thesis
    using refuse_call_tracked [OF assms] assms(1) w
    by (auto simp: plugin_call_def Let_def split: option.split sum.split prod.split)
qed

lemma plugin_free_tracked: "heap_tracked s \<Longrightarrow> heap_tracked (plugin_free ptr len s)"
  by (auto simp: plugin_free_def Free_def heap_tracked_def mdelete_def split: option.split)

lemma native_step_tracked: "native_step y g s s' \<Longrightarrow> heap_tracked s \<Longrightarrow> heap_tracked s'"
  by (erule native_stepE)
    (auto simp: plugin_call_tracked plugin_free_tracked plugin_shutdown_def)

lemma native_reach_tracked: "native_reach y g s \<Longrightarrow> heap_tracked s"
proof (induction rule: native_reach.induct)
  case (native_started hash now)
  show ?case by (simp add: heap_tracked_def native_start_def NewBufferPool_def)
qed (rule native_step_tracked)

text \<open>What the host gets back, and what happened to the heap.\<close>

definition handed_over :: "nat option \<Rightarrow> native \<Rightarrow> c_buffer \<times> native \<Rightarrow> bool" where
  "handed_over got s r \<longleftrightarrow>
     fst r = \<lparr>cb_ptr = None, cb_len = 0\<rparr> \<and> nv_heap (snd r) = nv_heap s
     \<or> (\<exists>q b. got = Some q \<and> fst r = \<lparr>cb_ptr = Some q, cb_len = word_of_nat (length b)\<rparr> \<and> nv_heap (snd r) = (nv_heap s)(q \<mapsto> b))"

lemma writeResponse_hands_over:
  assumes "heap_tracked s" "\<And>q. got = Some q \<Longrightarrow> nv_heap s q = None"
    and "writeResponse got \<lparr>cb_ptr = None, cb_len = 0\<rparr> raw s = ((w, out), s')"
  shows "handed_over got s (out, s')"
proof (rule writeResponse_cases [OF assms(1,2), where raw = raw and r = "\<lparr>cb_ptr = None, cb_len = 0\<rparr>"])
  fix q
  assume q: "got = Some q" and w: "writeResponse got \<lparr>cb_ptr = None, cb_len = 0\<rparr> raw s =
      ((True, \<lparr>cb_ptr = Some q, cb_len = word_of_nat (length raw)\<rparr>),
       s\<lparr>nv_buffers := (nv_buffers s)\<lparr>bp_allocations := (bp_allocations (nv_buffers s))(q \<mapsto> word_of_nat (length raw))\<rparr>,
         nv_heap := (nv_heap s)(q \<mapsto> raw)\<rparr>)"
  have "out = \<lparr>cb_ptr = Some q, cb_len = word_of_nat (length raw)\<rparr>" "nv_heap s' = (nv_heap s)(q \<mapsto> raw)"
    using assms(3) w by auto
  with q show ?thesis unfolding handed_over_def by auto
qed (use assms(3) in \<open>auto simp: handed_over_def\<close>)

lemma handed_over_runtime: "handed_over got (s\<lparr>nv_runtime := rt\<rparr>) r = handed_over got s r"
  by (simp add: handed_over_def)

lemma plugin_call_hands_over:
  assumes "heap_tracked s" "\<And>q. got = Some q \<Longrightarrow> nv_heap s q = None"
  shows "\<exists>out. snd (fst (plugin_call ne env got name request len (Some response) s)) = Some out
    \<and> handed_over got s (out, snd (plugin_call ne env got name request len (Some response) s))"
proof -
  let ?cleared = "\<lparr>cb_ptr = None, cb_len = 0\<rparr>"
  have r: "\<exists>out. snd (fst (refuse_call ne got ?cleared code message s)) = Some out
      \<and> handed_over got s (out, snd (refuse_call ne got ?cleared code message s))" for code message
    using writeResponse_hands_over [OF assms]
    by (cases "writeResponse got ?cleared (native_bytes ne (Failure code message)) s") (auto simp: refuse_call_def)
  have w: "\<exists>b out t. writeResponse got ?cleared raw (s\<lparr>nv_runtime := rt\<rparr>) = ((b, out), t) \<and> handed_over got s (out, t)" for raw rt
    using writeResponse_hands_over [of "s\<lparr>nv_runtime := rt\<rparr>" got raw] assms
    by (metis handed_over_runtime heap_tracked_runtime native.select_convs(3) native.surjective native.update_convs(1) prod.collapse)
  show ?thesis
  proof (cases name)
    case None
    then show ?thesis using r by (simp add: plugin_call_def Let_def)
  next
    case (Some memory)
    show ?thesis
    proof (cases "bounded_strlen name (MaxMethodBytes + 1) > MaxMethodBytes")
      case True
      then show ?thesis using r Some by (simp add: plugin_call_def Let_def)
    next
      case False
      show ?thesis
      proof (cases "CopyRequest request len")
        case (Inl e)
        then show ?thesis using r Some False by (simp add: plugin_call_def Let_def)
      next
        case (Inr data)
        obtain reply st rt where c: "Call env (take (bounded_strlen name (MaxMethodBytes + 1)) memory) data (nv_runtime s) = ((reply, st), rt)"
          by (metis prod.collapse)
        obtain b out t where "writeResponse got ?cleared (native_bytes ne reply) (s\<lparr>nv_runtime := rt\<rparr>) = ((b, out), t)" "handed_over got s (out, t)"
          using w by blast
        then show ?thesis using Some False Inr c by (simp add: plugin_call_def Let_def)
      qed
    qed
  qed
qed

text \<open>
  C12. The native boundary leaks no block and frees none twice.  In every history of calls, frees (stale, double and foreign
  ones included) and shutdowns the pool tracks exactly the blocks of the C heap, with their lengths; a free drops exactly
  the block of its pointer, whatever length is reported, and nothing for another pointer; and a call hands the host nothing, or
  one new block with its length, and touches no block the host still holds.
\<close>
theorem native_memory_safe:
  assumes "native_reach y g s" "\<And>q. got = Some q \<Longrightarrow> nv_heap s q = None"
  shows "bp_allocations (nv_buffers s) = (\<lambda>q. map_option (\<lambda>b. word_of_nat (length b)) (nv_heap s q))
    \<and> nv_heap (plugin_free (Some ptr) reported s) = (nv_heap s)(ptr := None)
    \<and> plugin_free None reported s = s
    \<and> (\<exists>out. snd (fst (plugin_call ne env got name request len (Some response) s)) = Some out
        \<and> handed_over got s (out, snd (plugin_call ne env got name request len (Some response) s)))
    \<and> plugin_call ne env got name request len None s = ((1, None), s)"
proof (intro conjI)
  have t: "heap_tracked s" by (rule native_reach_tracked [OF assms(1)])
  then show a: "bp_allocations (nv_buffers s) = (\<lambda>q. map_option (\<lambda>b. word_of_nat (length b)) (nv_heap s q))"
    by (auto simp: heap_tracked_def)
  show "nv_heap (plugin_free (Some ptr) reported s) = (nv_heap s)(ptr := None)"
    by (cases "nv_heap s ptr") (auto simp: plugin_free_def Free_def a mdelete_def)
  show "plugin_free None reported s = s" by (simp add: plugin_free_def Free_def)
  show "\<exists>out. snd (fst (plugin_call ne env got name request len (Some response) s)) = Some out
      \<and> handed_over got s (out, snd (plugin_call ne env got name request len (Some response) s))"
    by (rule plugin_call_hands_over [OF t assms(2)])
  show "plugin_call ne env got name request len None s = ((1, None), s)" by (simp add: plugin_call_def)
qed

subsection \<open>A request arrives and its body comes back\<close>

lemma strlen_upto_nul: "CHR 0x00 \<notin> set m \<Longrightarrow> strlen_upto limit (m @ CHR 0x00 # rest) = min limit (length m)"
proof (induction m arbitrary: limit)
  case Nil
  show ?case by (cases limit) simp_all
next
  case (Cons c m)
  then show ?case by (cases limit) auto
qed

lemma base64_utf8: "valid_utf8 (base64 s)"
  by (simp add: valid_utf8_def to_valid_plain [OF base64_safe])

lemma good_payload_envelope: "good_json (envelope_json fmt page (Success (PayloadResult body))) 0"
  by (simp add: bytes_json_def base64_utf8 max_depth_def valid_utf8_ascii)

lemma dec_bytes_json: "dec_bytes (bytes_json b) = Some b"
  by (simp add: bytes_json_def dec_bytes_def b64_decode_base64)

text \<open>The two forms of the envelope that have bytes of their own agree with the marshalled ones.\<close>

lemma json_string_base64: "json_string (base64 s) = quote # base64 s @ [quote]"
  using json_esc_safe [OF base64_safe, of True s]
  by (simp add: json_string_def json_quote_def)

lemma envelope_names:
  "json_string ''ok'' = quote # ''ok'' @ [quote]" "json_string ''result'' = quote # ''result'' @ [quote]"
  "json_string ''Body'' = quote # ''Body'' @ [quote]" "json_string ''error'' = quote # ''error'' @ [quote]"
  "json_string ''code'' = quote # ''code'' @ [quote]" "json_string ''message'' = quote # ''message'' @ [quote]"
  by code_simp+

lemma envelope_forms:
  "envelope_bytes fmt page (Success (PayloadResult body)) = payload_bytes body"
  "envelope_bytes fmt page (Failed code message) = failure_bytes code message"
  by (simp_all add: envelope_bytes_def payload_bytes_def failure_bytes_def bytes_json_def json_key_def json_string_base64 envelope_names)

lemma good_parse_payload:
  "json_parse (payload_bytes body) = Some (JObj [(''ok'', JBool True), (''result'', JObj [(''Body'', bytes_json body)])])"
  using json_parse_marshal [OF good_payload_envelope [of "\<lambda>t. []" "[]" body]]
  by (simp flip: envelope_forms(1) [of "\<lambda>t. []" "[]"] add: envelope_bytes_def)

lemma payload_bytes_not_empty: "payload_bytes body \<noteq> []"
  by (simp add: payload_bytes_def)

text \<open>\<open>dispatch\<close> of a normalisation, behind the gate.\<close>

lemma Call_normalize:
  assumes "\<not> rn_stopped rt" "unmarshal set_request zero_request data = Some r"
  shows "fst (Call env MethodRequestNormalize data rt) =
    (Success (PayloadResult (fst (service_normalize env r (rt\<lparr>rn_active := rn_active rt + 1\<rparr>)))), CallStatusOK)"
  using assms
  by (simp add: Call_def call_acquire_def dispatch_def MethodRequestNormalize_def MethodPluginRegister_def
      MethodPluginReconfigure_def split: prod.split)

text \<open>
  C38. A request crosses the native boundary and its body comes back.  For every reachable state that is not
  shut down, a NUL-terminated \<open>request.normalize\<close> with a request that decodes and an allocator with a free block:
  if the envelope fits, the status is 0 and the block the host is given, with its length, holds an envelope whose
  result decodes to exactly the body \<open>Service.Normalize\<close> returned; if not, the status is 1 and the host is given nothing.
\<close>
theorem native_normalize_delivers:
  assumes "native_reach y g s" "nv_heap s q = None" "\<not> rn_stopped (nv_runtime s)"
    and "CopyRequest request len = Inr data" "unmarshal set_request zero_request data = Some r"
    and "body = fst (service_normalize env r ((nv_runtime s)\<lparr>rn_active := rn_active (nv_runtime s) + 1\<rparr>))"
    and "plugin_call ne env (Some q) (Some (MethodRequestNormalize @ CHR 0x00 # rest)) request len (Some response) s = ((st, out), s')"
  shows "if length (payload_bytes body) \<le> MaxResponseBytes
    then st = 0 \<and> out = Some \<lparr>cb_ptr = Some q, cb_len = word_of_nat (length (payload_bytes body))\<rparr>
      \<and> nv_heap s' = (nv_heap s)(q \<mapsto> payload_bytes body)
      \<and> json_parse (payload_bytes body) = Some (JObj [(''ok'', JBool True), (''result'', JObj [(''Body'', bytes_json body)])])
      \<and> dec_bytes (bytes_json body) = Some body
    else st = 1 \<and> out = Some \<lparr>cb_ptr = None, cb_len = 0\<rparr> \<and> nv_heap s' = nv_heap s"
proof -
  let ?cleared = "\<lparr>cb_ptr = None, cb_len = 0\<rparr>" and ?name = "MethodRequestNormalize @ CHR 0x00 # rest"
  obtain rt where c: "Call env MethodRequestNormalize data (nv_runtime s) = ((Success (PayloadResult body), CallStatusOK), rt)"
    using Call_normalize [OF assms(3,5), of env] assms(6) by (metis prod.collapse)
  have n: "CHR 0x00 \<notin> set MethodRequestNormalize" "length MethodRequestNormalize = 17" by (simp_all add: MethodRequestNormalize_def)
  then have len: "bounded_strlen (Some ?name) (MaxMethodBytes + 1) = 17"
    by (simp add: bounded_strlen_def strlen_upto_nul MaxMethodBytes_def)
  have t: "heap_tracked (s\<lparr>nv_runtime := rt\<rparr>)" using native_reach_tracked [OF assms(1)] by simp
  have free: "\<And>p. Some q = Some p \<Longrightarrow> nv_heap (s\<lparr>nv_runtime := rt\<rparr>) p = None" using assms(2) by simp
  obtain w o' t' where wr: "writeResponse (Some q) ?cleared (payload_bytes body) (s\<lparr>nv_runtime := rt\<rparr>) = ((w, o'), t')"
    by (metis prod.collapse)
  have res: "st = (if w then 0 else 1)" "out = Some o'" "s' = t'"
    using assms(7) n len c assms(4) wr
    by (simp_all add: plugin_call_def Let_def MaxMethodBytes_def native_bytes_def envelope_forms CallStatusOK_def split: if_splits)
  show ?thesis
  proof (rule writeResponse_cases [OF t free, where raw = "payload_bytes body" and r = ?cleared])
    assume "payload_bytes body = []"
    then show ?thesis by (simp add: payload_bytes_not_empty)
  next
    assume "length (payload_bytes body) > MaxResponseBytes \<or> Some q = None"
      "writeResponse (Some q) ?cleared (payload_bytes body) (s\<lparr>nv_runtime := rt\<rparr>) = ((False, ?cleared), s\<lparr>nv_runtime := rt\<rparr>)"
    then show ?thesis using wr res by simp
  next
    fix p
    let ?out = "\<lparr>cb_ptr = Some p, cb_len = word_of_nat (length (payload_bytes body))\<rparr>"
    let ?t = "s\<lparr>nv_runtime := rt, nv_buffers := (nv_buffers (s\<lparr>nv_runtime := rt\<rparr>))\<lparr>bp_allocations :=
        (bp_allocations (nv_buffers (s\<lparr>nv_runtime := rt\<rparr>)))(p \<mapsto> word_of_nat (length (payload_bytes body)))\<rparr>,
        nv_heap := (nv_heap (s\<lparr>nv_runtime := rt\<rparr>))(p \<mapsto> payload_bytes body)\<rparr>"
    assume "length (payload_bytes body) \<le> MaxResponseBytes" "Some q = Some p"
      "writeResponse (Some q) ?cleared (payload_bytes body) (s\<lparr>nv_runtime := rt\<rparr>) = ((True, ?out), ?t)"
    moreover from this wr have "w" "o' = ?out" "t' = ?t" by simp_all
    ultimately show ?thesis using res by (simp add: good_parse_payload dec_bytes_json)
  qed
qed

subsection \<open>Witnesses\<close>

definition demo_native_env :: native_env where
  "demo_native_env = \<lparr>na_format = (\<lambda>t. ''noon''), na_page = ''page''\<rparr>"

definition demo_native :: native where
  "demo_native = native_start (NewRuntime demo_yaml id 0)"

definition demo_response :: c_buffer where
  "demo_response = \<lparr>cb_ptr = Some 1, cb_len = 9\<rparr>"

text \<open>A call without a method, then a free of the block it left.\<close>

definition demo_refused :: native where
  "demo_refused = snd (plugin_call demo_native_env demo_abi_env (Some 7) None None 0 (Some demo_response) demo_native)"

lemma demo_reach: "native_reach demo_yaml demo_gjson demo_native"
  unfolding demo_native_def by (rule native_started)

lemma demo_refused_reach: "native_reach demo_yaml demo_gjson demo_refused"
  unfolding demo_refused_def
  by (rule native_more [OF demo_reach native_called])
    (simp_all add: demo_native_def native_start_def demo_abi_env_def demo_nenv_def)

theorem native_memory_safe_witness:
  "nv_heap (plugin_free (Some 7) 0 demo_refused) = (nv_heap demo_refused)(7 := None)
   \<and> bp_allocations (nv_buffers demo_refused) 7 = map_option (\<lambda>b. word_of_nat (length b)) (nv_heap demo_refused 7)"
  using native_memory_safe [OF demo_refused_reach, where got = None and ptr = 7 and reported = 0 and env = demo_abi_env] by simp

theorem native_normalize_delivers_witness:
  "\<exists>s'. plugin_call demo_native_env demo_abi_env (Some 7) (Some (MethodRequestNormalize @ [CHR 0x00])) (Some (body_request ''hi''))
      (length (body_request ''hi'')) (Some demo_response) demo_native =
     ((0, Some \<lparr>cb_ptr = Some 7, cb_len = word_of_nat (length (payload_bytes ''hi''))\<rparr>), s')
   \<and> nv_heap s' 7 = Some (payload_bytes ''hi'') \<and> dec_bytes (bytes_json ''hi'') = Some ''hi''"
proof -
  let ?rt = "(nv_runtime demo_native)\<lparr>rn_active := rn_active (nv_runtime demo_native) + 1\<rparr>"
  have "all_disabled Defaults" by code_simp
  then have body: "''hi'' = fst (service_normalize demo_abi_env (zero_request\<lparr>rq_body := ''hi''\<rparr>) ?rt)"
    by (simp add: service_normalize_def demo_native_def native_start_def NewRuntime_def NewService_def acquire_def Normalize_def
        new_generation_def upd_gen_def Let_def split: prod.split)
  have copy: "CopyRequest (Some (body_request ''hi'')) (length (body_request ''hi'')) = Inr (body_request ''hi'')"
    by (simp add: CopyRequest_def MaxRequestBytes_def body_request_length)
  have fits: "length (payload_bytes ''hi'') \<le> MaxResponseBytes" by (simp add: payload_bytes_length MaxResponseBytes_def)
  obtain st out s' where call: "plugin_call demo_native_env demo_abi_env (Some 7) (Some (MethodRequestNormalize @ CHR 0x00 # []))
      (Some (body_request ''hi'')) (length (body_request ''hi'')) (Some demo_response) demo_native = ((st, out), s')"
    by (metis prod.collapse)
  have "nv_heap demo_native 7 = None" "\<not> rn_stopped (nv_runtime demo_native)"
    by (simp_all add: demo_native_def native_start_def NewRuntime_def)
  from native_normalize_delivers [OF demo_reach this copy body_request_decodes body call] fits call
  show ?thesis by simp
qed

end
