(* ===== verification/Approval.thy ===== *)
theory Approval
  imports GoDecode GoJsonRoundtrip RtkFilters
begin

text \<open>
  \<open>tools/update-verifier/verifier\<close>: the approval document of a release (\<open>approval.go\<close>,
  \<open>approval_file.go\<close>, \<open>trust_linux.go\<close>), the credential (\<open>credential.go\<close>) and the results
  (\<open>types.go\<close>).  A function that returns a value and a code is a sum: the code unless it is \<open>CodeOK\<close>.
  The operating system is an argument: what \<open>Lstat\<close>, \<open>Open\<close>, the reads and the environment return.
\<close>

subsection \<open>Results\<close>

definition ApprovalSchemaVersion :: int where "ApprovalSchemaVersion = 2"
definition VerifierSchemaVersion :: int where "VerifierSchemaVersion = 1"
definition VerifierFixture :: bytes where "VerifierFixture = ''v1''"
definition PhasePreflight :: bytes where "PhasePreflight = ''preflight''"
definition PhasePostInstall :: bytes where "PhasePostInstall = ''postinstall''"

datatype classification = ClassificationCompatible | ClassificationBlocked | ClassificationCandidateFailure

fun classification_text :: "classification \<Rightarrow> bytes" where
  "classification_text ClassificationCompatible = ''compatible''"
| "classification_text ClassificationBlocked = ''blocked''"
| "classification_text ClassificationCandidateFailure = ''candidate_failure''"

datatype verifier_code = CodeOK | CodeApprovalRead | CodeApprovalUntrusted | CodeApprovalInvalid | CodeApprovalSchema
  | CodeVerifierSchema | CodeApprovalABI | CodeApprovalRPC | CodeCredentialDirectory | CodeCredentialRead
  | CodeCredentialInvalid | CodeArchitectureMismatch | CodeCLIHashMismatch | CodePluginHashMismatch
  | CodeCoreUnavailable | CodeManagementAuth | CodeManagementUnavailable | CodeManagementURL | CodePluginMissing
  | CodePluginNotRegistered | CodePluginNotEffective | CodePluginVersionMismatch | CodeABIMismatch
  | CodeRPCMismatch | CodeFixtureMismatch | CodeConfigInvalid | CodeConfigRace | CodeConfigDigestMismatch
  | CodeRuntimeUnhealthy | CodeSelfTestFailed | CodeArtifactRead

record verifier_result =
  vr_schema_version :: int
  vr_compatible :: bool
  vr_classification :: classification
  vr_code :: verifier_code

definition compatible :: verifier_result where
  "compatible = \<lparr>vr_schema_version = VerifierSchemaVersion, vr_compatible = True,
     vr_classification = ClassificationCompatible, vr_code = CodeOK\<rparr>"

definition blocked :: "verifier_code \<Rightarrow> verifier_result" where
  "blocked code = \<lparr>vr_schema_version = VerifierSchemaVersion, vr_compatible = False,
     vr_classification = ClassificationBlocked, vr_code = code\<rparr>"

definition phaseFailure :: "bytes \<Rightarrow> verifier_code \<Rightarrow> verifier_result" where
  "phaseFailure phase code =
     (if phase = PhasePostInstall
      then \<lparr>vr_schema_version = VerifierSchemaVersion, vr_compatible = False,
             vr_classification = ClassificationCandidateFailure, vr_code = code\<rparr>
      else blocked code)"

subsection \<open>The document\<close>

record approval_bundle =
  ab_deployment_id :: bytes
  ab_source_commit :: bytes
  ab_builder :: bytes

record approval_cli =
  ac_tag :: bytes
  ac_archive_sha256 :: bytes
  ac_binary_sha256 :: bytes
  ac_arch :: bytes

record approval_plugin =
  ap_id :: bytes
  ap_version :: bytes
  ap_abi :: u32
  ap_rpc_schema :: u32
  ap_source_commit :: bytes
  ap_builder :: bytes
  ap_glibc_max :: bytes
  ap_sha256 :: bytes

record approval_file =
  af_path :: bytes
  af_sha256 :: bytes
  af_mode :: bytes

record approval_document =
  ad_schema_version :: int
  ad_verifier_schema :: int
  ad_bundle :: approval_bundle
  ad_cli :: approval_cli
  ad_plugin :: approval_plugin
  ad_files :: "approval_file go_slice"
  ad_exclusions :: "bytes go_slice"

record approved_cli =
  cl_version :: bytes
  cl_sha256 :: bytes
  cl_arch :: bytes

record approved_plugin =
  pg_version :: bytes
  pg_sha256 :: bytes
  pg_abi :: u32
  pg_rpc :: u32

record approval =
  aa_schema_version :: int
  aa_verifier_schema :: int
  aa_cli :: approved_cli
  aa_plugin :: approved_plugin

text \<open>A member with an unknown name is an error (\<open>DisallowUnknownFields\<close>).\<close>

definition set_bundle :: "bytes \<Rightarrow> json \<Rightarrow> approval_bundle \<Rightarrow> approval_bundle option" where
  "set_bundle k v b =
     (if names_field ''deployment_id'' k then map_option (\<lambda>s. b\<lparr>ab_deployment_id := s\<rparr>) (dec_string v (ab_deployment_id b))
      else if names_field ''source_commit'' k then map_option (\<lambda>s. b\<lparr>ab_source_commit := s\<rparr>) (dec_string v (ab_source_commit b))
      else if names_field ''builder_digest'' k then map_option (\<lambda>s. b\<lparr>ab_builder := s\<rparr>) (dec_string v (ab_builder b))
      else None)"

definition set_cli :: "bytes \<Rightarrow> json \<Rightarrow> approval_cli \<Rightarrow> approval_cli option" where
  "set_cli k v c =
     (if names_field ''tag'' k then map_option (\<lambda>s. c\<lparr>ac_tag := s\<rparr>) (dec_string v (ac_tag c))
      else if names_field ''archive_sha256'' k then map_option (\<lambda>s. c\<lparr>ac_archive_sha256 := s\<rparr>) (dec_string v (ac_archive_sha256 c))
      else if names_field ''binary_sha256'' k then map_option (\<lambda>s. c\<lparr>ac_binary_sha256 := s\<rparr>) (dec_string v (ac_binary_sha256 c))
      else if names_field ''arch'' k then map_option (\<lambda>s. c\<lparr>ac_arch := s\<rparr>) (dec_string v (ac_arch c))
      else None)"

definition set_plugin :: "bytes \<Rightarrow> json \<Rightarrow> approval_plugin \<Rightarrow> approval_plugin option" where
  "set_plugin k v p =
     (if names_field ''id'' k then map_option (\<lambda>s. p\<lparr>ap_id := s\<rparr>) (dec_string v (ap_id p))
      else if names_field ''version'' k then map_option (\<lambda>s. p\<lparr>ap_version := s\<rparr>) (dec_string v (ap_version p))
      else if names_field ''abi'' k then map_option (\<lambda>n. p\<lparr>ap_abi := n\<rparr>) (dec_u32 v (ap_abi p))
      else if names_field ''rpc_schema'' k then map_option (\<lambda>n. p\<lparr>ap_rpc_schema := n\<rparr>) (dec_u32 v (ap_rpc_schema p))
      else if names_field ''source_commit'' k then map_option (\<lambda>s. p\<lparr>ap_source_commit := s\<rparr>) (dec_string v (ap_source_commit p))
      else if names_field ''builder_digest'' k then map_option (\<lambda>s. p\<lparr>ap_builder := s\<rparr>) (dec_string v (ap_builder p))
      else if names_field ''glibc_max'' k then map_option (\<lambda>s. p\<lparr>ap_glibc_max := s\<rparr>) (dec_string v (ap_glibc_max p))
      else if names_field ''sha256'' k then map_option (\<lambda>s. p\<lparr>ap_sha256 := s\<rparr>) (dec_string v (ap_sha256 p))
      else None)"

definition set_file :: "bytes \<Rightarrow> json \<Rightarrow> approval_file \<Rightarrow> approval_file option" where
  "set_file k v f =
     (if names_field ''path'' k then map_option (\<lambda>s. f\<lparr>af_path := s\<rparr>) (dec_string v (af_path f))
      else if names_field ''sha256'' k then map_option (\<lambda>s. f\<lparr>af_sha256 := s\<rparr>) (dec_string v (af_sha256 f))
      else if names_field ''mode'' k then map_option (\<lambda>s. f\<lparr>af_mode := s\<rparr>) (dec_string v (af_mode f))
      else None)"

definition zero_file :: approval_file where
  "zero_file = \<lparr>af_path = [], af_sha256 = [], af_mode = []\<rparr>"

definition set_document :: "bytes \<Rightarrow> json \<Rightarrow> approval_document \<Rightarrow> approval_document option" where
  "set_document k v d =
     (if names_field ''schema_version'' k then map_option (\<lambda>n. d\<lparr>ad_schema_version := n\<rparr>) (dec_int v (ad_schema_version d))
      else if names_field ''verifier_schema'' k then map_option (\<lambda>n. d\<lparr>ad_verifier_schema := n\<rparr>) (dec_int v (ad_verifier_schema d))
      else if names_field ''bundle'' k then map_option (\<lambda>b. d\<lparr>ad_bundle := b\<rparr>) (dec_object set_bundle v (ad_bundle d))
      else if names_field ''cli'' k then map_option (\<lambda>c. d\<lparr>ad_cli := c\<rparr>) (dec_object set_cli v (ad_cli d))
      else if names_field ''plugin'' k then map_option (\<lambda>p. d\<lparr>ad_plugin := p\<rparr>) (dec_object set_plugin v (ad_plugin d))
      else if names_field ''files'' k
        then map_option (\<lambda>fs. d\<lparr>ad_files := fs\<rparr>) (dec_slice (dec_object set_file) zero_file v (ad_files d))
      else if names_field ''manifest_exclusions'' k
        then map_option (\<lambda>xs. d\<lparr>ad_exclusions := xs\<rparr>) (dec_slice dec_string [] v (ad_exclusions d))
      else None)"

definition zero_document :: approval_document where
  "zero_document = \<lparr>ad_schema_version = 0, ad_verifier_schema = 0,
     ad_bundle = \<lparr>ab_deployment_id = [], ab_source_commit = [], ab_builder = []\<rparr>,
     ad_cli = \<lparr>ac_tag = [], ac_archive_sha256 = [], ac_binary_sha256 = [], ac_arch = []\<rparr>,
     ad_plugin = \<lparr>ap_id = [], ap_version = [], ap_abi = 0, ap_rpc_schema = 0, ap_source_commit = [], ap_builder = [],
       ap_glibc_max = [], ap_sha256 = []\<rparr>,
     ad_files = nil_slice, ad_exclusions = nil_slice\<rparr>"

subsection \<open>The patterns\<close>

definition lower_hex :: "char \<Rightarrow> bool" where
  "lower_hex c \<longleftrightarrow> is_digit c \<or> (CHR ''a'' \<le> c \<and> c \<le> CHR ''f'')"

definition lowerSHA256Pattern :: "bytes \<Rightarrow> bool" where
  "lowerSHA256Pattern s \<longleftrightarrow> length s = 64 \<and> list_all lower_hex s"

definition lowerCommitPattern :: "bytes \<Rightarrow> bool" where
  "lowerCommitPattern s \<longleftrightarrow> 7 \<le> length s \<and> length s \<le> 40 \<and> list_all lower_hex s"

definition digestPattern :: "bytes \<Rightarrow> bool" where
  "digestPattern s \<longleftrightarrow> has_prefix ''sha256:'' s \<and> lowerSHA256Pattern (drop 7 s)"

definition modePattern :: "bytes \<Rightarrow> bool" where
  "modePattern s \<longleftrightarrow> length s = 4 \<and> hd s = CHR ''0'' \<and> list_all (\<lambda>c. CHR ''0'' \<le> c \<and> c \<le> CHR ''7'') (tl s)"

definition id_char :: "char \<Rightarrow> bool" where
  "id_char c \<longleftrightarrow> is_digit c \<or> (CHR ''A'' \<le> c \<and> c \<le> CHR ''Z'') \<or> (CHR ''a'' \<le> c \<and> c \<le> CHR ''z'')"

definition deploymentIDPattern :: "bytes \<Rightarrow> bool" where
  "deploymentIDPattern s \<longleftrightarrow> 1 \<le> length s \<and> length s \<le> 128 \<and> id_char (hd s)
     \<and> list_all (\<lambda>c. id_char c \<or> c = CHR ''.'' \<or> c = CHR ''_'' \<or> c = CHR ''-'') (tl s)"

subsection \<open>Validation\<close>

definition cli_path :: bytes where "cli_path = ''cli-proxy-api''"
definition plugin_path :: bytes where "plugin_path = ''plugins/linux/amd64/token-saver-v1.2.7.so''"

definition required_hash :: "approval_document \<Rightarrow> bytes \<Rightarrow> bytes option" where
  "required_hash d p =
     (if p = cli_path then Some (ac_binary_sha256 (ad_cli d))
      else if p = plugin_path then Some (ap_sha256 (ad_plugin d)) else None)"

definition valid_file :: "bytes \<Rightarrow> approval_file \<Rightarrow> bool" where
  "valid_file previous f \<longleftrightarrow>
     \<not> (af_path f = [] \<or> af_path f \<noteq> path_clean (af_path f) \<or> has_prefix ''/'' (af_path f) \<or> af_path f = ''.''
        \<or> has_prefix ''../'' (af_path f) \<or> \<not> lowerSHA256Pattern (af_sha256 f) \<or> \<not> modePattern (af_mode f)
        \<or> (previous \<noteq> [] \<and> af_path f \<le> previous))"

text \<open>The loop over the files; the result is the set of paths that were seen.\<close>

fun check_files :: "approval_document \<Rightarrow> bytes \<Rightarrow> bytes list \<Rightarrow> approval_file list \<Rightarrow> bytes list option" where
  "check_files d previous seen [] = Some seen"
| "check_files d previous seen (f # fs) =
     (if \<not> valid_file previous f then None
      else if List.member seen (af_path f) then None
      else (case required_hash d (af_path f) of
              Some expected \<Rightarrow>
                if expected \<noteq> af_sha256 f then None else check_files d (af_path f) (af_path f # seen) fs
            | None \<Rightarrow> check_files d (af_path f) (af_path f # seen) fs))"

fun atoi_all :: "bytes list \<Rightarrow> int list option" where
  "atoi_all [] = Some []"
| "atoi_all (part # parts) =
     (case parse_int part of
        None \<Rightarrow> None
      | Some component \<Rightarrow> if component < 0 then None else map_option (\<lambda>cs. component # cs) (atoi_all parts))"

text \<open>The comparison of the components; a missing one is zero.\<close>

fun version_within :: "int list \<Rightarrow> int list \<Rightarrow> bool" where
  "version_within [] [] = True"
| "version_within (v # vs) (m # ms) = (if v \<noteq> m then v < m else version_within vs ms)"
| "version_within (v # vs) [] = (if v \<noteq> 0 then v < 0 else version_within vs [])"
| "version_within [] (m # ms) = (if 0 \<noteq> m then 0 < m else version_within [] ms)"

definition validGLIBCMax :: "bytes \<Rightarrow> bool" where
  "validGLIBCMax v =
     (let parts = split_byte (CHR ''.'') v
      in if length parts < 2 then False
         else (case atoi_all parts of None \<Rightarrow> False | Some version \<Rightarrow> version_within version [2, 32]))"

definition validApprovalDocument :: "approval_document \<Rightarrow> bool" where
  "validApprovalDocument d =
     (let bundle = ad_bundle d; cli = ad_cli d; plugin = ad_plugin d;
          files = slice_items (ad_files d); exclusions = slice_items (ad_exclusions d)
      in if \<not> deploymentIDPattern (ab_deployment_id bundle) \<or> \<not> lowerCommitPattern (ab_source_commit bundle)
            \<or> \<not> digestPattern (ab_builder bundle) \<or> ac_tag cli \<noteq> ''v7.2.136'' \<or> ac_arch cli \<noteq> ''linux-amd64''
            \<or> ac_archive_sha256 cli \<noteq> ''8f9160982bc2f26142f7b76a73fcc50f954c453470d5a6aefa81324ad18da288''
            \<or> \<not> lowerSHA256Pattern (ac_binary_sha256 cli) \<or> ap_id plugin \<noteq> ''token-saver'' \<or> ap_version plugin \<noteq> ''1.2.7''
            \<or> \<not> lowerCommitPattern (ap_source_commit plugin) \<or> \<not> digestPattern (ap_builder plugin)
            \<or> \<not> validGLIBCMax (ap_glibc_max plugin) \<or> \<not> lowerSHA256Pattern (ap_sha256 plugin)
            \<or> ab_source_commit bundle \<noteq> ap_source_commit plugin \<or> ab_builder bundle \<noteq> ap_builder plugin
            \<or> files = [] \<or> length exclusions \<noteq> 2 \<or> exclusions \<noteq> [''approved-artifacts.json'', ''SHA256SUMS'']
         then False
         else (case check_files d [] [] files of
                 None \<Rightarrow> False
               | Some seen \<Rightarrow> List.member seen cli_path \<and> List.member seen plugin_path))"

definition ParseApproval :: "bytes \<Rightarrow> verifier_code + approval" where
  "ParseApproval raw =
     (case unmarshal set_document zero_document raw of
        None \<Rightarrow> Inl CodeApprovalInvalid
      | Some d \<Rightarrow>
          if ad_schema_version d \<noteq> ApprovalSchemaVersion then Inl CodeApprovalSchema
          else if ad_verifier_schema d \<noteq> VerifierSchemaVersion then Inl CodeVerifierSchema
          else if ap_abi (ad_plugin d) \<noteq> 1 then Inl CodeApprovalABI
          else if ap_rpc_schema (ad_plugin d) \<noteq> 3 then Inl CodeApprovalRPC
          else if \<not> validApprovalDocument d then Inl CodeApprovalInvalid
          else Inr \<lparr>aa_schema_version = ad_schema_version d, aa_verifier_schema = ad_verifier_schema d,
            aa_cli = \<lparr>cl_version = ac_tag (ad_cli d), cl_sha256 = ac_binary_sha256 (ad_cli d), cl_arch = ac_arch (ad_cli d)\<rparr>,
            aa_plugin = \<lparr>pg_version = ap_version (ad_plugin d), pg_sha256 = ap_sha256 (ad_plugin d),
              pg_abi = ap_abi (ad_plugin d), pg_rpc = ap_rpc_schema (ad_plugin d)\<rparr>\<rparr>)"

subsection \<open>Artifacts\<close>

record artifacts =
  at_arch :: bytes
  at_cli_hash :: bytes
  at_plugin_hash :: bytes

definition hashEqual :: "bytes \<Rightarrow> bytes \<Rightarrow> bool" where
  "hashEqual actual approved =
     (if length actual \<noteq> length approved \<or> length approved \<noteq> 64 then False else actual = approved)"

definition VerifyArtifacts :: "bytes \<Rightarrow> approval \<Rightarrow> artifacts \<Rightarrow> verifier_result" where
  "VerifyArtifacts phase a arts =
     (if at_arch arts \<noteq> cl_arch (aa_cli a) then phaseFailure phase CodeArchitectureMismatch
      else if \<not> hashEqual (at_cli_hash arts) (cl_sha256 (aa_cli a)) then phaseFailure phase CodeCLIHashMismatch
      else if \<not> hashEqual (at_plugin_hash arts) (pg_sha256 (aa_plugin a)) then phaseFailure phase CodePluginHashMismatch
      else compatible)"

subsection \<open>The approval file and the credential\<close>

definition maxApprovalBytes :: nat where "maxApprovalBytes = 65536"
definition maxCredentialBytes :: nat where "maxCredentialBytes = 4096"

record file_info =
  fi_regular :: bool
  fi_perm :: u32
  fi_uid :: "nat option"

text \<open>\<open>fi_uid\<close> is \<open>None\<close> when the platform's structure is not there.\<close>

definition trustedApprovalFile :: "file_info \<Rightarrow> bool" where
  "trustedApprovalFile info =
     (if \<not> fi_regular info \<or> Bit_Operations.and (fi_perm info) 18 \<noteq> 0 then False else fi_uid info = Some 0)"

text \<open>
  Reading through a limit: the first bytes when there are that many, otherwise all of them unless the
  read fails.
\<close>

definition read_up_to :: "nat \<Rightarrow> bytes \<times> bool \<Rightarrow> bytes option" where
  "read_up_to limit source =
     (if limit \<le> length (fst source) then Some (take limit (fst source)) else if snd source then None else Some (fst source))"

definition LoadApprovalFile :: "file_info option \<Rightarrow> (bytes \<times> bool) option \<Rightarrow> verifier_code + approval" where
  "LoadApprovalFile info file =
     (case info of
        None \<Rightarrow> Inl CodeApprovalRead
      | Some fi \<Rightarrow>
          if \<not> trustedApprovalFile fi then Inl CodeApprovalUntrusted
          else (case file of
            None \<Rightarrow> Inl CodeApprovalRead
          | Some f \<Rightarrow>
              (case read_up_to (maxApprovalBytes + 1) f of
                 None \<Rightarrow> Inl CodeApprovalRead
               | Some raw \<Rightarrow> if length raw > maxApprovalBytes then Inl CodeApprovalRead else ParseApproval raw)))"

definition validateCredential :: "bytes \<Rightarrow> verifier_code + bytes" where
  "validateCredential raw =
     (let credential = trim_space raw
      in if credential = [] \<or> contains_any [CHR 0x0D, CHR 0x0A, CHR 0x00] credential then Inl CodeCredentialInvalid
         else Inr credential)"

text \<open>The directory from the environment, and what the credential file in it holds.\<close>

definition readCredential :: "bytes \<Rightarrow> (bytes \<Rightarrow> bytes option) \<Rightarrow> verifier_code + bytes" where
  "readCredential directory_variable readFile =
     (let directory = trim_space directory_variable
      in if directory = [] then Inl CodeCredentialDirectory
         else (case readFile (path_clean (directory @ ''/'' @ ''cliproxyapi-management-key'')) of
                 None \<Rightarrow> Inl CodeCredentialRead
               | Some raw \<Rightarrow> validateCredential raw))"

definition ReadCredentialFrom :: "bytes \<times> bool \<Rightarrow> verifier_code + bytes" where
  "ReadCredentialFrom reader =
     (case read_up_to (maxCredentialBytes + 1) reader of
        None \<Rightarrow> Inl CodeCredentialRead
      | Some raw \<Rightarrow> if length raw > maxCredentialBytes then Inl CodeCredentialInvalid else validateCredential raw)"

subsection \<open>What an accepted document pins\<close>

text \<open>A cleaned relative path begins with its parent steps.\<close>

lemma clean_elems_parent:
  "out \<noteq> [] \<longrightarrow> last out \<noteq> ''..'' \<longrightarrow> ''..'' \<notin> set out \<Longrightarrow>
   clean_elems False out es \<noteq> [] \<longrightarrow> hd (clean_elems False out es) \<noteq> ''..'' \<longrightarrow> ''..'' \<notin> set (clean_elems False out es)"
proof (induction "False" out es rule: clean_elems.induct)
  case (1 out)
  then show ?case by (auto simp: hd_rev)
next
  case (2 out e es)
  consider "e = [] \<or> e = ''.''" | "e = ''..''" "out = []" | o' os where "e = ''..''" "out = o' # os"
    | "\<not> (e = [] \<or> e = ''.'')" "e \<noteq> ''..''" by (cases out) auto
  then show ?case
  proof cases
    case 1
    with 2 show ?thesis by simp
  next
    case 2
    with "2.hyps" show ?thesis by simp
  next
    case 3
    have "os \<noteq> [] \<longrightarrow> last os \<noteq> ''..'' \<longrightarrow> ''..'' \<notin> set os" if "o' \<noteq> ''..''"
      using "2.prems" 3 by auto
    moreover have "last (''..'' # o' # os) = ''..''" if "o' = ''..''"
      using "2.prems" 3 that by (metis last_ConsR list.discI list.set_intros(1))
    ultimately show ?thesis using 3 "2.hyps"(3) [of o' os] by (cases "o' = ''..''") simp_all
  next
    case 4
    have "last (e # out) \<noteq> ''..'' \<longrightarrow> ''..'' \<notin> set (e # out)" using "2.prems" 4 by (cases "out = []") auto
    with 4 "2.hyps"(4) show ?thesis by simp
  qed
qed

lemma clean_elems_subset: "e \<in> set (clean_elems False out es) \<Longrightarrow> e \<in> set out \<or> e \<in> set es \<or> e = ''..''"
  by (induction "False" out es rule: clean_elems.induct) (auto split: if_splits list.splits)

lemma clean_path_confined:
  assumes "p = path_clean p" "p \<noteq> []" "\<not> has_prefix ''/'' p" "p \<noteq> ''.''" "\<not> has_prefix ''../'' p" "p \<noteq> ''..''"
  shows "''..'' \<notin> set (split_byte (CHR ''/'') p)"
proof -
  let ?es = "clean_elems False [] (split_byte (CHR ''/'') p)"
  have p: "p = join ''/'' ?es"
  proof -
    have "path_clean p = (if join ''/'' ?es = [] then ''.'' else join ''/'' ?es)"
      using assms(2,3) by (simp add: path_clean_def Let_def)
    with assms(1,4) show ?thesis by (auto split: if_splits)
  qed
  then have ne: "?es \<noteq> []" using assms(2) by auto
  have "CHR ''/'' \<notin> set e" if "e \<in> set ?es" for e
    using clean_elems_subset [OF that] split_byte_no_sep by force
  then have "split_byte (CHR ''/'') p = ?es" using split_join [OF ne] p by metis
  moreover have "hd ?es \<noteq> ''..''"
  proof
    assume h: "hd ?es = ''..''"
    obtain rest where r: "?es = ''..'' # rest" using ne h by (metis list.collapse)
    have "p = ''..'' \<or> has_prefix ''../'' p"
    proof (cases rest)
      case Nil
      then show ?thesis using p unfolding r by simp
    next
      case (Cons x xs)
      then show ?thesis using p unfolding r by (simp add: has_prefix_iff)
    qed
    with assms(5,6) show False by blast
  qed
  ultimately show ?thesis using clean_elems_parent [of "[]" "split_byte (CHR ''/'') p"] ne by auto
qed

lemma check_files_some:
  "check_files d previous seen fs = Some out \<Longrightarrow>
   set out = set seen \<union> af_path ` set fs \<and> sorted_wrt (<) (map af_path fs) \<and> (previous \<noteq> [] \<longrightarrow> (\<forall>f\<in>set fs. previous < af_path f))
   \<and> (\<forall>f\<in>set fs. valid_file [] f \<and> (\<forall>h. required_hash d (af_path f) = Some h \<longrightarrow> af_sha256 f = h))"
proof (induction fs arbitrary: previous seen)
  case (Cons f fs)
  from Cons.prems have v: "valid_file previous f" and r: "check_files d (af_path f) (af_path f # seen) fs = Some out"
    and h: "\<forall>h. required_hash d (af_path f) = Some h \<longrightarrow> af_sha256 f = h"
    by (auto split: if_splits option.splits)
  have ne: "af_path f \<noteq> []" "previous \<noteq> [] \<longrightarrow> previous < af_path f" "valid_file [] f"
    using v by (auto simp: valid_file_def)
  from Cons.IH [OF r] ne h show ?case by (auto dest: less_trans)
qed simp

lemma version_within_zero: "list_all (\<lambda>c. 0 \<le> c) vs \<Longrightarrow> version_within vs [] \<longleftrightarrow> list_all (\<lambda>c. c = 0) vs"
  by (induction vs) auto

lemma atoi_all_some: "atoi_all parts = Some vs \<Longrightarrow> list_all (\<lambda>c. 0 \<le> c) vs \<and> length vs = length parts"
  by (induction parts arbitrary: vs) (auto split: option.splits if_splits)

text \<open>The version is at most 2.32, trailing zero components aside.\<close>

definition glibc_within :: "int list \<Rightarrow> bool" where
  "glibc_within vs \<longleftrightarrow> vs ! 0 < 2 \<or> vs ! 0 = 2 \<and> (vs ! 1 < 32 \<or> vs ! 1 = 32 \<and> list_all (\<lambda>c. c = 0) (drop 2 vs))"

lemma validGLIBCMax_iff:
  "validGLIBCMax v \<longleftrightarrow> (\<exists>vs. atoi_all (split_byte (CHR ''.'') v) = Some vs \<and> 2 \<le> length vs \<and> glibc_within vs)"
proof (cases "atoi_all (split_byte (CHR ''.'') v)")
  case (Some vs)
  note a = atoi_all_some [OF Some]
  show ?thesis
  proof (cases "2 \<le> length vs")
    case True
    then obtain x y zs where vs: "vs = x # y # zs" by (metis One_nat_def Suc_1 Suc_le_length_iff)
    with a have "version_within vs [2, 32] \<longleftrightarrow> glibc_within vs"
      by (auto simp: glibc_within_def version_within_zero)
    with True Some a show ?thesis by (simp add: validGLIBCMax_def Let_def)
  qed (use Some a in \<open>simp add: validGLIBCMax_def Let_def\<close>)
qed (simp add: validGLIBCMax_def Let_def)

definition file_pinned :: "approval_file list \<Rightarrow> bytes \<Rightarrow> bytes \<Rightarrow> bool" where
  "file_pinned files p h \<longleftrightarrow> p \<in> af_path ` set files \<and> (\<forall>f\<in>set files. af_path f = p \<longrightarrow> af_sha256 f = h)"

definition path_confined :: "bytes \<Rightarrow> bool" where
  "path_confined p \<longleftrightarrow> p = ''..'' \<or> \<not> has_prefix ''/'' p \<and> ''..'' \<notin> set (split_byte (CHR ''/'') p)"

lemma valid_file_confined: "valid_file previous f \<Longrightarrow> path_confined (af_path f)"
  using clean_path_confined [of "af_path f"] by (auto simp: valid_file_def path_confined_def)

lemma validApprovalDocument_facts:
  assumes "validApprovalDocument d"
  shows "ac_arch (ad_cli d) = ''linux-amd64''" "ap_version (ad_plugin d) = ''1.2.7''" "validGLIBCMax (ap_glibc_max (ad_plugin d))"
    "lowerSHA256Pattern (ac_binary_sha256 (ad_cli d))" "lowerSHA256Pattern (ap_sha256 (ad_plugin d))"
    "\<exists>seen. check_files d [] [] (slice_items (ad_files d)) = Some seen \<and> cli_path \<in> set seen \<and> plugin_path \<in> set seen"
  using assms unfolding validApprovalDocument_def Let_def
  by (auto split: if_splits option.splits)

text \<open>
  C18. An approval pins the release.  When a document is accepted, its file list is in strictly increasing
  order, every path is relative without a parent step, the bare \<open>..\<close> aside, the two artifacts are listed
  under exactly the hashes of the approval, the library bound is at most 2.32, and the artifacts on disk
  pass exactly when their hashes are the listed ones on the approved architecture.
\<close>
theorem approval_pins_files:
  assumes "ParseApproval raw = Inr a"
  shows "\<exists>d. unmarshal set_document zero_document raw = Some d
     \<and> sorted_wrt (<) (map af_path (slice_items (ad_files d)))
     \<and> (\<forall>f\<in>set (slice_items (ad_files d)). path_confined (af_path f))
     \<and> file_pinned (slice_items (ad_files d)) cli_path (cl_sha256 (aa_cli a))
     \<and> file_pinned (slice_items (ad_files d)) plugin_path (pg_sha256 (aa_plugin a))
     \<and> (\<exists>vs. atoi_all (split_byte (CHR ''.'') (ap_glibc_max (ad_plugin d))) = Some vs \<and> glibc_within vs)
     \<and> (\<forall>phase arts. vr_compatible (VerifyArtifacts phase a arts) \<longleftrightarrow>
          at_arch arts = ''linux-amd64'' \<and> at_cli_hash arts = cl_sha256 (aa_cli a) \<and> at_plugin_hash arts = pg_sha256 (aa_plugin a))"
proof -
  obtain d where d: "unmarshal set_document zero_document raw = Some d" "validApprovalDocument d"
      "cl_sha256 (aa_cli a) = ac_binary_sha256 (ad_cli d)" "cl_arch (aa_cli a) = ac_arch (ad_cli d)"
      "pg_sha256 (aa_plugin a) = ap_sha256 (ad_plugin d)"
    using assms by (auto simp: ParseApproval_def split: option.splits if_splits)
  note v = validApprovalDocument_facts [OF d(2)]
  obtain seen where seen: "check_files d [] [] (slice_items (ad_files d)) = Some seen" "cli_path \<in> set seen" "plugin_path \<in> set seen"
    using v(6) by blast
  note c = check_files_some [OF seen(1)]
  have pin: "file_pinned (slice_items (ad_files d)) p h" if "p \<in> set seen" "required_hash d p = Some h" for p h
    using c that unfolding file_pinned_def by auto
  have r: "required_hash d cli_path = Some (ac_binary_sha256 (ad_cli d))" "required_hash d plugin_path = Some (ap_sha256 (ad_plugin d))"
    by (simp_all add: required_hash_def cli_path_def plugin_path_def)
  have arts: "vr_compatible (VerifyArtifacts phase a arts) \<longleftrightarrow>
      at_arch arts = ''linux-amd64'' \<and> at_cli_hash arts = cl_sha256 (aa_cli a) \<and> at_plugin_hash arts = pg_sha256 (aa_plugin a)" for phase arts
    using v(1,4,5) d by (auto simp: VerifyArtifacts_def hashEqual_def phaseFailure_def blocked_def compatible_def lowerSHA256Pattern_def)
  show ?thesis
    using d(1,3,5) c pin [OF seen(2) r(1)] pin [OF seen(3) r(2)] v(3) arts by (auto simp: validGLIBCMax_iff intro: valid_file_confined)
qed

text \<open>The bare parent directory passes the test of a path.\<close>

lemma parent_path_accepted:
  "lowerSHA256Pattern h \<Longrightarrow> valid_file [] \<lparr>af_path = ''..'', af_sha256 = h, af_mode = ''0644''\<rparr>"
proof -
  have "path_clean ''..'' = ''..''" "modePattern ''0644''" by code_simp+
  then show "lowerSHA256Pattern h \<Longrightarrow> ?thesis" by (simp add: valid_file_def has_prefix_iff)
qed

text \<open>An approval document, as the release tool writes it.\<close>

definition demo_sha :: bytes where
  "demo_sha = concat (replicate 4 ''0123456789abcdef'')"

definition demo_document :: json where
  "demo_document = JObj
     [(''schema_version'', JNum ''2''), (''verifier_schema'', JNum ''1''),
      (''bundle'', JObj [(''deployment_id'', JStr ''release-1''), (''source_commit'', JStr ''0123456''),
         (''builder_digest'', JStr (''sha256:'' @ demo_sha))]),
      (''cli'', JObj [(''tag'', JStr ''v7.2.136''),
         (''archive_sha256'', JStr ''8f9160982bc2f26142f7b76a73fcc50f954c453470d5a6aefa81324ad18da288''),
         (''binary_sha256'', JStr demo_sha), (''arch'', JStr ''linux-amd64'')]),
      (''plugin'', JObj [(''id'', JStr ''token-saver''), (''version'', JStr ''1.2.7''), (''abi'', JNum ''1''), (''rpc_schema'', JNum ''3''),
         (''source_commit'', JStr ''0123456''), (''builder_digest'', JStr (''sha256:'' @ demo_sha)),
         (''glibc_max'', JStr ''2.17''), (''sha256'', JStr demo_sha)]),
      (''files'', JArr [JObj [(''path'', JStr cli_path), (''sha256'', JStr demo_sha), (''mode'', JStr ''0755'')],
         JObj [(''path'', JStr plugin_path), (''sha256'', JStr demo_sha), (''mode'', JStr ''0644'')]]),
      (''manifest_exclusions'', JArr [JStr ''approved-artifacts.json'', JStr ''SHA256SUMS''])]"

definition demo_approval :: approval where
  "demo_approval = \<lparr>aa_schema_version = 2, aa_verifier_schema = 1,
     aa_cli = \<lparr>cl_version = ''v7.2.136'', cl_sha256 = demo_sha, cl_arch = ''linux-amd64''\<rparr>,
     aa_plugin = \<lparr>pg_version = ''1.2.7'', pg_sha256 = demo_sha, pg_abi = 1, pg_rpc = 3\<rparr>\<rparr>"

lemma demo_document_good: "good_json demo_document 0"
  by code_simp

definition demo_decoded :: approval_document where
  "demo_decoded = \<lparr>ad_schema_version = 2, ad_verifier_schema = 1,
     ad_bundle = \<lparr>ab_deployment_id = ''release-1'', ab_source_commit = ''0123456'', ab_builder = ''sha256:'' @ demo_sha\<rparr>,
     ad_cli = \<lparr>ac_tag = ''v7.2.136'', ac_archive_sha256 = ''8f9160982bc2f26142f7b76a73fcc50f954c453470d5a6aefa81324ad18da288'',
       ac_binary_sha256 = demo_sha, ac_arch = ''linux-amd64''\<rparr>,
     ad_plugin = \<lparr>ap_id = ''token-saver'', ap_version = ''1.2.7'', ap_abi = 1, ap_rpc_schema = 3, ap_source_commit = ''0123456'',
       ap_builder = ''sha256:'' @ demo_sha, ap_glibc_max = ''2.17'', ap_sha256 = demo_sha\<rparr>,
     ad_files = \<lparr>gs_memory = [\<lparr>af_path = cli_path, af_sha256 = demo_sha, af_mode = ''0755''\<rparr>,
       \<lparr>af_path = plugin_path, af_sha256 = demo_sha, af_mode = ''0644''\<rparr>], gs_length = 2\<rparr>,
     ad_exclusions = \<lparr>gs_memory = [''approved-artifacts.json'', ''SHA256SUMS''], gs_length = 2\<rparr>\<rparr>"

lemma demo_numbers: "parse_int ''2'' = Some 2" "parse_int ''1'' = Some 1" "parse_int ''17'' = Some 17"
   "dec_u32 (JNum ''1'') 0 = Some 1" "dec_u32 (JNum ''3'') 0 = Some 3"
  by (simp_all add: parse_int_def parse_uint_def dec_u32_def dec_uint_def is_digit_def digits_val_def digit_val_def less_eq_char_def)

lemma demo_decodes: "dec_object set_document demo_document zero_document = Some demo_decoded"
  by (simp add: dec_object_def demo_document_def zero_document_def demo_decoded_def set_document_def set_bundle_def set_cli_def
      set_plugin_def set_file_def zero_file_def dec_slice_def nil_slice_def names_field_def dec_string_def dec_int_def demo_numbers
      lower_byte_def)

lemma demo_glibc: "validGLIBCMax ''2.17''"
  by (simp add: validGLIBCMax_def demo_numbers)

lemma demo_patterns:
  "deploymentIDPattern ''release-1''" "lowerCommitPattern ''0123456''" "digestPattern (''sha256:'' @ demo_sha)"
  "lowerSHA256Pattern demo_sha"
  by code_simp+

lemma demo_files:
  "check_files demo_decoded [] [] (slice_items (ad_files demo_decoded)) = Some [plugin_path, cli_path]"
proof -
  have paths: "path_clean cli_path = cli_path" "path_clean plugin_path = plugin_path" "modePattern ''0755''" "modePattern ''0644''"
      "cli_path < plugin_path" "\<not> has_prefix ''/'' cli_path" "\<not> has_prefix ''/'' plugin_path" "cli_path \<noteq> ''.''" "plugin_path \<noteq> ''.''"
      "\<not> has_prefix ''../'' cli_path" "\<not> has_prefix ''../'' plugin_path" "cli_path \<noteq> []" "plugin_path \<noteq> []" "cli_path \<noteq> plugin_path"
    by code_simp+
  then show ?thesis
    by (simp add: demo_decoded_def slice_items_def required_hash_def valid_file_def demo_patterns(4))
qed

lemma demo_valid: "validApprovalDocument demo_decoded"
  unfolding validApprovalDocument_def Let_def demo_files
  by (simp add: demo_decoded_def slice_items_def demo_patterns demo_patterns(3) [simplified] demo_glibc)

lemma demo_parse: "ParseApproval (json_marshal demo_document) = Inr demo_approval"
  using demo_valid
  by (simp add: ParseApproval_def unmarshal_def json_parse_marshal demo_document_good demo_decodes)
     (simp add: demo_decoded_def demo_approval_def ApprovalSchemaVersion_def VerifierSchemaVersion_def)

theorem approval_pins_files_witness:
  "vr_compatible (VerifyArtifacts PhasePreflight demo_approval
     \<lparr>at_arch = ''linux-amd64'', at_cli_hash = demo_sha, at_plugin_hash = demo_sha\<rparr>)"
  using approval_pins_files [OF demo_parse] by (auto simp: demo_approval_def)

end
