(* ===== verification/Verifier.thy ===== *)
theory Verifier
  imports Approval Endpoint Abi
begin

text \<open>
  \<open>tools/update-verifier\<close>: the checks of an installed release (\<open>verifier/client.go\<close>,
  \<open>verifier/health.go\<close>, \<open>main.go\<close>).  The network is an argument that answers the n-th request; a
  check threads the list of the requests sent so far, so that the theorems speak about what was sent.
\<close>

subsection \<open>Observations\<close>

record plugin_state =
  ps_found :: bool
  ps_registered :: bool
  ps_effective_enabled :: bool
  ps_version :: bytes

record observed_status =
  os_build_version :: bytes
  os_abi_version :: u32
  os_rpc_schema :: u32
  os_fixture_revision :: bytes
  os_live :: bool
  os_config :: bytes
  os_config_generation :: u64
  os_config_digest :: bytes
  os_pipeline :: bytes
  os_dependency :: bytes
  os_headroom_desired :: bool
  os_headroom_effective :: bool

record observed_self_test =
  ot_fixture_revision :: bytes
  ot_result :: bytes

record observation =
  ob_plugin :: plugin_state
  ob_before :: observed_status
  ob_after :: observed_status
  ob_config_digest :: bytes
  ob_self_test :: observed_self_test

definition zero_status :: observed_status where
  "zero_status = \<lparr>os_build_version = [], os_abi_version = 0, os_rpc_schema = 0, os_fixture_revision = [], os_live = False,
     os_config = [], os_config_generation = 0, os_config_digest = [], os_pipeline = [], os_dependency = [],
     os_headroom_desired = False, os_headroom_effective = False\<rparr>"

definition set_status :: "bytes \<Rightarrow> json \<Rightarrow> observed_status \<Rightarrow> observed_status option" where
  "set_status k v s =
     (if names_field ''build_version'' k then map_option (\<lambda>x. s\<lparr>os_build_version := x\<rparr>) (dec_string v (os_build_version s))
      else if names_field ''abi_version'' k then map_option (\<lambda>x. s\<lparr>os_abi_version := x\<rparr>) (dec_u32 v (os_abi_version s))
      else if names_field ''rpc_schema'' k then map_option (\<lambda>x. s\<lparr>os_rpc_schema := x\<rparr>) (dec_u32 v (os_rpc_schema s))
      else if names_field ''fixture_revision'' k then map_option (\<lambda>x. s\<lparr>os_fixture_revision := x\<rparr>) (dec_string v (os_fixture_revision s))
      else if names_field ''live'' k then map_option (\<lambda>x. s\<lparr>os_live := x\<rparr>) (dec_bool v (os_live s))
      else if names_field ''config'' k then map_option (\<lambda>x. s\<lparr>os_config := x\<rparr>) (dec_string v (os_config s))
      else if names_field ''config_generation'' k then map_option (\<lambda>x. s\<lparr>os_config_generation := x\<rparr>) (dec_u64 v (os_config_generation s))
      else if names_field ''config_digest'' k then map_option (\<lambda>x. s\<lparr>os_config_digest := x\<rparr>) (dec_string v (os_config_digest s))
      else if names_field ''pipeline'' k then map_option (\<lambda>x. s\<lparr>os_pipeline := x\<rparr>) (dec_string v (os_pipeline s))
      else if names_field ''dependency'' k then map_option (\<lambda>x. s\<lparr>os_dependency := x\<rparr>) (dec_string v (os_dependency s))
      else if names_field ''headroom_desired'' k then map_option (\<lambda>x. s\<lparr>os_headroom_desired := x\<rparr>) (dec_bool v (os_headroom_desired s))
      else if names_field ''headroom_effective'' k then map_option (\<lambda>x. s\<lparr>os_headroom_effective := x\<rparr>) (dec_bool v (os_headroom_effective s))
      else Some s)"

definition set_self_test :: "bytes \<Rightarrow> json \<Rightarrow> observed_self_test \<Rightarrow> observed_self_test option" where
  "set_self_test k v s =
     (if names_field ''fixture_revision'' k then map_option (\<lambda>x. s\<lparr>ot_fixture_revision := x\<rparr>) (dec_string v (ot_fixture_revision s))
      else if names_field ''result'' k then map_option (\<lambda>x. s\<lparr>ot_result := x\<rparr>) (dec_string v (ot_result s))
      else Some s)"

text \<open>The plugin list; the metadata is a pointer.\<close>

record plugin_entry =
  pe_id :: bytes
  pe_registered :: bool
  pe_effective_enabled :: bool
  pe_metadata :: "bytes option"

definition zero_entry :: plugin_entry where
  "zero_entry = \<lparr>pe_id = [], pe_registered = False, pe_effective_enabled = False, pe_metadata = None\<rparr>"

definition set_metadata :: "bytes \<Rightarrow> json \<Rightarrow> bytes \<Rightarrow> bytes option" where
  "set_metadata k v cur = (if names_field ''version'' k then dec_string v cur else Some cur)"

definition dec_metadata :: "json \<Rightarrow> bytes option \<Rightarrow> bytes option option" where
  "dec_metadata v cur =
     (if v = JNull then Some None
      else map_option Some (dec_object set_metadata v (case cur of None \<Rightarrow> [] | Some version \<Rightarrow> version)))"

definition set_entry :: "bytes \<Rightarrow> json \<Rightarrow> plugin_entry \<Rightarrow> plugin_entry option" where
  "set_entry k v e =
     (if names_field ''id'' k then map_option (\<lambda>x. e\<lparr>pe_id := x\<rparr>) (dec_string v (pe_id e))
      else if names_field ''registered'' k then map_option (\<lambda>x. e\<lparr>pe_registered := x\<rparr>) (dec_bool v (pe_registered e))
      else if names_field ''effective_enabled'' k
        then map_option (\<lambda>x. e\<lparr>pe_effective_enabled := x\<rparr>) (dec_bool v (pe_effective_enabled e))
      else if names_field ''metadata'' k then map_option (\<lambda>x. e\<lparr>pe_metadata := x\<rparr>) (dec_metadata v (pe_metadata e))
      else Some e)"

definition set_plugin_list :: "bytes \<Rightarrow> json \<Rightarrow> plugin_entry go_slice \<Rightarrow> plugin_entry go_slice option" where
  "set_plugin_list k v es =
     (if names_field ''plugins'' k then dec_slice (dec_object set_entry) zero_entry v es else Some es)"

text \<open>The first entry of the plugin.\<close>

fun find_plugin :: "plugin_entry list \<Rightarrow> plugin_state" where
  "find_plugin [] = \<lparr>ps_found = False, ps_registered = False, ps_effective_enabled = False, ps_version = []\<rparr>"
| "find_plugin (e # es) =
     (if pe_id e \<noteq> ''token-saver'' then find_plugin es
      else \<lparr>ps_found = True, ps_registered = pe_registered e, ps_effective_enabled = pe_effective_enabled e,
            ps_version = (case pe_metadata e of None \<Rightarrow> [] | Some version \<Rightarrow> version)\<rparr>)"

subsection \<open>The verdict\<close>

definition healthyTruth :: "observed_status \<Rightarrow> bool" where
  "healthyTruth s =
     (if os_pipeline s = ''all_bypassed'' then os_dependency s = ''disabled'' \<and> \<not> os_headroom_desired s \<and> \<not> os_headroom_effective s
      else if os_pipeline s = ''active'' then
        (if os_dependency s = ''disabled'' then \<not> os_headroom_desired s \<and> \<not> os_headroom_effective s
         else if os_dependency s = ''ready'' then os_headroom_desired s \<and> os_headroom_effective s
         else if os_dependency s = ''degraded'' then os_headroom_desired s \<and> \<not> os_headroom_effective s
         else False)
      else False)"

text \<open>One status of the loop; \<open>None\<close> goes on.\<close>

definition status_fault :: "bytes \<Rightarrow> approval \<Rightarrow> observed_status \<Rightarrow> verifier_result option" where
  "status_fault phase a s =
     (if os_build_version s \<noteq> pg_version (aa_plugin a) then Some (phaseFailure phase CodePluginVersionMismatch)
      else if os_abi_version s \<noteq> pg_abi (aa_plugin a) then Some (phaseFailure phase CodeABIMismatch)
      else if os_rpc_schema s \<noteq> pg_rpc (aa_plugin a) then Some (phaseFailure phase CodeRPCMismatch)
      else if os_fixture_revision s \<noteq> VerifierFixture then Some (phaseFailure phase CodeFixtureMismatch)
      else if \<not> os_live s \<or> \<not> healthyTruth s then Some (phaseFailure phase CodeRuntimeUnhealthy)
      else if os_config s \<noteq> ''valid'' then Some (phaseFailure phase CodeConfigInvalid)
      else None)"

definition EvaluateRuntime :: "bytes \<Rightarrow> approval \<Rightarrow> observation \<Rightarrow> verifier_result" where
  "EvaluateRuntime phase a obs =
     (let plugin = ob_plugin obs; before = ob_before obs; after = ob_after obs
      in if \<not> ps_found plugin then phaseFailure phase CodePluginMissing
         else if \<not> ps_registered plugin then phaseFailure phase CodePluginNotRegistered
         else if \<not> ps_effective_enabled plugin then phaseFailure phase CodePluginNotEffective
         else if ps_version plugin \<noteq> [] \<and> ps_version plugin \<noteq> pg_version (aa_plugin a)
           then phaseFailure phase CodePluginVersionMismatch
         else if os_config_generation before \<noteq> os_config_generation after \<or> os_config_digest before \<noteq> os_config_digest after
           then blocked CodeConfigRace
         else if ob_config_digest obs = [] \<or> ob_config_digest obs \<noteq> os_config_digest after then blocked CodeConfigDigestMismatch
         else (case status_fault phase a before of
                 Some r \<Rightarrow> r
               | None \<Rightarrow>
                   (case status_fault phase a after of
                      Some r \<Rightarrow> r
                    | None \<Rightarrow>
                        if ot_fixture_revision (ob_self_test obs) \<noteq> VerifierFixture then phaseFailure phase CodeFixtureMismatch
                        else if ot_result (ob_self_test obs) \<noteq> ''passed'' then phaseFailure phase CodeSelfTestFailed
                        else compatible)))"

subsection \<open>Requests\<close>

definition maxManagementBody :: nat where "maxManagementBody = 1048576"

record sent =
  sn_method :: bytes
  sn_url :: bytes
  sn_credential :: "bytes option"
  sn_body :: "bytes option"

record 'n verify_env =
  ve_architecture :: bytes
  ve_hash_file :: "bytes \<Rightarrow> bytes option"
  ve_polls :: nat
  ve_do :: "nat \<Rightarrow> sent \<Rightarrow> request_error + http_response"
  ve_yaml :: "'n yaml"
  ve_hash :: "bytes \<Rightarrow> bytes"

record verify_options =
  vo_base_url :: bytes
  vo_credential :: bytes
  vo_approval :: approval
  vo_phase :: bytes
  vo_cli_path :: bytes
  vo_plugin_path :: bytes

type_synonym 'x check = "sent list \<Rightarrow> 'x \<times> sent list"

definition send :: "'n verify_env \<Rightarrow> sent \<Rightarrow> (request_error + http_response) check" where
  "send env q trace = (ve_do env (length trace) q, trace @ [q])"

datatype request_failure = requestAuthFailure | requestFailure

definition answer :: "request_error + http_response \<Rightarrow> request_failure + bytes" where
  "answer got =
     (case got of
        Inl errDo \<Rightarrow> Inl requestFailure
      | Inr response \<Rightarrow>
          if hr_status response = 401 \<or> hr_status response = 403 then Inl requestAuthFailure
          else if hr_status response < 200 \<or> hr_status response \<ge> 300 then Inl requestFailure
          else (case read_limited (maxManagementBody + 1) response of
                  Inl errRead \<Rightarrow> Inl requestFailure
                | Inr raw \<Rightarrow> if length raw > maxManagementBody then Inl requestFailure else Inr raw))"

definition request_raw ::
  "'n verify_env \<Rightarrow> bytes \<Rightarrow> bytes \<Rightarrow> bytes \<Rightarrow> bytes option \<Rightarrow> (request_failure + bytes) check" where
  "request_raw env method endpoint credential body trace =
     (case send env \<lparr>sn_method = method, sn_url = endpoint, sn_credential = Some credential, sn_body = body\<rparr> trace of
        (got, trace') \<Rightarrow> (answer got, trace'))"

definition getRaw :: "'n verify_env \<Rightarrow> bytes \<Rightarrow> bytes \<Rightarrow> (request_failure + bytes) check" where
  "getRaw env endpoint credential = request_raw env ''GET'' endpoint credential None"

definition decoded :: "(bytes \<Rightarrow> 's option) \<Rightarrow> request_failure + bytes \<Rightarrow> request_failure + 's" where
  "decoded decode got =
     (case got of Inl outcome \<Rightarrow> Inl outcome
      | Inr raw \<Rightarrow> (case decode raw of None \<Rightarrow> Inl requestFailure | Some x \<Rightarrow> Inr x))"

definition getJSON :: "'n verify_env \<Rightarrow> bytes \<Rightarrow> bytes \<Rightarrow> (bytes \<Rightarrow> 's option) \<Rightarrow> (request_failure + 's) check" where
  "getJSON env endpoint credential decode trace =
     (case request_raw env ''GET'' endpoint credential None trace of (got, trace') \<Rightarrow> (decoded decode got, trace'))"

definition postJSON :: "'n verify_env \<Rightarrow> bytes \<Rightarrow> bytes \<Rightarrow> (bytes \<Rightarrow> 's option) \<Rightarrow> (request_failure + 's) check" where
  "postJSON env endpoint credential decode trace =
     (case request_raw env ''POST'' endpoint credential (Some ''{}'') trace of (got, trace') \<Rightarrow> (decoded decode got, trace'))"

definition requestFailureResult :: "bytes \<Rightarrow> request_failure \<Rightarrow> verifier_code \<Rightarrow> verifier_result" where
  "requestFailureResult phase outcome code =
     (if outcome = requestAuthFailure then blocked CodeManagementAuth else phaseFailure phase code)"

text \<open>Polling until the core answers; \<open>n\<close> ticks come before the deadline.\<close>

fun waitForCore :: "'n verify_env \<Rightarrow> bytes \<Rightarrow> nat \<Rightarrow> bool check" where
  "waitForCore env base n trace =
     (case send env \<lparr>sn_method = ''GET'', sn_url = base @ ''/healthz'', sn_credential = None, sn_body = None\<rparr> trace of
        (got, trace') \<Rightarrow>
          if (case got of Inl _ \<Rightarrow> False | Inr response \<Rightarrow> hr_status response = 200) then (True, trace')
          else (case n of 0 \<Rightarrow> (False, trace') | Suc k \<Rightarrow> waitForCore env base k trace'))"

declare waitForCore.simps [simp del]

text \<open>Steps over a state that may end early with a result.\<close>

definition or_result :: "('e \<Rightarrow> 'r) \<Rightarrow> ('t \<Rightarrow> ('e + 's) \<times> 't) \<Rightarrow> 't \<Rightarrow> ('r + 's) \<times> 't" where
  "or_result failed step trace =
     (case step trace of (Inl outcome, trace') \<Rightarrow> (Inl (failed outcome), trace') | (Inr x, trace') \<Rightarrow> (Inr x, trace'))"

definition and_then :: "('t \<Rightarrow> ('r + 's) \<times> 't) \<Rightarrow> ('s \<Rightarrow> 't \<Rightarrow> ('r + 'u) \<times> 't) \<Rightarrow> 't \<Rightarrow> ('r + 'u) \<times> 't" where
  "and_then step cont trace =
     (case step trace of (Inl r, trace') \<Rightarrow> (Inl r, trace') | (Inr x, trace') \<Rightarrow> cont x trace')"

definition no_request :: "'r + 's \<Rightarrow> 't \<Rightarrow> ('r + 's) \<times> 't" where
  "no_request r trace = (r, trace)"

definition plugins_path :: bytes where "plugins_path = ''/v0/management/plugins''"
definition status_path :: bytes where "status_path = ''/v0/management/plugins/token-saver/status''"
definition config_path :: bytes where "config_path = ''/v0/management/plugins/token-saver/config''"
definition self_test_path :: bytes where "self_test_path = ''/v0/management/plugins/token-saver/self-test''"

definition plugin_fault :: "bytes \<Rightarrow> plugin_state \<Rightarrow> verifier_result option" where
  "plugin_fault phase plugin =
     (if \<not> ps_found plugin then Some (phaseFailure phase CodePluginMissing)
      else if \<not> ps_registered plugin then Some (phaseFailure phase CodePluginNotRegistered)
      else if \<not> ps_effective_enabled plugin then Some (phaseFailure phase CodePluginNotEffective)
      else None)"

text \<open>Everything after the core is up.\<close>

definition get_status :: "'n verify_env \<Rightarrow> verify_options \<Rightarrow> bytes \<Rightarrow> (verifier_result + observed_status) check" where
  "get_status env opts base =
     or_result (\<lambda>outcome. requestFailureResult (vo_phase opts) outcome CodeRuntimeUnhealthy)
       (getJSON env (base @ status_path) (vo_credential opts) (unmarshal set_status zero_status))"

definition get_plugin :: "'n verify_env \<Rightarrow> verify_options \<Rightarrow> bytes \<Rightarrow> (verifier_result + plugin_state) check" where
  "get_plugin env opts base =
     and_then (or_result (\<lambda>outcome. requestFailureResult (vo_phase opts) outcome CodeManagementUnavailable)
         (getJSON env (base @ plugins_path) (vo_credential opts) (unmarshal set_plugin_list nil_slice)))
       (\<lambda>plugins. let plugin = find_plugin (slice_items plugins) in
          no_request (case plugin_fault (vo_phase opts) plugin of Some r \<Rightarrow> Inl r | None \<Rightarrow> Inr plugin))"

definition get_config :: "'n verify_env \<Rightarrow> verify_options \<Rightarrow> bytes \<Rightarrow> (verifier_result + config) check" where
  "get_config env opts base =
     and_then (or_result (\<lambda>outcome. requestFailureResult (vo_phase opts) outcome CodeManagementUnavailable)
         (getRaw env (base @ config_path) (vo_credential opts)))
       (\<lambda>configRaw. no_request (case Parse (ve_yaml env) configRaw of
          Inl errConfig \<Rightarrow> Inl (phaseFailure (vo_phase opts) CodeConfigInvalid)
        | Inr parsedConfig \<Rightarrow> Inr parsedConfig))"

definition run_self_test :: "'n verify_env \<Rightarrow> verify_options \<Rightarrow> bytes \<Rightarrow> (verifier_result + observed_self_test) check" where
  "run_self_test env opts base =
     or_result (\<lambda>outcome. requestFailureResult (vo_phase opts) outcome CodeSelfTestFailed)
       (postJSON env (base @ self_test_path) (vo_credential opts)
          (unmarshal set_self_test \<lparr>ot_fixture_revision = [], ot_result = []\<rparr>))"

definition observe :: "'n verify_env \<Rightarrow> verify_options \<Rightarrow> bytes \<Rightarrow> (verifier_result + observation) check" where
  "observe env opts base =
     and_then (get_plugin env opts base) (\<lambda>plugin.
     and_then (get_status env opts base) (\<lambda>before.
     and_then (get_config env opts base) (\<lambda>parsedConfig.
     and_then (run_self_test env opts base) (\<lambda>selfTest.
     and_then (get_status env opts base) (\<lambda>after.
     no_request (Inr \<lparr>ob_plugin = plugin, ob_before = before, ob_after = after,
       ob_config_digest = Digest (ve_hash env) parsedConfig, ob_self_test = selfTest\<rparr>))))))"

definition verify :: "'n verify_env \<Rightarrow> verify_options \<Rightarrow> verifier_result check" where
  "verify env opts trace =
     (let phase = vo_phase opts
      in if phase \<noteq> PhasePreflight \<and> phase \<noteq> PhasePostInstall then (blocked CodeApprovalInvalid, trace)
         else (case managementBaseURL (vo_base_url opts) of
           None \<Rightarrow> (blocked CodeManagementURL, trace)
         | Some base \<Rightarrow>
             (case (ve_hash_file env (vo_cli_path opts), ve_hash_file env (vo_plugin_path opts)) of
                (Some cliHash, Some pluginHash) \<Rightarrow>
                  let result = VerifyArtifacts phase (vo_approval opts)
                    \<lparr>at_arch = ve_architecture env, at_cli_hash = cliHash, at_plugin_hash = pluginHash\<rparr>
                  in if \<not> vr_compatible result then (result, trace)
                     else (case waitForCore env base (ve_polls env) trace of
                       (up, trace1) \<Rightarrow>
                         if \<not> up then (phaseFailure phase CodeCoreUnavailable, trace1)
                         else (case observe env opts base trace1 of
                           (Inl r, trace2) \<Rightarrow> (r, trace2)
                         | (Inr obs, trace2) \<Rightarrow> (EvaluateRuntime phase (vo_approval opts) obs, trace2)))
              | _ \<Rightarrow> (blocked CodeArtifactRead, trace))))"

subsection \<open>The command\<close>

record verifier_flags =
  vf_base_url :: bytes
  vf_approval :: bytes
  vf_cli :: bytes
  vf_plugin :: bytes
  vf_phase :: bytes
  vf_credential_stdin :: bool

definition exit_code :: "verifier_result \<Rightarrow> int" where
  "exit_code r =
     (if vr_compatible r then 0 else if vr_classification r = ClassificationCandidateFailure then 3 else 2)"

text \<open>
  \<open>flags\<close> is \<open>None\<close> when the arguments do not parse; \<open>stdin_credential\<close> and
  \<open>env_credential\<close> are the two ways to read the credential.
\<close>

definition run ::
  "'n verify_env \<Rightarrow> (bytes \<Rightarrow> verifier_code + approval) \<Rightarrow> verifier_code + bytes \<Rightarrow> verifier_code + bytes \<Rightarrow>
   verifier_flags option \<Rightarrow> (verifier_result \<times> int) \<times> sent list" where
  "run env load_approval stdin_credential env_credential flags =
     (let write_result = (\<lambda>(r, trace). ((r, exit_code r), trace))
      in case flags of
           None \<Rightarrow> write_result (blocked CodeApprovalInvalid, [])
         | Some f \<Rightarrow>
             if vf_phase f \<noteq> PhasePreflight \<and> vf_phase f \<noteq> PhasePostInstall then write_result (blocked CodeApprovalInvalid, [])
             else (case load_approval (vf_approval f) of
               Inl code \<Rightarrow> write_result (blocked code, [])
             | Inr a \<Rightarrow>
                 (case (if vf_credential_stdin f then stdin_credential else env_credential) of
                    Inl code \<Rightarrow> write_result (blocked code, [])
                  | Inr credential \<Rightarrow>
                      write_result (verify env \<lparr>vo_base_url = vf_base_url f, vo_credential = credential, vo_approval = a,
                        vo_phase = vf_phase f, vo_cli_path = vf_cli f, vo_plugin_path = vf_plugin f\<rparr> []))))"

subsection \<open>What a verification sends\<close>

text \<open>\<open>sends P n step\<close>: the step adds at most \<open>n\<close> requests, each in \<open>P\<close>.\<close>

definition sends :: "(sent \<Rightarrow> bool) \<Rightarrow> nat \<Rightarrow> 'x check \<Rightarrow> bool" where
  "sends P n step \<longleftrightarrow> (\<forall>trace. \<exists>new. snd (step trace) = trace @ new \<and> list_all P new \<and> length new \<le> n)"

named_theorems sends_rules
  \<open>what the combinators send\<close>

lemma sends_no_request [sends_rules]: "sends P 0 (no_request r)"
  by (simp add: sends_def no_request_def)

lemma sends_or_result [sends_rules]: "sends P n step \<Longrightarrow> sends P n (or_result failed step)"
proof -
  have "snd (or_result failed step trace) = snd (step trace)" for trace
    by (simp add: or_result_def split: prod.split sum.split)
  then show "sends P n step \<Longrightarrow> ?thesis" by (simp add: sends_def)
qed

lemma sends_and_then [sends_rules]:
  assumes "sends P n step" "\<And>x. sends P m (cont x)" "k = n + m"
  shows "sends P k (and_then step cont)"
proof (unfold sends_def, intro allI)
  fix trace
  obtain new where 1: "snd (step trace) = trace @ new" "list_all P new" "length new \<le> n"
    using assms(1) unfolding sends_def by blast
  show "\<exists>new. snd (and_then step cont trace) = trace @ new \<and> list_all P new \<and> length new \<le> k"
  proof (cases "fst (step trace)")
    case (Inl r)
    then show ?thesis using 1 assms(3) by (intro exI [of _ new]) (auto simp: and_then_def case_prod_unfold)
  next
    case (Inr x)
    obtain new' where 2: "snd (cont x (trace @ new)) = (trace @ new) @ new'" "list_all P new'" "length new' \<le> m"
      using assms(2) unfolding sends_def by blast
    then show ?thesis using 1 assms(3) Inr by (intro exI [of _ "new @ new'"]) (auto simp: and_then_def case_prod_unfold)
  qed
qed

lemma sends_request_raw [sends_rules]:
  "P \<lparr>sn_method = method, sn_url = endpoint, sn_credential = Some credential, sn_body = body\<rparr> \<Longrightarrow>
   sends P 1 (request_raw env method endpoint credential body)"
  by (simp add: sends_def request_raw_def send_def)

lemma sends_getRaw [sends_rules]:
  "P \<lparr>sn_method = ''GET'', sn_url = endpoint, sn_credential = Some credential, sn_body = None\<rparr> \<Longrightarrow>
   sends P 1 (getRaw env endpoint credential)"
  unfolding getRaw_def by (rule sends_request_raw)

lemma sends_JSON [sends_rules]:
  "P \<lparr>sn_method = ''GET'', sn_url = endpoint, sn_credential = Some credential, sn_body = None\<rparr> \<Longrightarrow>
   sends P 1 (getJSON env endpoint credential decode)"
  "P \<lparr>sn_method = ''POST'', sn_url = endpoint, sn_credential = Some credential, sn_body = Some ''{}''\<rparr> \<Longrightarrow>
   sends P 1 (postJSON env endpoint credential decode)"
  by (simp_all add: sends_def getJSON_def postJSON_def request_raw_def send_def)

lemma sends_waitForCore:
  "P \<lparr>sn_method = ''GET'', sn_url = base @ ''/healthz'', sn_credential = None, sn_body = None\<rparr> \<Longrightarrow>
   \<exists>new. snd (waitForCore env base n trace) = trace @ new \<and> list_all P new \<and> length new \<le> Suc n"
proof (induction n arbitrary: trace)
  case 0
  then show ?case by (simp add: waitForCore.simps [of env base 0] send_def)
next
  case (Suc n)
  let ?q = "\<lparr>sn_method = ''GET'', sn_url = base @ ''/healthz'', sn_credential = None, sn_body = None\<rparr>"
  obtain new where "snd (waitForCore env base n (trace @ [?q])) = (trace @ [?q]) @ new" "list_all P new" "length new \<le> Suc n"
    using Suc by blast
  then have "\<exists>new'. snd (waitForCore env base n (trace @ [?q])) = trace @ new' \<and> list_all P new' \<and> length new' \<le> Suc (Suc n)"
    using Suc.prems by (intro exI [of _ "?q # new"]) simp
  moreover have "\<exists>new'. trace @ [?q] = trace @ new' \<and> list_all P new' \<and> length new' \<le> Suc (Suc n)"
    using Suc.prems by (intro exI [of _ "[?q]"]) simp
  ultimately show ?case by (simp add: waitForCore.simps [of env base "Suc n"] send_def)
qed

text \<open>The requests a verification may send: the credential goes to the management paths only.\<close>

definition allowed_requests :: "bytes \<Rightarrow> bytes \<Rightarrow> sent list" where
  "allowed_requests base credential =
     [\<lparr>sn_method = ''GET'', sn_url = base @ ''/healthz'', sn_credential = None, sn_body = None\<rparr>,
      \<lparr>sn_method = ''GET'', sn_url = base @ plugins_path, sn_credential = Some credential, sn_body = None\<rparr>,
      \<lparr>sn_method = ''GET'', sn_url = base @ status_path, sn_credential = Some credential, sn_body = None\<rparr>,
      \<lparr>sn_method = ''GET'', sn_url = base @ config_path, sn_credential = Some credential, sn_body = None\<rparr>,
      \<lparr>sn_method = ''POST'', sn_url = base @ self_test_path, sn_credential = Some credential, sn_body = Some ''{}''\<rparr>]"

abbreviation allowed :: "bytes \<Rightarrow> bytes \<Rightarrow> sent \<Rightarrow> bool" where
  "allowed base credential q \<equiv> q \<in> set (allowed_requests base credential)"

lemma sends_observe: "sends (allowed base (vo_credential opts)) 5 (observe env opts base)"
  unfolding observe_def get_plugin_def get_config_def get_status_def run_self_test_def Let_def
  by (rule sends_rules | simp add: allowed_requests_def)+

lemma sends_verify_checks:
  assumes "waitForCore env base n trace = (up, trace1)"
  shows "\<exists>new. trace1 = trace @ new \<and> list_all (allowed base (vo_credential opts)) new \<and> length new \<le> Suc n"
    and "\<exists>new. snd (observe env opts base trace1) = trace @ new \<and> list_all (allowed base (vo_credential opts)) new \<and> length new \<le> n + 6"
proof -
  show 1: "\<exists>new. trace1 = trace @ new \<and> list_all (allowed base (vo_credential opts)) new \<and> length new \<le> Suc n"
    using sends_waitForCore [of "allowed base (vo_credential opts)" base env n trace] assms by (simp add: allowed_requests_def)
  then obtain new where new: "trace1 = trace @ new" "list_all (allowed base (vo_credential opts)) new" "length new \<le> Suc n" by blast
  obtain new' where "snd (observe env opts base trace1) = trace1 @ new'" "list_all (allowed base (vo_credential opts)) new'" "length new' \<le> 5"
    using sends_observe [of base opts env] unfolding sends_def by blast
  with new show "\<exists>new. snd (observe env opts base trace1) = trace @ new \<and> list_all (allowed base (vo_credential opts)) new \<and> length new \<le> n + 6"
    by (intro exI [of _ "new @ new'"]) auto
qed

lemma VerifyArtifacts_compatible:
  "vr_compatible (VerifyArtifacts phase a arts) \<longleftrightarrow> at_arch arts = cl_arch (aa_cli a)
     \<and> at_cli_hash arts = cl_sha256 (aa_cli a) \<and> length (cl_sha256 (aa_cli a)) = 64
     \<and> at_plugin_hash arts = pg_sha256 (aa_plugin a) \<and> length (pg_sha256 (aa_plugin a)) = 64"
  by (auto simp: VerifyArtifacts_def hashEqual_def phaseFailure_def blocked_def compatible_def)

text \<open>The installed files have the approved hashes.\<close>

definition artifacts_approved :: "'n verify_env \<Rightarrow> verify_options \<Rightarrow> bool" where
  "artifacts_approved env opts \<longleftrightarrow> ve_architecture env = cl_arch (aa_cli (vo_approval opts))
     \<and> ve_hash_file env (vo_cli_path opts) = Some (cl_sha256 (aa_cli (vo_approval opts)))
     \<and> ve_hash_file env (vo_plugin_path opts) = Some (pg_sha256 (aa_plugin (vo_approval opts)))"

lemma failure_incompatible [simp]: "\<not> vr_compatible (phaseFailure phase code)" "\<not> vr_compatible (blocked code)" "vr_compatible compatible"
  by (simp_all add: phaseFailure_def blocked_def compatible_def)

text \<open>The failures a check ends with.\<close>

definition failure_of :: "bytes \<Rightarrow> verifier_result \<Rightarrow> bool" where
  "failure_of phase r \<longleftrightarrow> (\<exists>code. r = phaseFailure phase code \<or> r = blocked code)"

definition fails_with :: "(verifier_result \<Rightarrow> bool) \<Rightarrow> (verifier_result + 's) check \<Rightarrow> bool" where
  "fails_with Q step \<longleftrightarrow> (\<forall>trace r trace'. step trace = (Inl r, trace') \<longrightarrow> Q r)"

lemma failure_ofI [simp]: "failure_of phase (phaseFailure phase code)" "failure_of phase (blocked code)"
  by (auto simp: failure_of_def)

lemma failure_request: "failure_of phase (requestFailureResult phase outcome code)"
  by (simp add: requestFailureResult_def)

lemma fails_and_then: "fails_with Q step \<Longrightarrow> (\<And>x. fails_with Q (cont x)) \<Longrightarrow> fails_with Q (and_then step cont)"
  unfolding fails_with_def and_then_def by (auto split: prod.splits sum.splits)

lemma fails_or_result: "(\<And>outcome. Q (failed outcome)) \<Longrightarrow> fails_with Q (or_result failed step)"
  unfolding fails_with_def or_result_def by (auto split: prod.splits sum.splits)

lemma fails_no_request: "(\<And>r. x = Inl r \<Longrightarrow> Q r) \<Longrightarrow> fails_with Q (no_request x)"
  by (auto simp: fails_with_def no_request_def)

lemma observe_fails: "fails_with (failure_of (vo_phase opts)) (observe env opts base)"
  unfolding observe_def get_plugin_def get_config_def get_status_def run_self_test_def Let_def plugin_fault_def
  by (intro fails_and_then fails_or_result fails_no_request failure_request)
    (auto split: if_splits sum.splits option.splits)

lemma observe_failure: "observe env opts base trace = (Inl r, trace') \<Longrightarrow> failure_of (vo_phase opts) r"
  using observe_fails [of opts env base] unfolding fails_with_def by blast

lemma failure_of_facts:
  "failure_of phase r \<Longrightarrow> \<not> vr_compatible r"
  "failure_of phase r \<Longrightarrow> vr_classification r = ClassificationCandidateFailure \<Longrightarrow> phase = PhasePostInstall"
  by (auto simp: failure_of_def phaseFailure_def blocked_def split: if_splits)

definition verdict_of :: "bytes \<Rightarrow> verifier_result \<Rightarrow> bool" where
  "verdict_of phase r \<longleftrightarrow> r = compatible \<or> failure_of phase r"

lemma verdict_ofI:
  "verdict_of phase compatible" "verdict_of phase (phaseFailure phase code)" "verdict_of phase (blocked code)"
  "verdict_of phase r1 \<Longrightarrow> verdict_of phase r2 \<Longrightarrow> verdict_of phase (if c then r1 else r2)"
  by (simp_all add: verdict_of_def)

lemma verdict_status:
  "verdict_of phase x \<Longrightarrow> verdict_of phase (case status_fault phase a s of Some r \<Rightarrow> r | None \<Rightarrow> x)"
proof -
  have "failure_of phase r" if "status_fault phase a s = Some r" for r
    using that by (auto simp: status_fault_def split: if_splits)
  then show "verdict_of phase x \<Longrightarrow> ?thesis" by (auto simp: verdict_of_def split: option.split)
qed

lemma EvaluateRuntime_result: "verdict_of phase (EvaluateRuntime phase a obs)"
  unfolding EvaluateRuntime_def Let_def by (intro verdict_ofI verdict_status)

lemma VerifyArtifacts_result: "verdict_of phase (VerifyArtifacts phase a arts)"
  unfolding VerifyArtifacts_def by (intro verdict_ofI)

lemma verify_blocked:
  assumes "vo_phase opts \<noteq> PhasePreflight \<and> vo_phase opts \<noteq> PhasePostInstall \<or> managementBaseURL (vo_base_url opts) = None
    \<or> ve_hash_file env (vo_cli_path opts) = None \<or> ve_hash_file env (vo_plugin_path opts) = None"
  shows "\<exists>code. verify env opts trace = (blocked code, trace)"
  using assms by (cases "managementBaseURL (vo_base_url opts)"; cases "ve_hash_file env (vo_cli_path opts)"; cases "ve_hash_file env (vo_plugin_path opts)")
    (auto simp: verify_def Let_def)

lemma verify_cases:
  "verify env opts trace = (fst (verify env opts trace), trace) \<and> failure_of (vo_phase opts) (fst (verify env opts trace))
   \<or> (\<exists>base up trace1. managementBaseURL (vo_base_url opts) = Some base \<and> artifacts_approved env opts
        \<and> (vo_phase opts = PhasePreflight \<or> vo_phase opts = PhasePostInstall)
        \<and> waitForCore env base (ve_polls env) trace = (up, trace1)
        \<and> verify env opts trace =
            (if \<not> up then (phaseFailure (vo_phase opts) CodeCoreUnavailable, trace1)
             else case observe env opts base trace1 of
                    (Inl r, trace2) \<Rightarrow> (r, trace2)
                  | (Inr obs, trace2) \<Rightarrow> (EvaluateRuntime (vo_phase opts) (vo_approval opts) obs, trace2)))"
proof -
  consider code where "verify env opts trace = (blocked code, trace)"
    | base c p where "vo_phase opts = PhasePreflight \<or> vo_phase opts = PhasePostInstall"
        "managementBaseURL (vo_base_url opts) = Some base"
        "ve_hash_file env (vo_cli_path opts) = Some c" "ve_hash_file env (vo_plugin_path opts) = Some p"
    using verify_blocked [of opts env trace] by (metis option.exhaust)
  then show ?thesis
  proof cases
    case 2
    let ?r = "VerifyArtifacts (vo_phase opts) (vo_approval opts) \<lparr>at_arch = ve_architecture env, at_cli_hash = c, at_plugin_hash = p\<rparr>"
    obtain up trace1 where w: "waitForCore env base (ve_polls env) trace = (up, trace1)" by fastforce
    have phase: "(vo_phase opts \<noteq> PhasePreflight \<and> vo_phase opts \<noteq> PhasePostInstall) = False" using 2(1) by blast
    note v = verify_def [of env opts trace, unfolded Let_def phase 2(2,3,4) w if_False option.case prod.case]
    show ?thesis
    proof (cases "vr_compatible ?r")
      case True
      then have "artifacts_approved env opts" using 2(3,4) by (simp add: artifacts_approved_def VerifyArtifacts_compatible)
      moreover have "verify env opts trace =
            (if \<not> up then (phaseFailure (vo_phase opts) CodeCoreUnavailable, trace1)
             else case observe env opts base trace1 of
                    (Inl r, trace2) \<Rightarrow> (r, trace2)
                  | (Inr obs, trace2) \<Rightarrow> (EvaluateRuntime (vo_phase opts) (vo_approval opts) obs, trace2))"
        using True v by simp
      ultimately show ?thesis using 2(1,2) w by blast
    next
      case False
      then have "verify env opts trace = (?r, trace)" using v by simp
      moreover have "failure_of (vo_phase opts) ?r"
        using False VerifyArtifacts_result [of "vo_phase opts"] failure_incompatible(3) unfolding verdict_of_def by metis
      ultimately show ?thesis by simp
    qed
  qed simp
qed

lemma verify_trace:
  "snd (verify env opts trace) = trace
   \<or> (\<exists>base up trace1. managementBaseURL (vo_base_url opts) = Some base \<and> artifacts_approved env opts
        \<and> waitForCore env base (ve_polls env) trace = (up, trace1)
        \<and> snd (verify env opts trace) = (if up then snd (observe env opts base trace1) else trace1))"
proof -
  consider "verify env opts trace = (fst (verify env opts trace), trace)" | base up trace1 where
      "managementBaseURL (vo_base_url opts) = Some base" "artifacts_approved env opts"
      "waitForCore env base (ve_polls env) trace = (up, trace1)"
      "verify env opts trace =
         (if \<not> up then (phaseFailure (vo_phase opts) CodeCoreUnavailable, trace1)
          else case observe env opts base trace1 of
                 (Inl r, trace2) \<Rightarrow> (r, trace2)
               | (Inr obs, trace2) \<Rightarrow> (EvaluateRuntime (vo_phase opts) (vo_approval opts) obs, trace2))"
    using verify_cases [of env opts trace] by blast
  then show ?thesis
  proof cases
    case 1
    then show ?thesis by (metis snd_conv)
  next
    case 2
    have "snd (verify env opts trace) = (if up then snd (observe env opts base trace1) else trace1)"
      unfolding 2(4) by (simp split: prod.split sum.split)
    with 2(1,2,3) show ?thesis by blast
  qed
qed


text \<open>What an accepted runtime looks like.\<close>

definition status_accepted :: "approval \<Rightarrow> observed_status \<Rightarrow> bool" where
  "status_accepted a s \<longleftrightarrow> os_build_version s = pg_version (aa_plugin a) \<and> os_abi_version s = pg_abi (aa_plugin a)
     \<and> os_rpc_schema s = pg_rpc (aa_plugin a) \<and> os_fixture_revision s = VerifierFixture \<and> os_live s \<and> healthyTruth s
     \<and> os_config s = ''valid''"

definition observation_accepted :: "approval \<Rightarrow> observation \<Rightarrow> bool" where
  "observation_accepted a obs \<longleftrightarrow> ps_found (ob_plugin obs) \<and> ps_registered (ob_plugin obs) \<and> ps_effective_enabled (ob_plugin obs)
     \<and> (ps_version (ob_plugin obs) = [] \<or> ps_version (ob_plugin obs) = pg_version (aa_plugin a))
     \<and> os_config_generation (ob_before obs) = os_config_generation (ob_after obs)
     \<and> os_config_digest (ob_before obs) = os_config_digest (ob_after obs)
     \<and> ob_config_digest obs \<noteq> [] \<and> ob_config_digest obs = os_config_digest (ob_after obs)
     \<and> status_accepted a (ob_before obs) \<and> status_accepted a (ob_after obs)
     \<and> ot_fixture_revision (ob_self_test obs) = VerifierFixture \<and> ot_result (ob_self_test obs) = ''passed''"

lemma status_fault_None: "status_fault phase a s = None \<longleftrightarrow> status_accepted a s"
  by (auto simp: status_fault_def status_accepted_def)

lemma status_fault_incompatible: "status_fault phase a s = Some r \<Longrightarrow> \<not> vr_compatible r"
  by (auto simp: status_fault_def split: if_splits)

text \<open>A guard that returns a failure, and a status of the loop.\<close>

lemma guard_compatible:
  "vr_compatible (if c then phaseFailure phase code else x) \<longleftrightarrow> \<not> c \<and> vr_compatible x"
  "vr_compatible (if c then blocked code else x) \<longleftrightarrow> \<not> c \<and> vr_compatible x"
  by simp_all

lemma status_compatible:
  "vr_compatible (case status_fault phase a s of Some r \<Rightarrow> r | None \<Rightarrow> x) \<longleftrightarrow> status_accepted a s \<and> vr_compatible x"
  using status_fault_None [of phase a s] status_fault_incompatible [of phase a s] by (cases "status_fault phase a s") auto

lemma EvaluateRuntime_compatible: "vr_compatible (EvaluateRuntime phase a obs) \<longleftrightarrow> observation_accepted a obs"
  unfolding EvaluateRuntime_def Let_def guard_compatible status_compatible observation_accepted_def by auto

subsection \<open>The exit code\<close>

lemma verify_result: "verdict_of (vo_phase opts) (fst (verify env opts trace))"
proof -
  consider "failure_of (vo_phase opts) (fst (verify env opts trace))" | base up trace1 where "verify env opts trace =
            (if \<not> up then (phaseFailure (vo_phase opts) CodeCoreUnavailable, trace1)
             else case observe env opts base trace1 of
                    (Inl r, trace2) \<Rightarrow> (r, trace2)
                  | (Inr obs, trace2) \<Rightarrow> (EvaluateRuntime (vo_phase opts) (vo_approval opts) obs, trace2))"
    using verify_cases [of env opts trace] by blast
  then show ?thesis
  proof cases
    case 2
    obtain got trace2 where o: "observe env opts base trace1 = (got, trace2)" by fastforce
    show ?thesis
      using 2 o observe_failure [of env opts base trace1] EvaluateRuntime_result by (cases up; cases got) (auto simp: verdict_of_def)
  qed (simp add: verdict_of_def)
qed

lemma verify_classification:
  "vr_classification (fst (verify env opts trace)) = ClassificationCandidateFailure \<Longrightarrow> vo_phase opts = PhasePostInstall"
  using verify_result [of opts env trace] failure_of_facts(2) unfolding verdict_of_def by (auto simp: compatible_def)

lemma verify_compatible:
  assumes "vr_compatible (fst (verify env opts trace))"
  shows "artifacts_approved env opts \<and> (\<exists>base. managementBaseURL (vo_base_url opts) = Some base)
     \<and> (\<exists>obs. observation_accepted (vo_approval opts) obs)"
proof -
  obtain base up trace1 where v: "managementBaseURL (vo_base_url opts) = Some base" "artifacts_approved env opts"
      "verify env opts trace =
            (if \<not> up then (phaseFailure (vo_phase opts) CodeCoreUnavailable, trace1)
             else case observe env opts base trace1 of
                    (Inl r, trace2) \<Rightarrow> (r, trace2)
                  | (Inr obs, trace2) \<Rightarrow> (EvaluateRuntime (vo_phase opts) (vo_approval opts) obs, trace2))"
    using verify_cases [of env opts trace] assms failure_of_facts(1) by blast
  obtain got trace2 where o: "observe env opts base trace1 = (got, trace2)" by fastforce
  have up: "up" using assms v(3) by (cases up) auto
  show ?thesis
  proof (cases got)
    case (Inl r)
    then have "vr_compatible r" using assms v(3) up o by simp
    moreover have "\<not> vr_compatible r" using observe_failure [of env opts base trace1] failure_of_facts(1) o Inl by blast
    ultimately show ?thesis by blast
  next
    case (Inr obs)
    then have "vr_compatible (EvaluateRuntime (vo_phase opts) (vo_approval opts) obs)" using assms v(3) up o by simp
    with v(1,2) show ?thesis unfolding EvaluateRuntime_compatible by blast
  qed
qed


text \<open>A whole run that ends with 0: the answers of a healthy plugin with all stages off.\<close>

definition demo_plugins :: json where
  "demo_plugins = JObj [(''plugins'', JArr [JObj [(''id'', JStr ''token-saver''), (''registered'', JBool True),
     (''effective_enabled'', JBool True), (''metadata'', JObj [(''version'', JStr ''1.2.7'')])]])]"

definition demo_status :: json where
  "demo_status = JObj [(''build_version'', JStr ''1.2.7''), (''abi_version'', JNum ''1''), (''rpc_schema'', JNum ''3''),
     (''fixture_revision'', JStr ''v1''), (''live'', JBool True), (''config'', JStr ''valid''), (''config_generation'', JNum ''1''),
     (''config_digest'', JStr ''61''), (''pipeline'', JStr ''all_bypassed''), (''dependency'', JStr ''disabled'')]"

definition demo_self_test :: json where
  "demo_self_test = JObj [(''fixture_revision'', JStr ''v1''), (''result'', JStr ''passed'')]"

definition demo_answers :: "bytes list" where
  "demo_answers = [[], json_marshal demo_plugins, json_marshal demo_status, [], json_marshal demo_self_test, json_marshal demo_status]"

definition demo_verify_env :: "unit verify_env" where
  "demo_verify_env = \<lparr>ve_architecture = ''linux-amd64'', ve_hash_file = (\<lambda>path. Some demo_sha), ve_polls = 0,
     ve_do = (\<lambda>n q. Inr \<lparr>hr_status = 200, hr_content_encoding = [], hr_content_length = -1, hr_body = demo_answers ! n,
       hr_read_error = None\<rparr>), ve_yaml = demo_yaml, ve_hash = (\<lambda>_. ''a'')\<rparr>"

definition demo_flags :: verifier_flags where
  "demo_flags = \<lparr>vf_base_url = ''http://127.0.0.1:8317'', vf_approval = ''approved.json'', vf_cli = ''cli'', vf_plugin = ''plugin.so'',
     vf_phase = PhasePostInstall, vf_credential_stdin = True\<rparr>"

definition demo_observation :: observation where
  "demo_observation =
     (let s = \<lparr>os_build_version = ''1.2.7'', os_abi_version = 1, os_rpc_schema = 3, os_fixture_revision = ''v1'', os_live = True,
        os_config = ''valid'', os_config_generation = 1, os_config_digest = ''61'', os_pipeline = ''all_bypassed'',
        os_dependency = ''disabled'', os_headroom_desired = False, os_headroom_effective = False\<rparr>
      in \<lparr>ob_plugin = \<lparr>ps_found = True, ps_registered = True, ps_effective_enabled = True, ps_version = ''1.2.7''\<rparr>,
          ob_before = s, ob_after = s, ob_config_digest = ''61'',
          ob_self_test = \<lparr>ot_fixture_revision = ''v1'', ot_result = ''passed''\<rparr>\<rparr>)"

lemma demo_good: "good_json demo_plugins 0" "good_json demo_status 0" "good_json demo_self_test 0"
  by code_simp+

lemma demo_lengths:
  "length (json_marshal demo_plugins) < 500" "length (json_marshal demo_status) < 500" "length (json_marshal demo_self_test) < 500"
  by code_simp+

lemma demo_dec: "dec_u32 (JNum ''1'') 0 = Some 1" "dec_u32 (JNum ''3'') 0 = Some 3" "dec_u64 (JNum ''1'') 0 = Some 1"
  by (simp_all add: dec_u32_def dec_u64_def dec_uint_def is_digit_def digits_val_def digit_val_def less_eq_char_def)

lemma demo_reads:
  "unmarshal set_plugin_list nil_slice (json_marshal demo_plugins) =
     Some \<lparr>gs_memory = [\<lparr>pe_id = ''token-saver'', pe_registered = True, pe_effective_enabled = True, pe_metadata = Some ''1.2.7''\<rparr>], gs_length = 1\<rparr>"
  "unmarshal set_status zero_status (json_marshal demo_status) = Some (ob_before demo_observation)"
  "unmarshal set_self_test \<lparr>ot_fixture_revision = [], ot_result = []\<rparr> (json_marshal demo_self_test) = Some (ob_self_test demo_observation)"
  unfolding unmarshal_def json_parse_marshal [OF demo_good(1)] json_parse_marshal [OF demo_good(2)] json_parse_marshal [OF demo_good(3)]
  by (simp_all add: demo_plugins_def demo_status_def demo_self_test_def dec_object_def set_plugin_list_def set_entry_def set_metadata_def
      dec_metadata_def dec_slice_def nil_slice_def zero_entry_def set_status_def zero_status_def set_self_test_def names_field_def
      lower_byte_def dec_string_def dec_bool_def demo_dec demo_observation_def Let_def)

lemma demo_answer:
  "length body < 500 \<Longrightarrow> answer (Inr \<lparr>hr_status = 200, hr_content_encoding = [], hr_content_length = -1, hr_body = body, hr_read_error = None\<rparr>)
     = Inr body"
  by (simp add: answer_def read_limited_def maxManagementBody_def)

lemma demo_observe:
  "fst (observe demo_verify_env opts base [q]) = Inr demo_observation"
proof -
  have "trim_space [] = []" by code_simp
  moreover have "hex_encode ''a'' = ''61''" by code_simp
  ultimately show ?thesis
    by (simp add: observe_def get_plugin_def get_status_def get_config_def run_self_test_def and_then_def or_result_def no_request_def
      getJSON_def getRaw_def postJSON_def request_raw_def send_def demo_verify_env_def demo_answers_def demo_answer demo_lengths decoded_def
      demo_reads find_plugin.simps slice_items_def plugin_fault_def Let_def Parse_def Digest_def)
      (simp add: demo_observation_def Let_def)
qed

lemma demo_run: "fst (run demo_verify_env (\<lambda>path. Inr demo_approval) (Inr ''secret'') (Inl CodeCredentialDirectory) (Some demo_flags)) = (compatible, 0)"
proof -
  have base: "managementBaseURL ''http://127.0.0.1:8317'' = Some ''http://127.0.0.1:8317''" by code_simp
  have "length demo_sha = 64" by code_simp
  then have arts: "VerifyArtifacts phase demo_approval \<lparr>at_arch = ''linux-amd64'', at_cli_hash = demo_sha, at_plugin_hash = demo_sha\<rparr> = compatible" for phase
    by (simp add: VerifyArtifacts_def hashEqual_def demo_approval_def)
  have "EvaluateRuntime phase demo_approval demo_observation = compatible" for phase
    by (simp add: EvaluateRuntime_def demo_observation_def Let_def status_fault_def healthyTruth_def demo_approval_def VerifierFixture_def)
  moreover have "waitForCore demo_verify_env base 0 [] =
      (True, [\<lparr>sn_method = ''GET'', sn_url = base @ ''/healthz'', sn_credential = None, sn_body = None\<rparr>])" for base
    by (simp add: waitForCore.simps [of _ _ 0] send_def) (simp add: demo_verify_env_def)
  moreover have "ve_architecture demo_verify_env = ''linux-amd64''" "ve_hash_file demo_verify_env path = Some demo_sha"
      "ve_polls demo_verify_env = 0" for path
    by (simp_all add: demo_verify_env_def)
  ultimately show ?thesis
    using base arts demo_observe
    by (simp add: run_def demo_flags_def verify_def Let_def case_prod_unfold PhasePreflight_def PhasePostInstall_def exit_code_def)
qed


end
