(* ===== verification/ProbeRun.thy ===== *)
theory ProbeRun
  imports ProbeChecks
begin

text \<open>
  \<open>tools/compat-probe\<close>: a run of the compatibility probe (\<open>probe/probe.go\<close>, \<open>main.go\<close>).  It starts a candidate of the host with the
  plugin and a provider and a compressor of its own, and drives the candidate over HTTP.  What the candidate answers,
  and what it sends to the two servers meanwhile, is the environment; processes, files and sockets appear as the results
  of their calls.  A run that panics has no report.
\<close>

subsection \<open>Reports\<close>

definition SchemaVersion :: int where "SchemaVersion = 1"

record report =
  rep_compatible :: bool
  rep_code :: probe_code
  rep_plugin_id :: bytes
  rep_plugin_version :: bytes
  rep_marker_count :: nat
  rep_generation :: u64
  rep_digest :: bytes
  rep_scenarios :: "bytes list"
  rep_failed :: bytes

definition report_failure :: "probe_code \<Rightarrow> report" where
  "report_failure code = \<lparr>rep_compatible = False, rep_code = code, rep_plugin_id = [], rep_plugin_version = [], rep_marker_count = 0,
     rep_generation = 0, rep_digest = [], rep_scenarios = [], rep_failed = []\<rparr>"

text \<open>The report as JSON; empty members are left out.\<close>

definition omit_empty :: "bool \<Rightarrow> bytes \<Rightarrow> json \<Rightarrow> (bytes \<times> json) list" where
  "omit_empty is_empty k v = (if is_empty then [] else [(k, v)])"

definition report_json :: "report \<Rightarrow> json" where
  "report_json r = JObj
     ([(''schema_version'', JNum (show_int SchemaVersion)), (''compatible'', JBool (rep_compatible r)), (''code'', JStr (code_text (rep_code r)))]
      @ omit_empty (rep_plugin_id r = []) ''plugin_id'' (JStr (rep_plugin_id r))
      @ omit_empty (rep_plugin_version r = []) ''plugin_version'' (JStr (rep_plugin_version r))
      @ [(''marker_count'', JNum (show_nat (rep_marker_count r)))]
      @ omit_empty (rep_generation r = 0) ''config_generation'' (JNum (show_nat (unat (rep_generation r))))
      @ omit_empty (rep_digest r = []) ''config_digest'' (JStr (rep_digest r))
      @ omit_empty (rep_scenarios r = []) ''scenarios'' (JArr (map JStr (rep_scenarios r)))
      @ omit_empty (rep_failed r = []) ''failed_scenario'' (JStr (rep_failed r)))"

subsection \<open>The world of a run\<close>

datatype traffic = ToProvider served | ToCompressor served

datatype tick = Ticked | Expired | Exited

text \<open>The configuration file of the candidate, before YAML encodes it.\<close>

record host_config =
  hc_host :: bytes
  hc_port :: nat
  hc_auth_dir :: bytes
  hc_api_keys :: "bytes list"
  hc_request_retry :: nat
  hc_commercial_mode :: bool
  hc_logging_to_file :: bool
  hc_request_log :: bool
  hc_allow_remote :: bool
  hc_secret_key :: bytes
  hc_disable_control_panel :: bool
  hc_disable_auto_update_panel :: bool
  hc_plugins_enabled :: bool
  hc_plugins_dir :: bytes
  hc_plugin_configs :: "(bytes \<times> (bytes \<times> json) list) list"
  hc_provider_name :: bytes
  hc_provider_url :: bytes
  hc_provider_keys :: "bytes list"
  hc_provider_models :: "(bytes \<times> bytes) list"
  hc_provider_retry :: nat

text \<open>The source of a copy: what \<open>Stat\<close> says of it, and how the three steps of the copy end.\<close>

record copy_run =
  cy_stat :: "(bool \<times> int) option"
  cy_create :: bool
  cy_copy :: bool
  cy_close :: bool

text \<open>
  \<open>cv_ready_ticks\<close> and \<open>cv_apply_ticks\<close> are the numbers of ticks that come before the deadlines of the two waits, of the
  run's timeout and of ten seconds.
\<close>

record 'n candidate_env =
  cv_regular :: "bytes \<Rightarrow> bool"
  cv_temp :: "bytes option"
  cv_provider :: "bytes option"
  cv_compressor :: "bytes option"
  cv_mkdir :: bool
  cv_copy :: "bytes \<Rightarrow> copy_run option"
  cv_port :: "nat option"
  cv_write :: "host_config \<Rightarrow> bool"
  cv_start :: bool
  cv_do :: "nat \<Rightarrow> sent \<Rightarrow> (request_error + http_response) \<times> traffic list"
  cv_exited :: "nat \<Rightarrow> bool"
  cv_tick :: "nat \<Rightarrow> tick"
  cv_ready_ticks :: "duration \<Rightarrow> nat"
  cv_apply_ticks :: nat
  cv_yaml :: "'n yaml"
  cv_hash :: "bytes \<Rightarrow> bytes"
  cv_float :: "bytes \<Rightarrow> bytes option"
  cv_time :: time_codec

record probe_world =
  pw_trace :: "sent list"
  pw_provider :: provider
  pw_compressor :: compressor

definition probe_start :: probe_world where
  "probe_start = \<lparr>pw_trace = [], pw_provider = \<lparr>pv_requests = 0, pv_markers = 0, pv_bodies = []\<rparr>,
     pw_compressor = \<lparr>cp_mode = MockRewrite, cp_bodies = []\<rparr>\<rparr>"

type_synonym 'x probing = "probe_world \<Rightarrow> 'x \<times> probe_world"

text \<open>The failure of a step: the report of the run, or \<open>None\<close> when it panics.\<close>

type_synonym ended = "report option"

fun serve :: "(bytes \<Rightarrow> bytes option) \<Rightarrow> probe_world \<Rightarrow> traffic \<Rightarrow> probe_world" where
  "serve fl w (ToProvider q) = w\<lparr>pw_provider := snd (handleChat q (pw_provider w))\<rparr>"
| "serve fl w (ToCompressor q) = w\<lparr>pw_compressor := snd (handleCompress fl q (pw_compressor w))\<rparr>"

definition transmit :: "'n candidate_env \<Rightarrow> sent \<Rightarrow> (request_error + http_response) probing" where
  "transmit env q w =
     (case cv_do env (length (pw_trace w)) q of
        (got, traffic) \<Rightarrow> (got, foldl (serve (cv_float env)) (w\<lparr>pw_trace := pw_trace w @ [q]\<rparr>) traffic))"

definition maxHTTPBody :: nat where "maxHTTPBody = 2097152"

datatype http_failure = httpAuth | httpFailed

definition http_answer :: "(bytes \<Rightarrow> 's option) \<Rightarrow> request_error + http_response \<Rightarrow> http_failure + 's" where
  "http_answer decode got =
     (case got of
        Inl errDo \<Rightarrow> Inl httpFailed
      | Inr response \<Rightarrow>
          if hr_status response = 401 \<or> hr_status response = 403 then Inl httpAuth
          else if hr_status response < 200 \<or> hr_status response \<ge> 300 then Inl httpFailed
          else (case read_limited (maxHTTPBody + 1) response of
                  Inl errRead \<Rightarrow> Inl httpFailed
                | Inr raw \<Rightarrow>
                    if length raw > maxHTTPBody then Inl httpFailed
                    else (case decode raw of None \<Rightarrow> Inl httpFailed | Some x \<Rightarrow> Inr x)))"

definition jsonRequest ::
  "'n candidate_env \<Rightarrow> bytes \<Rightarrow> bytes \<Rightarrow> bytes \<Rightarrow> bytes option \<Rightarrow> (bytes \<Rightarrow> 's option) \<Rightarrow> (http_failure + 's) probing" where
  "jsonRequest env method endpoint credential body decode w =
     (case transmit env \<lparr>sn_method = method, sn_url = endpoint,
             sn_credential = (if credential = [] then None else Some credential), sn_body = body\<rparr> w of
        (got, w') \<Rightarrow> (http_answer decode got, w'))"

definition httpCode :: "http_failure \<Rightarrow> probe_code \<Rightarrow> probe_code" where
  "httpCode outcome fallback = (if outcome = httpAuth then ProbeManagementAuth else fallback)"

definition fail :: "probe_code \<Rightarrow> ended" where
  "fail code = Some (report_failure code)"

definition compatClientKey :: bytes where "compatClientKey = ''compat-client-key-only''"
definition compatManagementKey :: bytes where "compatManagementKey = ''compat-management-key-only''"

subsection \<open>Waiting for the candidate\<close>

fun waitForCandidate :: "'n candidate_env \<Rightarrow> bytes \<Rightarrow> nat \<Rightarrow> probe_code probing" where
  "waitForCandidate env base n w =
     (if cv_exited env (length (pw_trace w)) then (CodeCandidateExit, w)
      else (case transmit env \<lparr>sn_method = ''GET'', sn_url = base @ ''/healthz'', sn_credential = None, sn_body = None\<rparr> w of
              (got, w') \<Rightarrow>
                if (case got of Inl _ \<Rightarrow> False | Inr response \<Rightarrow> hr_status response = 200) then (CodeOK, w')
                else (case cv_tick env (length (pw_trace w')) of
                        Expired \<Rightarrow> (CodeCoreTimeout, w')
                      | Exited \<Rightarrow> (CodeCandidateExit, w')
                      | Ticked \<Rightarrow> (case n of 0 \<Rightarrow> (CodeCoreTimeout, w') | Suc k \<Rightarrow> waitForCandidate env base k w'))))"

declare waitForCandidate.simps [simp del]

text \<open>What one status says of the new configuration; \<open>None\<close> waits on.\<close>

definition applied_verdict :: "u64 \<Rightarrow> bytes \<Rightarrow> http_failure + management_status \<Rightarrow> (probe_code + management_status) option" where
  "applied_verdict previousGeneration digest got =
     (case got of
        Inl outcome \<Rightarrow> if outcome = httpAuth then Some (Inl ProbeManagementAuth) else None
      | Inr st \<Rightarrow>
          if mt_config_generation st > previousGeneration \<and> mt_config_digest st = digest
          then Some (if statusIdentityCode st \<noteq> CodeOK then Inl (statusIdentityCode st) else Inr st)
          else None)"

fun waitForAppliedConfig ::
  "'n candidate_env \<Rightarrow> bytes \<Rightarrow> u64 \<Rightarrow> bytes \<Rightarrow> nat \<Rightarrow> (probe_code + management_status) probing" where
  "waitForAppliedConfig env statusURL previousGeneration digest n w =
     (case jsonRequest env ''GET'' statusURL compatManagementKey None (unmarshal set_management_status zero_management_status) w of
        (got, w') \<Rightarrow>
          (case applied_verdict previousGeneration digest got of
             Some verdict \<Rightarrow> (verdict, w')
           | None \<Rightarrow>
               (case cv_tick env (length (pw_trace w')) of
                  Expired \<Rightarrow> (Inl CodeConfigApplyTimeout, w')
                | Exited \<Rightarrow> (Inl CodeCandidateExit, w')
                | Ticked \<Rightarrow> (case n of 0 \<Rightarrow> (Inl CodeConfigApplyTimeout, w')
                           | Suc k \<Rightarrow> waitForAppliedConfig env statusURL previousGeneration digest k w'))))"

declare waitForAppliedConfig.simps [simp del]

subsection \<open>The scenarios\<close>

definition requiredScenarios :: "bytes list" where
  "requiredScenarios = [''all-off'', ''rtk'', ''headroom-rewrite'', ''headroom-timeout'', ''caveman'', ''ponytail'', ''fixed-order'']"

text \<open>The members of a patch in the order of their names.\<close>

definition scenarioPatch :: "bytes \<Rightarrow> nat \<Rightarrow> bool \<Rightarrow> bool \<Rightarrow> bool \<Rightarrow> bool \<Rightarrow> (bytes \<times> json) list" where
  "scenarioPatch headroomURL timeoutMS rtkEnabled headroomEnabled cavemanEnabled ponytailEnabled =
     [(''caveman_enabled'', JBool cavemanEnabled), (''caveman_level'', JStr ''lite''), (''headroom_enabled'', JBool headroomEnabled),
      (''headroom_timeout_ms'', JNum (show_nat timeoutMS)), (''headroom_url'', JStr headroomURL),
      (''model_allowlist'', JArr [JStr compatModel]), (''ponytail_enabled'', JBool ponytailEnabled), (''ponytail_level'', JStr ''lite''),
      (''rtk_enabled'', JBool rtkEnabled)]"

record probe_urls =
  ur_base :: bytes
  ur_config :: bytes
  ur_status :: bytes

definition management :: "bytes \<Rightarrow> bytes \<Rightarrow> bytes" where
  "management base path = base @ ''/v0/management/plugins'' @ path"

definition resource :: "bytes \<Rightarrow> bytes \<Rightarrow> bytes" where
  "resource base path = base @ ''/v0/resource/plugins/token-saver'' @ path"

definition probe_paths :: "bytes \<Rightarrow> probe_urls" where
  "probe_paths base = \<lparr>ur_base = base, ur_config = management base ''/token-saver/config'',
     ur_status = management base ''/token-saver/status''\<rparr>"

text \<open>A configuration that is null is a nil map, and the first assignment to it panics.\<close>

definition applyProbeConfig ::
  "'n candidate_env \<Rightarrow> probe_urls \<Rightarrow> json \<Rightarrow> management_status \<Rightarrow> (bytes \<times> json) list
     \<Rightarrow> (probe_code option + management_status \<times> json) probing" where
  "applyProbeConfig env urls currentConfig previousStatus patch w =
     (case currentConfig of
        JObj members \<Rightarrow>
          let desired = JObj (foldl (\<lambda>m (k, v). insert_member k v m) members patch)
          in (case Parse (cv_yaml env) (json_marshal desired) of
                Inl errParseConfig \<Rightarrow> (Inl (Some CodeConfigPatch), w)
              | Inr desiredConfig \<Rightarrow>
                  (case jsonRequest env ''PATCH'' (ur_config urls) compatManagementKey (Some (json_marshal (JObj patch))) Some w of
                     (Inl outcome, w1) \<Rightarrow> (Inl (Some (httpCode outcome CodeConfigPatch)), w1)
                   | (Inr ignored, w1) \<Rightarrow>
                       (case waitForAppliedConfig env (ur_status urls) (mt_config_generation previousStatus)
                               (Digest (cv_hash env) desiredConfig) (cv_apply_ticks env) w1 of
                          (Inl code, w2) \<Rightarrow> (Inl (Some code), w2)
                        | (Inr st, w2) \<Rightarrow> (Inr (st, desired), w2))))
      | _ \<Rightarrow> (Inl None, w))"

definition dec_ignored_map :: "(bytes \<Rightarrow> bytes option) \<Rightarrow> bytes \<Rightarrow> json option" where
  "dec_ignored_map fl raw = (case json_parse raw of None \<Rightarrow> None | Some v \<Rightarrow> dec_any_map fl v JNull)"

definition dispatchProbe :: "'n candidate_env \<Rightarrow> probe_urls \<Rightarrow> bytes \<Rightarrow> (probe_code + bytes) probing" where
  "dispatchProbe env urls body w =
     (case jsonRequest env ''POST'' (ur_base urls @ ''/v1/chat/completions'') compatClientKey (Some body) (dec_ignored_map (cv_float env)) w of
        (Inl outcome, w1) \<Rightarrow> (Inl CodeDispatch, w1)
      | (Inr response, w1) \<Rightarrow> (case SingleBody (pw_provider w1) of None \<Rightarrow> (Inl CodeDispatch, w1) | Some b \<Rightarrow> (Inr b, w1)))"

text \<open>\<open>sc_verify\<close> gets the body at the provider and the last one at the compressor, empty when there is none.\<close>

record scenario =
  sc_name :: bytes
  sc_mode :: mock_mode
  sc_patch :: "(bytes \<times> json) list"
  sc_body :: bytes
  sc_verify :: "bytes \<Rightarrow> bytes \<Rightarrow> bool"

definition set_mode :: "mock_mode \<Rightarrow> probe_world \<Rightarrow> probe_world" where
  "set_mode md w = w\<lparr>pw_compressor := SetMode md (pw_compressor w)\<rparr>"

definition run_scenario ::
  "'n candidate_env \<Rightarrow> probe_urls \<Rightarrow> scenario \<Rightarrow> json \<Rightarrow> management_status \<Rightarrow> (probe_code option + management_status \<times> json) probing" where
  "run_scenario env urls s config st w =
     (case applyProbeConfig env urls config st (sc_patch s) (set_mode (sc_mode s) w) of
        (Inl e, w1) \<Rightarrow> (Inl e, w1)
      | (Inr applied, w1) \<Rightarrow>
          (case dispatchProbe env urls (sc_body s) (set_mode (sc_mode s) (w1\<lparr>pw_provider := provider_reset (pw_provider w1)\<rparr>)) of
             (Inl code, w2) \<Rightarrow> (Inl (Some code), w2)
           | (Inr providerBody, w2) \<Rightarrow>
               let headroomBody = (case LastDispatchBody (pw_compressor w2) of None \<Rightarrow> [] | Some b \<Rightarrow> b)
               in if sc_verify s providerBody headroomBody then (Inr applied, w2) else (Inl (Some CodeScenario), w2)))"

text \<open>The failed scenario is reported with the ones completed before it.\<close>

fun run_scenarios ::
  "'n candidate_env \<Rightarrow> probe_urls \<Rightarrow> bytes \<Rightarrow> scenario list \<Rightarrow> bytes list \<Rightarrow> json \<Rightarrow> management_status
     \<Rightarrow> (ended + management_status \<times> bytes list) probing" where
  "run_scenarios env urls version [] names config st w = (Inr (st, names), w)"
| "run_scenarios env urls version (s # ss) names config st w =
     (case run_scenario env urls s config st w of
        (Inl None, w') \<Rightarrow> (Inl None, w')
      | (Inl (Some code), w') \<Rightarrow>
          (Inl (Some ((report_failure code)\<lparr>rep_plugin_id := RequiredPlugin, rep_plugin_version := version,
                  rep_scenarios := names, rep_failed := sc_name s\<rparr>)), w')
      | (Inr (st', config'), w') \<Rightarrow> run_scenarios env urls version ss (names @ [sc_name s]) config' st' w')"

definition markers :: "bytes \<Rightarrow> nat \<times> nat" where
  "markers body = (count_of CavemanMarker body, count_of PonytailMarker body)"

definition all_off_ok :: "bytes \<Rightarrow> bytes \<Rightarrow> bool" where
  "all_off_ok providerBody headroomBody = (messageContent providerBody ''user'' = ''all-off-original'' \<and> markers providerBody = (0, 0))"

definition headroom_ok :: "bytes \<Rightarrow> bytes \<Rightarrow> bytes \<Rightarrow> bool" where
  "headroom_ok text providerBody headroomBody = (headroomBody \<noteq> [] \<and> messageContent providerBody ''user'' = text)"

definition fixed_order_ok :: "bytes \<Rightarrow> bytes \<Rightarrow> bytes \<Rightarrow> bool" where
  "fixed_order_ok original providerBody headroomBody =
     (validRTKResult headroomBody original \<and> messageContent providerBody ''user'' = rewritten
      \<and> (case (index_of CavemanMarker providerBody, index_of PonytailMarker providerBody) of
           (Some cavemanIndex, Some ponytailIndex) \<Rightarrow> ponytailIndex > cavemanIndex
         | _ \<Rightarrow> False)
      \<and> markers providerBody = (1, 1))"

definition probe_scenarios :: "bytes \<Rightarrow> scenario list" where
  "probe_scenarios url =
     [\<lparr>sc_name = ''all-off'', sc_mode = MockRewrite, sc_patch = scenarioPatch url 1500 False False False False,
       sc_body = simpleChatFixture ''all-off-original'', sc_verify = all_off_ok\<rparr>,
      \<lparr>sc_name = ''rtk'', sc_mode = MockRewrite, sc_patch = scenarioPatch url 1500 True False False False,
       sc_body = fst (rtkChatFixture ''rtk-user''), sc_verify = (\<lambda>providerBody _. validRTKResult providerBody (snd (rtkChatFixture ''rtk-user'')))\<rparr>,
      \<lparr>sc_name = ''headroom-rewrite'', sc_mode = MockRewrite, sc_patch = scenarioPatch url 1500 False True False False,
       sc_body = simpleChatFixture ''headroom-original'', sc_verify = headroom_ok rewritten\<rparr>,
      \<lparr>sc_name = ''headroom-timeout'', sc_mode = MockTimeout, sc_patch = scenarioPatch url 100 False True False False,
       sc_body = simpleChatFixture ''headroom-timeout-original'', sc_verify = headroom_ok ''headroom-timeout-original''\<rparr>,
      \<lparr>sc_name = ''caveman'', sc_mode = MockRewrite, sc_patch = scenarioPatch url 1500 False False True False,
       sc_body = simpleChatFixture ''caveman-user'', sc_verify = (\<lambda>providerBody _. markers providerBody = (1, 0))\<rparr>,
      \<lparr>sc_name = ''ponytail'', sc_mode = MockRewrite, sc_patch = scenarioPatch url 1500 False False False True,
       sc_body = simpleChatFixture ''ponytail-user'', sc_verify = (\<lambda>providerBody _. markers providerBody = (0, 1))\<rparr>,
      \<lparr>sc_name = ''fixed-order'', sc_mode = MockRewrite, sc_patch = scenarioPatch url 1500 True True True True,
       sc_body = fst (rtkChatFixture ''fixed-order-user''), sc_verify = fixed_order_ok (snd (rtkChatFixture ''fixed-order-user''))\<rparr>]"

subsection \<open>A run\<close>

definition maxPluginBytes :: int where "maxPluginBytes = 536870912"

definition copyBoundedFile :: "copy_run option \<Rightarrow> int \<Rightarrow> bool" where
  "copyBoundedFile opened maximum =
     (case opened of
        None \<Rightarrow> False
      | Some c \<Rightarrow>
          (case cy_stat c of
             None \<Rightarrow> False
           | Some (regular, sz) \<Rightarrow>
               if \<not> regular \<or> sz \<le> 0 \<or> sz > maximum then False else cy_create c \<and> cy_copy c \<and> cy_close c))"

text \<open>The environment of the candidate process, from the one of the probe.\<close>

definition allowed_names :: "bytes list" where
  "allowed_names = [''COMSPEC'', ''HOME'', ''LANG'', ''LC_ALL'', ''PATH'', ''PATHEXT'', ''SYSTEMROOT'', ''TEMP'', ''TMP'', ''TMPDIR'', ''TZ'', ''WINDIR'']"

definition upper_byte :: "char \<Rightarrow> char" where
  "upper_byte c = (if CHR ''a'' \<le> c \<and> c \<le> CHR ''z'' then char_of (of_char c - 32 :: nat) else c)"

text \<open>\<open>strings.ToUpper\<close>: two runes outside ASCII have upper-case letters of ASCII, the dotless i and the long s.\<close>

fun to_upper :: "bytes \<Rightarrow> bytes" where
  "to_upper [] = []"
| "to_upper (c # cs) =
     (if has_prefix [CHR 0xC4, CHR 0xB1] (c # cs) then CHR ''I'' # to_upper (drop 1 cs)
      else if has_prefix [CHR 0xC5, CHR 0xBF] (c # cs) then CHR ''S'' # to_upper (drop 1 cs)
      else upper_byte c # to_upper cs)"

definition sanitizedCandidateEnvironment :: "bytes list \<Rightarrow> bytes list" where
  "sanitizedCandidateEnvironment environ =
     filter (\<lambda>item. List.member allowed_names (to_upper (takeWhile (\<lambda>c. c \<noteq> CHR ''='') item))) environ
     @ [''NO_PROXY=127.0.0.1,::1'', ''no_proxy=127.0.0.1,::1'']"

text \<open>\<open>writeCandidateConfig\<close>: the value YAML encodes into the file; paths are joined with a slash.\<close>

definition plugin_settings :: "bytes \<Rightarrow> (bytes \<times> json) list" where
  "plugin_settings headroomURL =
     [(''enabled'', JBool True), (''priority'', JNum (show_int (- 100))),
      (''rtk_enabled'', JBool False), (''headroom_enabled'', JBool False), (''headroom_url'', JStr headroomURL),
      (''headroom_timeout_ms'', JNum (show_nat 1500)), (''caveman_enabled'', JBool False), (''caveman_level'', JStr ''lite''),
      (''ponytail_enabled'', JBool False), (''ponytail_level'', JStr ''lite''), (''model_allowlist'', JArr [JStr compatModel])]"

definition candidate_config :: "bytes \<Rightarrow> bytes \<Rightarrow> nat \<Rightarrow> bytes \<Rightarrow> bytes \<Rightarrow> bool \<Rightarrow> host_config" where
  "candidate_config temporaryRoot pluginsDir port providerURL headroomURL pluginEnabled =
     \<lparr>hc_host = ''127.0.0.1'', hc_port = port, hc_auth_dir = temporaryRoot @ ''/auth'', hc_api_keys = [compatClientKey],
      hc_request_retry = 0, hc_commercial_mode = True, hc_logging_to_file = False, hc_request_log = False,
      hc_allow_remote = False, hc_secret_key = compatManagementKey, hc_disable_control_panel = True,
      hc_disable_auto_update_panel = True, hc_plugins_enabled = pluginEnabled, hc_plugins_dir = pluginsDir,
      hc_plugin_configs = (if pluginEnabled then [(RequiredPlugin, plugin_settings headroomURL)] else []),
      hc_provider_name = ''compat-mock'', hc_provider_url = providerURL @ ''/v1'', hc_provider_keys = [''compat-upstream-key-only''],
      hc_provider_models = [(compatModel, compatModel)], hc_provider_retry = 0\<rparr>"

record probe_options =
  op_mode :: bytes
  op_candidate_path :: bytes
  op_plugin_path :: bytes
  op_limit :: duration

definition probe_timeout :: "duration \<Rightarrow> duration" where
  "probe_timeout timeout =
     (if timeout \<le> 0 then 45 * second else if timeout > 60 * second then 60 * second else timeout)"

text \<open>The setup of a run: the base URL and the URL of the compressor, or the failure.\<close>

definition require :: "bool \<Rightarrow> probe_code \<Rightarrow> (ended + 's) \<Rightarrow> ended + 's" where
  "require ok code rest = (if ok then rest else Inl (fail code))"

definition loopback_base :: "nat \<Rightarrow> bytes" where
  "loopback_base port = ''http://127.0.0.1:'' @ show_nat port"

definition plugin_setup :: "'n candidate_env \<Rightarrow> probe_options \<Rightarrow> ended + bytes \<times> bytes" where
  "plugin_setup env opts =
     require (cv_regular env (op_plugin_path opts)) CodePluginInvalid
     (case parsePluginFilename (op_plugin_path opts) of
        None \<Rightarrow> Inl (fail CodePluginIdentity)
      | Some (pluginID, _) \<Rightarrow>
          require (pluginID = RequiredPlugin) CodePluginIdentity
          (case (cv_temp env, cv_provider env, cv_compressor env) of
             (Some temporaryRoot, Some providerURL, Some headroomURL) \<Rightarrow>
               require (cv_mkdir env) CodeTemporaryState
               (require (copyBoundedFile (cv_copy env (op_plugin_path opts)) maxPluginBytes) CodeTemporaryState
               (case cv_port env of
                  None \<Rightarrow> Inl (fail CodeTemporaryState)
                | Some port \<Rightarrow>
                    require (cv_write env (candidate_config temporaryRoot (temporaryRoot @ ''/plugins'') port providerURL headroomURL True))
                      CodeTemporaryState
                    (require (cv_start env) CodeCandidateStart (Inr (loopback_base port, headroomURL)))))
           | _ \<Rightarrow> Inl (fail CodeTemporaryState)))"

definition ready :: "'n candidate_env \<Rightarrow> duration \<Rightarrow> bytes \<Rightarrow> (ended + unit) probing" where
  "ready env limit base w =
     (case waitForCandidate env base (cv_ready_ticks env limit) w of
        (code, w') \<Rightarrow> ((if code \<noteq> CodeOK then Inl (fail code) else Inr ()), w'))"

definition managed :: "'n candidate_env \<Rightarrow> bytes \<Rightarrow> bytes \<Rightarrow> bytes option \<Rightarrow> (bytes \<Rightarrow> 's option) \<Rightarrow> probe_code \<Rightarrow> (ended + 's) probing" where
  "managed env method url body decode code =
     or_result (\<lambda>outcome. fail (httpCode outcome code)) (jsonRequest env method url compatManagementKey body decode)"

definition check_plugin :: "'n candidate_env \<Rightarrow> bytes \<Rightarrow> (ended + bytes) probing" where
  "check_plugin env base =
     and_then (managed env ''GET'' (management base []) None (unmarshal set_plugin_list nil_slice) CodePluginList)
       (\<lambda>plugins. no_request
          (case findPlugin (slice_items plugins) of
             None \<Rightarrow> Inl (fail ProbePluginNotRegistered)
           | Some plugin \<Rightarrow>
               require (pp_registered plugin) ProbePluginNotRegistered
               (require (pp_effective_enabled plugin) ProbePluginNotEffective
               (require (pp_version plugin = RequiredVersion) CodePluginVersion (Inr (pp_version plugin))))))"

definition check_public :: "'n candidate_env \<Rightarrow> bytes \<Rightarrow> bool \<Rightarrow> bytes \<Rightarrow> bytes \<Rightarrow> (ended + unit) probing" where
  "check_public env base enabled st circuit =
     and_then (or_result (\<lambda>_. fail CodePublicStatus)
         (jsonRequest env ''GET'' (resource base ''/headroom/status'') [] None (\<lambda>raw. case json_parse raw of None \<Rightarrow> None | Some v \<Rightarrow> raw_map v)))
       (\<lambda>members. no_request (require (validPublicStatus members enabled st circuit) CodePublicStatus (Inr ())))"

definition initial_status :: "'n candidate_env \<Rightarrow> bytes \<Rightarrow> (ended + management_status) probing" where
  "initial_status env base =
     and_then (managed env ''GET'' (management base ''/token-saver/status'') None (unmarshal set_management_status zero_management_status) CodeStatus)
       (\<lambda>st. no_request (let code = statusIdentityCode st in require (code = CodeOK) code (Inr st)))"

definition read_dashboard :: "'n candidate_env \<Rightarrow> bytes \<Rightarrow> bytes \<Rightarrow> (ended + probe_dashboard) probing" where
  "read_dashboard env base headroomURL =
     and_then (managed env ''GET'' (management base ''/token-saver/dashboard'') None json_parse CodeDashboard)
       (\<lambda>raw. no_request (case validDashboardRaw (cv_time env) raw headroomURL of None \<Rightarrow> Inl (fail CodeDashboard) | Some d \<Rightarrow> Inr d))"

definition run_check :: "'n candidate_env \<Rightarrow> bytes \<Rightarrow> (ended + probe_check) probing" where
  "run_check env base =
     and_then (managed env ''POST'' (management base ''/token-saver/headroom/check'') (Some ''{}'') json_parse CodeHeadroomCheck)
       (\<lambda>raw. no_request (case validHeadroomCheckRaw (cv_time env) raw of None \<Rightarrow> Inl (fail CodeHeadroomCheck) | Some c \<Rightarrow> Inr c))"

definition dashboard_shows :: "probe_check \<Rightarrow> probe_dashboard \<Rightarrow> probe_dashboard \<Rightarrow> bool" where
  "dashboard_shows chk dashBefore dashAfter =
     (ph_last_checked_at (pb_headroom dashAfter) = Some (pk_tested_at chk)
      \<and> ph_last_latency_ms (pb_headroom dashAfter) = Some (pk_latency_ms chk)
      \<and> ph_last_outcome (pb_headroom dashAfter) = pk_outcome chk
      \<and> stagesEqual (pb_stages dashBefore) (pb_stages dashAfter))"

text \<open>The page only must not ask for a credential.\<close>

definition check_page :: "'n candidate_env \<Rightarrow> bytes \<Rightarrow> (ended + unit) probing" where
  "check_page env base w =
     (case jsonRequest env ''GET'' (resource base ''/headroom'') [] None json_parse w of
        (got, w') \<Rightarrow> ((if got = Inl httpAuth then Inl (fail CodePublicStatus) else Inr ()), w'))"

definition probe_self_test :: "'n candidate_env \<Rightarrow> bytes \<Rightarrow> (ended + unit) probing" where
  "probe_self_test env base =
     and_then (managed env ''POST'' (management base ''/token-saver/self-test'') (Some ''{}'')
         (unmarshal set_self_test \<lparr>ot_fixture_revision = [], ot_result = []\<rparr>) CodeSelfTest)
       (\<lambda>selfTest. no_request (require (ot_result selfTest = ''passed'' \<and> ot_fixture_revision selfTest = ''v1'') CodeSelfTest (Inr ())))"

text \<open>From the first request to the report.\<close>

definition probe_plugin :: "'n candidate_env \<Rightarrow> duration \<Rightarrow> bytes \<Rightarrow> bytes \<Rightarrow> (ended + report) probing" where
  "probe_plugin env limit base headroomURL =
     and_then (ready env limit base) (\<lambda>_.
     and_then (check_plugin env base) (\<lambda>version.
     and_then (check_public env base False ''disabled'' ''disabled'') (\<lambda>_.
     and_then (initial_status env base) (\<lambda>initial.
     and_then (managed env ''GET'' (management base ''/token-saver/config'') None (dec_ignored_map (cv_float env)) CodeConfigGet) (\<lambda>currentConfig.
     and_then (run_scenarios env (probe_paths base) version (probe_scenarios headroomURL) [] currentConfig initial) (\<lambda>(applied, scenarios).
     and_then (read_dashboard env base headroomURL) (\<lambda>dashBefore.
     and_then (run_check env base) (\<lambda>chk.
     and_then (read_dashboard env base headroomURL) (\<lambda>dashAfter.
     and_then (no_request (require (dashboard_shows chk dashBefore dashAfter) CodeDashboard (Inr ()))) (\<lambda>_.
     and_then (check_public env base True ''ready'' ''closed'') (\<lambda>_.
     and_then (check_page env base) (\<lambda>_.
     and_then (probe_self_test env base) (\<lambda>_.
     no_request (Inr \<lparr>rep_compatible = True, rep_code = CodeOK, rep_plugin_id = RequiredPlugin, rep_plugin_version = version,
       rep_marker_count = 1, rep_generation = mt_config_generation applied, rep_digest = mt_config_digest applied,
       rep_scenarios = scenarios, rep_failed = []\<rparr>))))))))))))))"

subsection \<open>The core without the plugin\<close>

definition core_setup :: "'n candidate_env \<Rightarrow> ended + bytes" where
  "core_setup env =
     (case (cv_temp env, cv_provider env) of
        (Some temporaryRoot, Some providerURL) \<Rightarrow>
          require (cv_mkdir env) CodeTemporaryState
          (case cv_port env of
             None \<Rightarrow> Inl (fail CodeTemporaryState)
           | Some port \<Rightarrow>
               require (cv_write env (candidate_config temporaryRoot (temporaryRoot @ ''/plugins'') port providerURL [] False)) CodeTemporaryState
               (require (cv_start env) CodeCandidateStart (Inr (loopback_base port))))
      | _ \<Rightarrow> Inl (fail CodeTemporaryState))"

definition core_chat :: bytes where
  "core_chat = json_marshal (JObj [(''model'', JStr compatModel),
     (''messages'', JArr [JObj [(''role'', JStr ''user''), (''content'', JStr ''bounded core-only compatibility fixture'')]]),
     (''stream'', JBool False)])"

definition core_verdict :: "provider \<Rightarrow> report" where
  "core_verdict p =
     (if pv_requests p \<noteq> 1 then (report_failure CodeDispatch)\<lparr>rep_marker_count := pv_markers p\<rparr>
      else if pv_markers p \<noteq> 0 then (report_failure CodeMarkerUnexpected)\<lparr>rep_marker_count := pv_markers p\<rparr>
      else (report_failure CodeOK)\<lparr>rep_compatible := True\<rparr>)"

definition probe_core :: "'n candidate_env \<Rightarrow> duration \<Rightarrow> bytes \<Rightarrow> (ended + report) probing" where
  "probe_core env limit base =
     and_then (ready env limit base) (\<lambda>_.
     and_then (or_result (\<lambda>_. fail CodeDispatch)
         (jsonRequest env ''POST'' (base @ ''/v1/chat/completions'') compatClientKey (Some core_chat) (dec_ignored_map (cv_float env)))) (\<lambda>_.
     (\<lambda>w. (Inr (core_verdict (pw_provider w)), w))))"

definition finished :: "(ended + report) \<times> probe_world \<Rightarrow> ended \<times> probe_world" where
  "finished r = ((case fst r of Inl e \<Rightarrow> e | Inr rep \<Rightarrow> Some rep), snd r)"

definition Run :: "'n candidate_env \<Rightarrow> probe_options \<Rightarrow> ended \<times> probe_world" where
  "Run env opts =
     (let md = (if op_mode opts = [] then ''plugin'' else op_mode opts); limit = probe_timeout (op_limit opts)
      in if md \<noteq> ''plugin'' \<and> md \<noteq> ''core-only'' then (fail CodeModeInvalid, probe_start)
         else if \<not> cv_regular env (op_candidate_path opts) then (fail CodeCandidateInvalid, probe_start)
         else if md = ''core-only'' then
           (case core_setup env of
              Inl e \<Rightarrow> (e, probe_start)
            | Inr base \<Rightarrow> finished (probe_core env limit base probe_start))
         else
           (case plugin_setup env opts of
              Inl e \<Rightarrow> (e, probe_start)
            | Inr (base, headroomURL) \<Rightarrow> finished (probe_plugin env limit base headroomURL probe_start)))"

text \<open>The command: \<open>None\<close> when the arguments do not parse.  What it prints, and its exit code.\<close>

definition probe_command :: "'n candidate_env \<Rightarrow> probe_options option \<Rightarrow> (report \<times> int) option" where
  "probe_command env flags =
     (case flags of
        None \<Rightarrow> Some (report_failure CodeCandidateInvalid, 2)
      | Some opts \<Rightarrow> map_option (\<lambda>r. (r, if rep_compatible r then 0 else 2)) (fst (Run env opts)))"

end
