(* ===== verification/ProbeSpec.thy ===== *)
theory ProbeSpec
  imports ProbeRun
begin

text \<open>
  What a run of the compatibility probe promises: which requests it sends, what its report says, and what the
  pieces it is made of do (the name of the plugin file, the fixtures, the provider).
\<close>

subsection \<open>What a run sends\<close>

text \<open>\<open>psends P n step\<close>: the step adds at most \<open>n\<close> requests to the trace, each in \<open>P\<close>.\<close>

definition psends :: "(sent \<Rightarrow> bool) \<Rightarrow> nat \<Rightarrow> 'x probing \<Rightarrow> bool" where
  "psends P n step \<longleftrightarrow> (\<forall>w. \<exists>new. pw_trace (snd (step w)) = pw_trace w @ new \<and> list_all P new \<and> length new \<le> n)"

named_theorems psends_rules
  \<open>what the steps of a probe send\<close>

lemma psendsI:
  assumes "\<And>w. \<exists>new. pw_trace (snd (step w)) = pw_trace w @ new \<and> list_all P new \<and> length new \<le> n"
  shows "psends P n step"
  using assms by (simp add: psends_def)

lemma psends_no_request [psends_rules]: "psends P 0 (no_request r)"
  by (simp add: psends_def no_request_def)

lemma psends_or_result [psends_rules]: "psends P n step \<Longrightarrow> psends P n (or_result failed step)"
proof -
  have "snd (or_result failed step w) = snd (step w)" for w
    by (simp add: or_result_def split: prod.split sum.split)
  then show "psends P n step \<Longrightarrow> ?thesis" by (simp add: psends_def)
qed

lemma psends_chain:
  assumes "pw_trace w1 = pw_trace w @ new" "list_all P new" "length new \<le> n" "psends P m step"
  shows "\<exists>new. pw_trace (snd (step w1)) = pw_trace w @ new \<and> list_all P new \<and> length new \<le> n + m"
proof -
  obtain new' where "pw_trace (snd (step w1)) = pw_trace w1 @ new'" "list_all P new'" "length new' \<le> m"
    using assms(4) unfolding psends_def by blast
  then show ?thesis using assms(1-3) by (intro exI [of _ "new @ new'"]) auto
qed

lemma psends_and_then [psends_rules]:
  assumes "psends P n step" "\<And>x. psends P m (cont x)" "k = n + m"
  shows "psends P k (and_then step cont)"
proof (rule psendsI)
  fix w
  obtain new where 1: "pw_trace (snd (step w)) = pw_trace w @ new" "list_all P new" "length new \<le> n"
    using assms(1) unfolding psends_def by blast
  show "\<exists>new. pw_trace (snd (and_then step cont w)) = pw_trace w @ new \<and> list_all P new \<and> length new \<le> k"
  proof (cases "fst (step w)")
    case (Inl r)
    then show ?thesis using 1 assms(3) by (intro exI [of _ new]) (auto simp: and_then_def case_prod_unfold)
  next
    case (Inr x)
    from psends_chain [OF 1 assms(2)] Inr assms(3) show ?thesis by (simp add: and_then_def case_prod_unfold)
  qed
qed

lemma serve_trace [simp]: "pw_trace (serve fl w t) = pw_trace w"
  by (cases t) simp_all

lemma serve_all_trace [simp]: "pw_trace (foldl (serve fl) w ts) = pw_trace w"
  by (induction ts arbitrary: w) simp_all

lemma transmit_trace: "pw_trace (snd (transmit env q w)) = pw_trace w @ [q]"
  by (simp add: transmit_def split: prod.split)

lemma jsonRequest_trace:
  "pw_trace (snd (jsonRequest env method endpoint credential body decode w)) = pw_trace w @
     [\<lparr>sn_method = method, sn_url = endpoint, sn_credential = (if credential = [] then None else Some credential), sn_body = body\<rparr>]"
  by (simp add: jsonRequest_def case_prod_unfold transmit_trace)

lemma psends_jsonRequest [psends_rules]:
  "P \<lparr>sn_method = method, sn_url = endpoint, sn_credential = (if credential = [] then None else Some credential), sn_body = body\<rparr> \<Longrightarrow>
   psends P 1 (jsonRequest env method endpoint credential body decode)"
  by (simp add: psends_def jsonRequest_trace)

text \<open>The requests a run may send, by method, URL and credential.\<close>

definition probe_requests :: "bytes \<Rightarrow> (bytes \<times> bytes \<times> bytes option) list" where
  "probe_requests base =
     (let key = Some compatManagementKey
      in [(''GET'', base @ ''/healthz'', None), (''POST'', base @ ''/v1/chat/completions'', Some compatClientKey),
          (''GET'', management base [], key), (''GET'', management base ''/token-saver/status'', key),
          (''GET'', management base ''/token-saver/config'', key), (''PATCH'', management base ''/token-saver/config'', key),
          (''GET'', management base ''/token-saver/dashboard'', key), (''POST'', management base ''/token-saver/headroom/check'', key),
          (''POST'', management base ''/token-saver/self-test'', key),
          (''GET'', resource base ''/headroom/status'', None), (''GET'', resource base ''/headroom'', None)])"

definition probe_request :: "bytes \<Rightarrow> sent \<Rightarrow> bool" where
  "probe_request base q \<longleftrightarrow> (sn_method q, sn_url q, sn_credential q) \<in> set (probe_requests base)"

lemma keys_not_empty [simp]: "compatManagementKey \<noteq> []" "compatClientKey \<noteq> []"
  by (simp_all add: compatManagementKey_def compatClientKey_def)

lemma probe_request_simps [simp]:
  "probe_request base \<lparr>sn_method = ''GET'', sn_url = base @ ''/healthz'', sn_credential = None, sn_body = b\<rparr>"
  "probe_request base \<lparr>sn_method = ''POST'', sn_url = base @ ''/v1/chat/completions'', sn_credential = Some compatClientKey, sn_body = b\<rparr>"
  "probe_request base \<lparr>sn_method = ''GET'', sn_url = management base [], sn_credential = Some compatManagementKey, sn_body = b\<rparr>"
  "probe_request base \<lparr>sn_method = ''GET'', sn_url = management base ''/token-saver/status'', sn_credential = Some compatManagementKey, sn_body = b\<rparr>"
  "probe_request base \<lparr>sn_method = ''GET'', sn_url = management base ''/token-saver/config'', sn_credential = Some compatManagementKey, sn_body = b\<rparr>"
  "probe_request base \<lparr>sn_method = ''PATCH'', sn_url = management base ''/token-saver/config'', sn_credential = Some compatManagementKey, sn_body = b\<rparr>"
  "probe_request base \<lparr>sn_method = ''GET'', sn_url = management base ''/token-saver/dashboard'', sn_credential = Some compatManagementKey, sn_body = b\<rparr>"
  "probe_request base \<lparr>sn_method = ''POST'', sn_url = management base ''/token-saver/headroom/check'', sn_credential = Some compatManagementKey, sn_body = b\<rparr>"
  "probe_request base \<lparr>sn_method = ''POST'', sn_url = management base ''/token-saver/self-test'', sn_credential = Some compatManagementKey, sn_body = b\<rparr>"
  "probe_request base \<lparr>sn_method = ''GET'', sn_url = resource base ''/headroom/status'', sn_credential = None, sn_body = b\<rparr>"
  "probe_request base \<lparr>sn_method = ''GET'', sn_url = resource base ''/headroom'', sn_credential = None, sn_body = b\<rparr>"
  by (simp_all add: probe_request_def probe_requests_def Let_def)

text \<open>A wait: the request, and if it goes on, the rest of the wait.\<close>

lemma psends_one_more:
  assumes "psends P n step" "w' = w1 \<or> w' = snd (step w1)" "pw_trace w1 = pw_trace w @ [q]" "P q"
  shows "\<exists>new. pw_trace w' = pw_trace w @ new \<and> list_all P new \<and> length new \<le> Suc n"
  using assms(2)
proof
  assume "w' = w1"
  then show ?thesis using assms(3,4) by (intro exI [of _ "[q]"]) simp
next
  assume w': "w' = snd (step w1)"
  have "list_all P [q]" "length [q] \<le> 1" using assms(4) by simp_all
  from psends_chain [OF assms(3) this assms(1)] w' show ?thesis by simp
qed

lemma psends_waitForCandidate: "psends (probe_request base) (Suc n) (waitForCandidate env base n)"
proof (induction n)
  case 0
  show ?case
  proof (rule psendsI)
    fix w
    let ?q = "\<lparr>sn_method = ''GET'', sn_url = base @ ''/healthz'', sn_credential = None, sn_body = None\<rparr>"
    have "snd (waitForCandidate env base 0 w) = (if cv_exited env (length (pw_trace w)) then w else snd (transmit env ?q w))"
      by (subst waitForCandidate.simps) (simp add: case_prod_unfold split: tick.split)
    then show "\<exists>new. pw_trace (snd (waitForCandidate env base 0 w)) = pw_trace w @ new \<and> list_all (probe_request base) new \<and> length new \<le> Suc 0"
      by (cases "cv_exited env (length (pw_trace w))") (simp_all add: transmit_trace)
  qed
next
  case (Suc n)
  show ?case
  proof (rule psendsI)
    fix w
    let ?q = "\<lparr>sn_method = ''GET'', sn_url = base @ ''/healthz'', sn_credential = None, sn_body = None\<rparr>"
    let ?w' = "snd (waitForCandidate env base (Suc n) w)"
    have "?w' = w \<or> ?w' = snd (transmit env ?q w) \<or> ?w' = snd (waitForCandidate env base n (snd (transmit env ?q w)))"
      by (subst (1 2 3) waitForCandidate.simps) (simp add: case_prod_unfold split: tick.split)
    then show "\<exists>new. pw_trace ?w' = pw_trace w @ new \<and> list_all (probe_request base) new \<and> length new \<le> Suc (Suc n)"
    proof
      assume "?w' = w"
      then show ?thesis by (intro exI [of _ "[]"]) simp
    next
      assume "?w' = snd (transmit env ?q w) \<or> ?w' = snd (waitForCandidate env base n (snd (transmit env ?q w)))"
      from psends_one_more [OF Suc this transmit_trace] show ?thesis by simp
    qed
  qed
qed

lemma psends_waitForAppliedConfig:
  "psends (probe_request base) (Suc n) (waitForAppliedConfig env (management base ''/token-saver/status'') generation digest n)"
proof (induction n)
  case 0
  show ?case
  proof (rule psendsI)
    fix w
    let ?url = "management base ''/token-saver/status''"
    let ?w' = "snd (waitForAppliedConfig env ?url generation digest 0 w)"
    have "?w' = snd (jsonRequest env ''GET'' ?url compatManagementKey None (unmarshal set_management_status zero_management_status) w)"
      by (subst waitForAppliedConfig.simps) (simp add: case_prod_unfold split: tick.split option.split)
    then show "\<exists>new. pw_trace ?w' = pw_trace w @ new \<and> list_all (probe_request base) new \<and> length new \<le> Suc 0"
      by (simp add: jsonRequest_trace)
  qed
next
  case (Suc n)
  show ?case
  proof (rule psendsI)
    fix w
    let ?url = "management base ''/token-saver/status''"
    let ?w' = "snd (waitForAppliedConfig env ?url generation digest (Suc n) w)"
    let ?w1 = "snd (jsonRequest env ''GET'' ?url compatManagementKey None (unmarshal set_management_status zero_management_status) w)"
    have "?w' = ?w1 \<or> ?w' = snd (waitForAppliedConfig env ?url generation digest n ?w1)"
      by (subst (1 2) waitForAppliedConfig.simps) (simp add: case_prod_unfold split: tick.split option.split)
    from psends_one_more [OF Suc this jsonRequest_trace]
    show "\<exists>new. pw_trace ?w' = pw_trace w @ new \<and> list_all (probe_request base) new \<and> length new \<le> Suc (Suc n)" by simp
  qed
qed

lemma probe_paths_simps [simp]:
  "ur_base (probe_paths base) = base" "ur_config (probe_paths base) = management base ''/token-saver/config''"
  "ur_status (probe_paths base) = management base ''/token-saver/status''"
  by (simp_all add: probe_paths_def)

lemma psends_apply:
  "psends (probe_request base) (cv_apply_ticks env + 2)
     (applyProbeConfig env (probe_paths base) config st patch)" (is "psends _ _ (applyProbeConfig env ?urls config st patch)")
proof (rule psendsI)
  fix w
  let ?w' = "snd (applyProbeConfig env ?urls config st patch w)"
  let ?body = "Some (json_marshal (JObj patch))"
  let ?w1 = "snd (jsonRequest env ''PATCH'' (ur_config ?urls) compatManagementKey ?body Some w)"
  have "?w' = w \<or> (\<exists>digest. ?w' = ?w1 \<or> ?w' = snd (waitForAppliedConfig env (ur_status ?urls) (mt_config_generation st) digest (cv_apply_ticks env) ?w1))"
    by (simp add: applyProbeConfig_def Let_def case_prod_unfold split: json.split sum.split) (metis snd_conv)
  then show "\<exists>new. pw_trace ?w' = pw_trace w @ new \<and> list_all (probe_request base) new \<and> length new \<le> cv_apply_ticks env + 2"
  proof (elim disjE exE)
    assume "?w' = w"
    then show ?thesis by (intro exI [of _ "[]"]) simp
  next
    fix digest
    assume "?w' = ?w1"
    then show ?thesis by (simp add: jsonRequest_trace)
  next
    fix digest
    assume w': "?w' = snd (waitForAppliedConfig env (ur_status ?urls) (mt_config_generation st) digest (cv_apply_ticks env) ?w1)"
    have "psends (probe_request base) (Suc (cv_apply_ticks env))
        (waitForAppliedConfig env (ur_status ?urls) (mt_config_generation st) digest (cv_apply_ticks env))"
      using psends_waitForAppliedConfig by simp
    from psends_one_more [OF this disjI2 [OF w'] jsonRequest_trace] show ?thesis by simp
  qed
qed

lemma set_mode_trace [simp]: "pw_trace (set_mode md w) = pw_trace w"
  by (simp add: set_mode_def)

lemma psends_dispatch: "psends (probe_request base) 1 (dispatchProbe env (probe_paths base) body)"
proof (rule psendsI)
  fix w
  have "snd (dispatchProbe env (probe_paths base) body w) =
      snd (jsonRequest env ''POST'' (base @ ''/v1/chat/completions'') compatClientKey (Some body) (dec_ignored_map (cv_float env)) w)"
    by (simp add: dispatchProbe_def case_prod_unfold split: sum.split option.split)
  then show "\<exists>new. pw_trace (snd (dispatchProbe env (probe_paths base) body w)) = pw_trace w @ new
      \<and> list_all (probe_request base) new \<and> length new \<le> 1"
    by (simp add: jsonRequest_trace)
qed

lemma psends_run_scenario:
  "psends (probe_request base) (cv_apply_ticks env + 3) (run_scenario env (probe_paths base) s config st)"
proof (rule psendsI)
  fix w
  let ?apply = "applyProbeConfig env (probe_paths base) config st (sc_patch s)"
  let ?dispatch = "dispatchProbe env (probe_paths base) (sc_body s)"
  let ?w1 = "snd (?apply (set_mode (sc_mode s) w))"
  let ?w2 = "set_mode (sc_mode s) (?w1\<lparr>pw_provider := provider_reset (pw_provider ?w1)\<rparr>)"
  let ?w' = "snd (run_scenario env (probe_paths base) s config st w)"
  obtain new where 1: "pw_trace ?w1 = pw_trace w @ new" "list_all (probe_request base) new" "length new \<le> cv_apply_ticks env + 2"
    using psends_apply [of base env config st "sc_patch s"] unfolding psends_def by (metis set_mode_trace)
  have "?w' = ?w1 \<or> ?w' = snd (?dispatch ?w2)"
    by (simp add: run_scenario_def Let_def case_prod_unfold split: sum.split)
  then show "\<exists>new. pw_trace ?w' = pw_trace w @ new \<and> list_all (probe_request base) new \<and> length new \<le> cv_apply_ticks env + 3"
  proof
    assume "?w' = ?w1"
    with 1 show ?thesis by (intro exI [of _ new]) simp
  next
    assume w': "?w' = snd (?dispatch ?w2)"
    have "pw_trace ?w2 = pw_trace w @ new" using 1(1) by simp
    from psends_chain [OF this 1(2,3) psends_dispatch [of base env "sc_body s"]] w' show ?thesis by (simp add: numeral_eq_Suc)
  qed
qed

lemma psends_run_scenarios:
  "psends (probe_request base) (length ss * (cv_apply_ticks env + 3)) (run_scenarios env (probe_paths base) version ss names config st)"
proof (induction ss arbitrary: names config st)
  case Nil
  show ?case by (simp add: psends_def)
next
  case (Cons s ss)
  show ?case
  proof (rule psendsI)
    fix w
    let ?step = "run_scenario env (probe_paths base) s config st"
    let ?w' = "snd (run_scenarios env (probe_paths base) version (s # ss) names config st w)"
    obtain new where 1: "pw_trace (snd (?step w)) = pw_trace w @ new" "list_all (probe_request base) new" "length new \<le> cv_apply_ticks env + 3"
      using psends_run_scenario unfolding psends_def by blast
    have "?w' = snd (?step w) \<or> (\<exists>st' config'. ?w' = snd (run_scenarios env (probe_paths base) version ss (names @ [sc_name s]) config' st' (snd (?step w))))"
      by (auto simp: case_prod_unfold split: sum.split option.split)
    then show "\<exists>new. pw_trace ?w' = pw_trace w @ new \<and> list_all (probe_request base) new \<and> length new \<le> length (s # ss) * (cv_apply_ticks env + 3)"
    proof (elim disjE exE)
      assume "?w' = snd (?step w)"
      with 1 show ?thesis by (intro exI [of _ new]) simp
    next
      fix st' config'
      assume w': "?w' = snd (run_scenarios env (probe_paths base) version ss (names @ [sc_name s]) config' st' (snd (?step w)))"
      from psends_chain [OF 1 Cons] w' show ?thesis by simp
    qed
  qed
qed

lemma psends_ready: "psends (probe_request base) (Suc (cv_ready_ticks env limit)) (ready env limit base)"
proof -
  have "snd (ready env limit base w) = snd (waitForCandidate env base (cv_ready_ticks env limit) w)" for w
    by (simp add: ready_def case_prod_unfold)
  then show ?thesis using psends_waitForCandidate by (simp add: psends_def)
qed

lemma psends_managed:
  "(method, url) \<in> {(''GET'', management base []), (''GET'', management base ''/token-saver/status''),
     (''GET'', management base ''/token-saver/config''), (''GET'', management base ''/token-saver/dashboard''),
     (''POST'', management base ''/token-saver/headroom/check''), (''POST'', management base ''/token-saver/self-test'')} \<Longrightarrow>
   psends (probe_request base) 1 (managed env method url body decode code)"
  unfolding managed_def by (intro psends_or_result psends_jsonRequest) auto

lemma psends_check_public: "psends (probe_request base) 1 (check_public env base enabled st circuit)"
  unfolding check_public_def
  by (rule psends_and_then [OF psends_or_result [OF psends_jsonRequest] psends_no_request]) simp_all

lemma psends_check_page: "psends (probe_request base) 1 (check_page env base)"
proof -
  have "snd (check_page env base w) = snd (jsonRequest env ''GET'' (resource base ''/headroom'') [] None json_parse w)" for w
    by (simp add: check_page_def case_prod_unfold)
  then show ?thesis by (simp add: psends_def jsonRequest_trace)
qed

lemma psends_parts:
  "psends (probe_request base) 1 (check_plugin env base)"
  "psends (probe_request base) 1 (initial_status env base)"
  "psends (probe_request base) 1 (read_dashboard env base url)"
  "psends (probe_request base) 1 (run_check env base)"
  "psends (probe_request base) 1 (probe_self_test env base)"
  unfolding check_plugin_def initial_status_def read_dashboard_def run_check_def probe_self_test_def
  by (rule psends_and_then [OF psends_managed psends_no_request]; simp)+

lemma psends_case_prod [psends_rules]: "(\<And>a b. psends P n (f a b)) \<Longrightarrow> psends P n (case x of (a, b) \<Rightarrow> f a b)"
  by (cases x) simp

lemma probe_scenarios_length [simp]: "length (probe_scenarios url) = 7"
  by (simp add: probe_scenarios_def)

text \<open>The parts of a run, for \<open>rule\<close>.\<close>

lemmas probe_parts = psends_ready psends_parts psends_check_public psends_check_page psends_run_scenarios

lemma psends_probe_plugin:
  "psends (probe_request base) (cv_ready_ticks env limit + 7 * cv_apply_ticks env + 32) (probe_plugin env limit base url)"
  unfolding probe_plugin_def
  by ((rule psends_and_then | rule probe_parts | rule psends_managed | rule psends_no_request | rule psends_case_prod | rule refl | simp; fail)+)

lemma psends_probe_core: "psends (probe_request base) (cv_ready_ticks env limit + 2) (probe_core env limit base)"
proof -
  have "psends (probe_request base) 0 (\<lambda>w. (Inr (core_verdict (pw_provider w)), w))"
    by (simp add: psends_def)
  then show ?thesis unfolding probe_core_def
    by (intro psends_and_then [OF psends_ready] psends_and_then [OF psends_or_result [OF psends_jsonRequest]]) simp_all
qed

text \<open>A run ends before its first request, or is one of the two drives.\<close>

lemma setup_fails:
  "core_setup env = Inl e \<Longrightarrow> \<exists>code. code \<noteq> CodeOK \<and> e = fail code"
  "plugin_setup env opts = Inl e \<Longrightarrow> \<exists>code. code \<noteq> CodeOK \<and> e = fail code"
  by (auto simp: core_setup_def plugin_setup_def require_def split: option.splits if_splits)

lemma setup_base:
  "core_setup env = Inr base \<Longrightarrow> \<exists>port. base = loopback_base port"
  "plugin_setup env opts = Inr (base, url) \<Longrightarrow> \<exists>port. base = loopback_base port"
  by (auto simp: core_setup_def plugin_setup_def require_def split: option.splits if_splits)

lemma Run_cases:
  obtains (early) code where "code \<noteq> CodeOK" "Run env opts = (fail code, probe_start)"
    | (core) base where "op_mode opts = ''core-only''" "core_setup env = Inr base" "Run env opts = finished (probe_core env (probe_timeout (op_limit opts)) base probe_start)"
    | (plugin) base url where "op_mode opts \<noteq> ''core-only''" "plugin_setup env opts = Inr (base, url)"
        "Run env opts = finished (probe_plugin env (probe_timeout (op_limit opts)) base url probe_start)"
proof -
  consider "op_mode opts \<notin> {[], ''plugin'', ''core-only''}" | "op_mode opts \<in> {[], ''plugin'', ''core-only''}" "\<not> cv_regular env (op_candidate_path opts)"
    | "op_mode opts = ''core-only''" "cv_regular env (op_candidate_path opts)"
    | "op_mode opts \<in> {[], ''plugin''}" "cv_regular env (op_candidate_path opts)" by blast
  then show thesis
  proof cases
    case 1
    then have "Run env opts = (fail CodeModeInvalid, probe_start)" by (simp add: Run_def Let_def)
    then show thesis by (intro early [of CodeModeInvalid]) simp_all
  next
    case 2
    then have "Run env opts = (fail CodeCandidateInvalid, probe_start)" by (auto simp: Run_def Let_def)
    then show thesis by (intro early [of CodeCandidateInvalid]) simp_all
  next
    case 3
    then have r: "Run env opts = (case core_setup env of Inl e \<Rightarrow> (e, probe_start) | Inr base \<Rightarrow> finished (probe_core env (probe_timeout (op_limit opts)) base probe_start))"
      by (simp add: Run_def Let_def)
    show thesis
    proof (cases "core_setup env")
      case (Inl e)
      with setup_fails(1) r early show thesis by fastforce
    next
      case (Inr base)
      with 3 r core show thesis by simp
    qed
  next
    case 4
    then have r: "Run env opts = (case plugin_setup env opts of Inl e \<Rightarrow> (e, probe_start)
        | Inr (base, url) \<Rightarrow> finished (probe_plugin env (probe_timeout (op_limit opts)) base url probe_start))" and m: "op_mode opts \<noteq> ''core-only''"
      by (auto simp: Run_def Let_def)
    show thesis
    proof (cases "plugin_setup env opts")
      case (Inl e)
      with setup_fails(2) r early show thesis by fastforce
    next
      case (Inr x)
      obtain base url where "x = (base, url)" by fastforce
      with m r Inr plugin show thesis by simp
    qed
  qed
qed

text \<open>
  C20. A run confines its traffic.  Whatever the candidate answers, every request of a run goes to the one loopback base of the
  port it chose, to one of eleven method and path pairs, with the management credential on the management paths only, the
  client credential on the dispatch only and none on the public resources; and their number is bounded by the ticks of
  the waits.
\<close>
theorem probe_requests_confined:
  "\<exists>port. list_all (probe_request (loopback_base port)) (pw_trace (snd (Run env opts)))
     \<and> length (pw_trace (snd (Run env opts))) \<le> cv_ready_ticks env (probe_timeout (op_limit opts)) + 7 * cv_apply_ticks env + 32"
proof -
  have none: ?thesis if "pw_trace (snd (Run env opts)) = []" using that by simp
  have run: ?thesis if r: "snd (Run env opts) = snd (step probe_start)" "psends (probe_request (loopback_base port)) n step"
      "n \<le> cv_ready_ticks env (probe_timeout (op_limit opts)) + 7 * cv_apply_ticks env + 32" for port n and step :: "(ended + report) probing"
  proof -
    obtain new where "pw_trace (snd (step probe_start)) = pw_trace probe_start @ new" "list_all (probe_request (loopback_base port)) new" "length new \<le> n"
      using r(2) unfolding psends_def by blast
    with r(1,3) show ?thesis by (intro exI [of _ port]) (simp add: probe_start_def)
  qed
  show ?thesis
  proof (cases rule: Run_cases [of env opts])
    case (core base)
    with setup_base(1) obtain port where "base = loopback_base port" by blast
    with core psends_probe_core [of base env "(probe_timeout (op_limit opts))"] show ?thesis
      by (intro run [of "probe_core env (probe_timeout (op_limit opts)) base" port "cv_ready_ticks env (probe_timeout (op_limit opts)) + 2"]) (simp_all add: finished_def)
  next
    case (plugin base url)
    with setup_base(2) obtain port where "base = loopback_base port" by blast
    with plugin psends_probe_plugin [of base env "(probe_timeout (op_limit opts))" url] show ?thesis
      by (intro run [of "probe_plugin env (probe_timeout (op_limit opts)) base url" port "cv_ready_ticks env (probe_timeout (op_limit opts)) + 7 * cv_apply_ticks env + 32"]) (simp_all add: finished_def)
  qed (simp add: none probe_start_def)
qed

subsection \<open>What a report says\<close>

text \<open>\<open>ends Q R step\<close>: the step ends the run with a failure in \<open>Q\<close>, or goes on with a value in \<open>R\<close>.\<close>

definition ends :: "('r \<Rightarrow> bool) \<Rightarrow> ('s \<Rightarrow> bool) \<Rightarrow> ('t \<Rightarrow> ('r + 's) \<times> 't) \<Rightarrow> bool" where
  "ends Q R step \<longleftrightarrow> (\<forall>w. case fst (step w) of Inl e \<Rightarrow> Q e | Inr x \<Rightarrow> R x)"

lemma ends_no_request: "(case r of Inl e \<Rightarrow> Q e | Inr x \<Rightarrow> R x) \<Longrightarrow> ends Q R (no_request r)"
  by (simp add: ends_def no_request_def)

lemma ends_or_result: "(\<And>outcome. Q (failed outcome)) \<Longrightarrow> ends Q (\<lambda>_. True) (or_result failed step)"
  by (simp add: ends_def or_result_def split: prod.split sum.split)

lemma ends_and_then:
  assumes "ends Q R step" "\<And>x. R x \<Longrightarrow> ends Q S (cont x)"
  shows "ends Q S (and_then step cont)"
  unfolding ends_def
proof (intro allI)
  fix w
  have 1: "case fst (step w) of Inl e \<Rightarrow> Q e | Inr x \<Rightarrow> R x" using assms(1) unfolding ends_def by blast
  obtain v w1 where s: "step w = (v, w1)" by fastforce
  show "case fst (and_then step cont w) of Inl e \<Rightarrow> Q e | Inr x \<Rightarrow> S x"
  proof (cases v)
    case (Inl e)
    with 1 s show ?thesis by (simp add: and_then_def)
  next
    case (Inr x)
    with 1 s assms(2) [of x] show ?thesis by (simp add: and_then_def ends_def)
  qed
qed

text \<open>A failing report: not compatible, its code is not \<open>ok\<close>, and the scenarios it names are the first ones, in order.\<close>

definition failing_report :: "ended \<Rightarrow> bool" where
  "failing_report e \<longleftrightarrow>
     (case e of
        None \<Rightarrow> True
      | Some r \<Rightarrow> \<not> rep_compatible r \<and> rep_code r \<noteq> CodeOK
          \<and> (rep_scenarios r = [] \<and> rep_failed r = [] \<or> (\<exists>rest. requiredScenarios = rep_scenarios r @ rep_failed r # rest)))"

lemma failing_fail [simp]: "failing_report (fail code) \<longleftrightarrow> code \<noteq> CodeOK"
  by (simp add: failing_report_def fail_def report_failure_def)

lemma failing_httpCode [simp]: "httpCode outcome code \<noteq> CodeOK \<longleftrightarrow> outcome = httpAuth \<or> code \<noteq> CodeOK"
  by (simp add: httpCode_def)

lemma run_scenario_code: "fst (run_scenario env urls s config st w) \<noteq> Inl (Some CodeOK)"
proof -
  have wait: "fst (waitForAppliedConfig env url generation digest n w) \<noteq> Inl CodeOK" for url generation digest n w
  proof (induction n arbitrary: w)
    case 0
    show ?case
      by (subst waitForAppliedConfig.simps)
        (auto simp: case_prod_unfold applied_verdict_def split: option.split tick.split sum.split if_splits)
  next
    case (Suc n)
    then show ?case
      by (subst waitForAppliedConfig.simps)
        (auto simp: case_prod_unfold applied_verdict_def split: option.split tick.split sum.split if_splits)
  qed
  have "fst (applyProbeConfig env urls config st patch w) \<noteq> Inl (Some CodeOK)" for patch w
    using wait by (auto simp: applyProbeConfig_def Let_def split: json.split sum.split prod.split) (metis fst_conv)+
  moreover have "fst (dispatchProbe env urls body w) \<noteq> Inl CodeOK" for body w
    by (auto simp: dispatchProbe_def split: prod.split sum.split option.split)
  ultimately show ?thesis
    by (auto simp: run_scenario_def Let_def split: prod.split sum.split) (metis fst_conv)+
qed

lemma ends_run_scenarios:
  assumes "requiredScenarios = names @ map sc_name ss"
  shows "ends failing_report (\<lambda>(st, names). names = requiredScenarios) (run_scenarios env urls version ss names config st)"
  using assms
proof (induction ss arbitrary: names config st)
  case Nil
  then show ?case by (simp add: ends_def)
next
  case (Cons s ss)
  show ?case unfolding ends_def
  proof (intro allI)
    fix w
    obtain v w1 where v: "run_scenario env urls s config st w = (v, w1)" by fastforce
    consider "v = Inl None" | code where "v = Inl (Some code)" "code \<noteq> CodeOK" | st' config' where "v = Inr (st', config')"
      using run_scenario_code [of env urls s config st w] v by (metis fst_conv not_None_eq old.sum.exhaust surj_pair)
    then show "case fst (run_scenarios env urls version (s # ss) names config st w) of Inl e \<Rightarrow> failing_report e
        | Inr x \<Rightarrow> (case x of (st, names) \<Rightarrow> names = requiredScenarios)"
    proof cases
      case 1
      with v show ?thesis by (simp add: failing_report_def)
    next
      case 2
      have "\<exists>rest. requiredScenarios = names @ sc_name s # rest"
        using Cons.prems by (intro exI [of _ "map sc_name ss"]) simp
      with 2 v show ?thesis by (simp add: failing_report_def report_failure_def)
    next
      case 3
      with v Cons.IH [of "names @ [sc_name s]" config' st'] Cons.prems show ?thesis by (simp add: ends_def)
    qed
  qed
qed

text \<open>A compatible report of a run with the plugin.\<close>

definition full_report :: "report \<Rightarrow> bool" where
  "full_report r \<longleftrightarrow> rep_compatible r \<and> rep_code r = CodeOK \<and> rep_plugin_id r = RequiredPlugin \<and> rep_plugin_version r = RequiredVersion
     \<and> rep_scenarios r = requiredScenarios \<and> rep_failed r = []"

lemma ends_parts:
  "ends failing_report (\<lambda>_. True) (ready env limit base)"
  "ends failing_report (\<lambda>version. version = RequiredVersion) (check_plugin env base)"
  "ends failing_report (\<lambda>_. True) (check_public env base enabled st circuit)"
  "ends failing_report (\<lambda>_. True) (initial_status env base)"
  "ends failing_report (\<lambda>_. True) (read_dashboard env base url)"
  "ends failing_report (\<lambda>_. True) (run_check env base)"
  "ends failing_report (\<lambda>_. True) (check_page env base)"
  "ends failing_report (\<lambda>_. True) (probe_self_test env base)"
  "code \<noteq> CodeOK \<Longrightarrow> ends failing_report (\<lambda>_. True) (managed env m u b decode code)"
proof -
  show m: "ends failing_report (\<lambda>_. True) (managed env m u b decode code)" if "code \<noteq> CodeOK" for m u b code and decode :: "bytes \<Rightarrow> 'b option"
    unfolding managed_def by (rule ends_or_result) (use that in \<open>simp add: httpCode_def\<close>)
  show "ends failing_report (\<lambda>_. True) (ready env limit base)" "ends failing_report (\<lambda>_. True) (check_page env base)"
    by (simp_all add: ends_def ready_def check_page_def split: prod.split)
  show "ends failing_report (\<lambda>version. version = RequiredVersion) (check_plugin env base)"
    unfolding check_plugin_def managed_def
    by (rule ends_and_then [OF ends_or_result ends_no_request]) (auto simp: httpCode_def require_def split: option.split)
  show "ends failing_report (\<lambda>_. True) (check_public env base enabled st circuit)"
    unfolding check_public_def by (rule ends_and_then [OF ends_or_result ends_no_request]) (auto simp: require_def)
  show "ends failing_report (\<lambda>_. True) (initial_status env base)"
    unfolding initial_status_def managed_def
    by (rule ends_and_then [OF ends_or_result ends_no_request]) (auto simp: httpCode_def require_def Let_def)
  show "ends failing_report (\<lambda>_. True) (read_dashboard env base url)" "ends failing_report (\<lambda>_. True) (run_check env base)"
    "ends failing_report (\<lambda>_. True) (probe_self_test env base)"
    unfolding read_dashboard_def run_check_def probe_self_test_def managed_def
    by (rule ends_and_then [OF ends_or_result ends_no_request]; auto simp: httpCode_def require_def split: option.split)+
qed

lemma ends_scenarios:
  "ends failing_report (\<lambda>(st, names). names = requiredScenarios) (run_scenarios env urls version (probe_scenarios url) [] config st)"
  by (rule ends_run_scenarios) (simp add: requiredScenarios_def probe_scenarios_def)

lemma ends_probe_plugin: "ends failing_report full_report (probe_plugin env limit base url)"
proof -
  have rest: "ends failing_report full_report
      (and_then (read_dashboard env base url) (\<lambda>dashBefore.
       and_then (run_check env base) (\<lambda>chk.
       and_then (read_dashboard env base url) (\<lambda>dashAfter.
       and_then (no_request (require (dashboard_shows chk dashBefore dashAfter) CodeDashboard (Inr ()))) (\<lambda>_.
       and_then (check_public env base True ''ready'' ''closed'') (\<lambda>_.
       and_then (check_page env base) (\<lambda>_.
       and_then (probe_self_test env base) (\<lambda>_.
       no_request (Inr \<lparr>rep_compatible = True, rep_code = CodeOK, rep_plugin_id = RequiredPlugin, rep_plugin_version = version,
         rep_marker_count = 1, rep_generation = mt_config_generation applied, rep_digest = mt_config_digest applied,
         rep_scenarios = names, rep_failed = []\<rparr>)))))))))"
    if "version = RequiredVersion" "names = requiredScenarios" for version names applied
    by (rule ends_and_then [OF ends_parts(5)], rule ends_and_then [OF ends_parts(6)], rule ends_and_then [OF ends_parts(5)],
        rule ends_and_then [where R = "\<lambda>_. True", OF ends_no_request], simp add: require_def,
        rule ends_and_then [OF ends_parts(3)], rule ends_and_then [OF ends_parts(7)], rule ends_and_then [OF ends_parts(8)],
        rule ends_no_request) (use that in \<open>simp add: full_report_def\<close>)
  show ?thesis
    unfolding probe_plugin_def
    by (rule ends_and_then [OF ends_parts(1)], rule ends_and_then [OF ends_parts(2)], rule ends_and_then [OF ends_parts(3)],
        rule ends_and_then [OF ends_parts(4)], rule ends_and_then [OF ends_parts(9)], simp, rule ends_and_then [OF ends_scenarios])
      (auto intro: rest simp del: One_nat_def)
qed

definition plain_failure :: "ended \<Rightarrow> bool" where
  "plain_failure e \<longleftrightarrow> (\<exists>code. code \<noteq> CodeOK \<and> e = fail code)"

lemma ends_probe_core: "ends plain_failure (\<lambda>r. \<exists>p. r = core_verdict p) (probe_core env limit base)"
proof -
  have "ends plain_failure (\<lambda>_. True) (ready env limit base)"
    by (auto simp: ends_def ready_def plain_failure_def split: prod.split)
  then show ?thesis unfolding probe_core_def
    by (rule ends_and_then) (rule ends_and_then [OF ends_or_result], auto simp: plain_failure_def ends_def)
qed

lemma core_verdict_report:
  "rep_compatible (core_verdict p) = (rep_code (core_verdict p) = CodeOK)" "rep_scenarios (core_verdict p) = []"
  "rep_failed (core_verdict p) = []" "rep_compatible (core_verdict p) \<Longrightarrow> rep_marker_count (core_verdict p) = 0"
  by (auto simp: core_verdict_def report_failure_def split: if_splits)

lemma plain_failure_failing: "plain_failure e \<Longrightarrow> \<exists>r. e = Some r \<and> failing_report (Some r)"
  by (auto simp: plain_failure_def failing_report_def fail_def report_failure_def)


text \<open>A configuration that is null makes the run panic: the first patch is assigned into a nil map.\<close>

lemma null_config_panics:
  "dec_ignored_map fl ''null'' = Some JNull"
  "fst (run_scenario env urls s JNull st w) = Inl None"
proof -
  have "json_parse ''null'' = Some JNull" by code_simp
  then show "dec_ignored_map fl ''null'' = Some JNull" by (simp add: dec_ignored_map_def dec_any_map_def)
qed (simp add: run_scenario_def applyProbeConfig_def)

subsection \<open>The name of the plugin file\<close>

lemma last_of_strict_filter:
  "filter P [0..<Suc n] \<noteq> [] \<Longrightarrow>
   P (List.last (filter P [0..<Suc n])) \<and> List.last (filter P [0..<Suc n]) \<le> n \<and> (\<forall>j\<le>n. P j \<longrightarrow> j \<le> List.last (filter P [0..<Suc n]))"
proof -
  let ?xs = "filter P [0..<Suc n]"
  assume ne: "?xs \<noteq> []"
  then have "List.last ?xs \<in> set ?xs" by (rule last_in_set)
  moreover have "sorted ?xs" by (simp add: sorted_wrt_filter del: upt_Suc)
  then have "\<forall>j \<in> set ?xs. j \<le> List.last ?xs"
    using ne by (metis in_set_conv_nth last_conv_nth length_greater_0_conv sorted_iff_nth_mono diff_less less_numeral_extra(1) Suc_diff_1 less_Suc_eq_le)
  ultimately show ?thesis by (auto simp: less_Suc_eq_le simp del: upt_Suc)
qed

lemma last_index_of_iff:
  "last_index_of sub s = Some i \<longleftrightarrow>
     i \<le> length s \<and> has_prefix sub (drop i s) \<and> (\<forall>j\<le>length s. has_prefix sub (drop j s) \<longrightarrow> j \<le> i)"
proof (cases "filter (\<lambda>i. has_prefix sub (drop i s)) [0..<Suc (length s)] = []")
  case True
  then have "\<not> has_prefix sub (drop j s)" if "j \<le> length s" for j
    using that by (auto simp: filter_empty_conv simp del: upt_Suc)
  with True show ?thesis by (auto simp: last_index_of_def)
next
  case False
  note l = last_of_strict_filter [OF False]
  from False have "last_index_of sub s = Some (List.last (filter (\<lambda>i. has_prefix sub (drop i s)) [0..<Suc (length s)]))"
    by (auto simp: last_index_of_def split: list.split simp del: upt_Suc)
  with l show ?thesis by (metis nle_le option.inject)
qed

lemma index_of_None_iff: "index_of sub s = None \<longleftrightarrow> (\<forall>j\<le>length s. \<not> has_prefix sub (drop j s))"
proof (induction s)
  case Nil
  then show ?case by (cases sub) simp_all
next
  case (Cons c s)
  have "(\<forall>j\<le>length (c # s). \<not> has_prefix sub (drop j (c # s))) \<longleftrightarrow>
      \<not> has_prefix sub (c # s) \<and> (\<forall>j\<le>length s. \<not> has_prefix sub (drop j s))"
    by (metis Suc_le_mono drop0 drop_Suc_Cons le0 length_Cons old.nat.exhaust)
  with Cons show ?case by simp
qed

text \<open>The last \<open>-v\<close> of a name starts where the name splits into a prefix and a version without one.\<close>

lemma last_dash_v:
  "last_index_of ''-v'' s = Some i \<longleftrightarrow> (\<exists>rest. s = take i s @ ''-v'' @ rest \<and> length (take i s) = i \<and> index_of ''-v'' rest = None)"
proof
  assume "last_index_of ''-v'' s = Some i"
  then have i: "i \<le> length s" "has_prefix ''-v'' (drop i s)" "\<And>j. j \<le> length s \<Longrightarrow> has_prefix ''-v'' (drop j s) \<Longrightarrow> j \<le> i"
    by (auto simp: last_index_of_iff)
  then obtain rest where r: "drop i s = ''-v'' @ rest"
    unfolding has_prefix_iff by blast
  then have s: "s = take i s @ ''-v'' @ rest" by (metis append_take_drop_id)
  have "\<not> has_prefix ''-v'' (drop j rest)" if "j \<le> length rest" for j
  proof
    assume h: "has_prefix ''-v'' (drop j rest)"
    have d: "drop (i + 2 + j) s = drop j rest" 
    proof -
      have "drop (i + 2 + j) s = drop (2 + j) (drop i s)" by (simp add: ac_simps)
      with r show ?thesis by simp
    qed
    have "length s = i + 2 + length rest" using s i(1) by (metis length_append length_take min.absorb2 length_Cons list.size(3) add_2_eq_Suc' add.assoc add_Suc_right add_Suc add_0)
    with i(3) [of "i + 2 + j"] h d that show False by simp
  qed
  with s i(1) show "\<exists>rest. s = take i s @ ''-v'' @ rest \<and> length (take i s) = i \<and> index_of ''-v'' rest = None"
    by (auto simp: index_of_None_iff)
next
  assume "\<exists>rest. s = take i s @ ''-v'' @ rest \<and> length (take i s) = i \<and> index_of ''-v'' rest = None"
  then obtain rest where r: "s = take i s @ ''-v'' @ rest" "length (take i s) = i" "index_of ''-v'' rest = None" by blast
  then have d: "drop i s = ''-v'' @ rest" by (metis append_eq_conv_conj)
  have "j \<le> i" if j: "j \<le> length s" "has_prefix ''-v'' (drop j s)" for j
  proof (rule ccontr)
    assume "\<not> j \<le> i"
    then obtain k where k: "j = Suc (i + k)" by (metis not_less less_iff_Suc_add)
    have dj: "drop j s = drop (Suc k) (''-v'' @ rest)" 
    proof -
      have "drop j s = drop (Suc k) (drop i s)" by (simp add: k ac_simps)
      with d show ?thesis by simp
    qed
    show False
    proof (cases k)
      case 0
      with dj j(2) show False by simp
    next
      case (Suc m)
      with dj have "drop j s = drop m rest" by simp
      moreover from this j(2) have "m \<le> length rest" by (cases "m \<le> length rest") simp_all
      ultimately show False using r(3) j(2) by (simp add: index_of_None_iff)
    qed
  qed
  with d r(2) show "last_index_of ''-v'' s = Some i" by (auto simp: last_index_of_iff)
qed

text \<open>
  C40. The name of a plugin file splits exactly one way.  A name yields an identifier and a version exactly when it
  is the identifier, \<open>-v\<close>, the version and the suffix \<open>.so\<close> in any case, both parts are well formed and the version has
  no other \<open>-v\<close>: so the identifier is all that comes before the last one, never a shorter part of the name.
\<close>
theorem plugin_filename_exact:
  "parsePluginFilename path = Some (ident, version) \<and> version \<noteq> [] \<longleftrightarrow>
     (\<exists>ext. path_base path = ident @ ''-v'' @ version @ ext \<and> map lower_byte ext = ''.so''
        \<and> plugin_id_ok ident \<and> plugin_version_ok version \<and> index_of ''-v'' version = None)"
proof
  assume p: "parsePluginFilename path = Some (ident, version) \<and> version \<noteq> []"
  let ?base = "path_base path"
  let ?name = "take (length ?base - 3) ?base"
  have suffix: "has_suffix ''.so'' (map lower_byte ?base)"
    by (rule ccontr) (use p in \<open>simp add: parsePluginFilename_def Let_def\<close>)
  with p obtain k where k: "last_index_of ''-v'' ?name = Some (Suc k)" "ident = take (Suc k) ?name" "version = drop (Suc k + 2) ?name"
      "plugin_id_ok ident" "plugin_version_ok version"
    by (auto simp: parsePluginFilename_def Let_def split: if_splits option.splits nat.splits)
  from k(1) obtain rest where r: "?name = take (Suc k) ?name @ ''-v'' @ rest" "length (take (Suc k) ?name) = Suc k" "index_of ''-v'' rest = None"
    by (auto simp: last_dash_v)
  have "version = rest" using r(1,2) k(3) by (metis append_eq_conv_conj append_assoc add_2_eq_Suc' length_append length_Cons list.size(3) numeral_2_eq_2)
  with r(3) have n2: "index_of ''-v'' version = None" by simp
  have name: "?name = ident @ ''-v'' @ version"
    unfolding k(2) \<open>version = rest\<close> by (rule r(1))
  let ?ext = "drop (length ?base - 3) ?base"
  have e1: "map lower_byte ?ext = ''.so''" 
  proof -
    obtain t where "map lower_byte ?base = t @ ''.so''"
      using suffix unfolding has_suffix_def has_prefix_iff by (metis rev_append rev_rev_ident)
    moreover have "length ?base = length (map lower_byte ?base)" by simp
    ultimately show ?thesis by (simp flip: drop_map)
  qed
  have e2: "?base = ident @ ''-v'' @ version @ ?ext" 
  proof -
    have "?base = ?name @ ?ext" by (rule append_take_drop_id [symmetric])
    also have "\<dots> = (ident @ ''-v'' @ version) @ ?ext" by (rule arg_cong [OF name, of "\<lambda>x. x @ ?ext"])
    also have "\<dots> = ident @ ''-v'' @ version @ ?ext" by (simp only: append_assoc)
    finally show ?thesis .
  qed
  show "\<exists>ext. ?base = ident @ ''-v'' @ version @ ext \<and> map lower_byte ext = ''.so''
        \<and> plugin_id_ok ident \<and> plugin_version_ok version \<and> index_of ''-v'' version = None"
    by (rule exI [of _ ?ext]) (rule conjI [OF e2 conjI [OF e1 conjI [OF k(4) conjI [OF k(5) n2]]]])
next
  assume "\<exists>ext. path_base path = ident @ ''-v'' @ version @ ext \<and> map lower_byte ext = ''.so''
        \<and> plugin_id_ok ident \<and> plugin_version_ok version \<and> index_of ''-v'' version = None"
  then obtain ext where e: "path_base path = ident @ ''-v'' @ version @ ext" "map lower_byte ext = ''.so''"
      "plugin_id_ok ident" "plugin_version_ok version" "index_of ''-v'' version = None" by (elim exE conjE) (rule that)
  have l: "length ext = 3" using arg_cong [OF e(2), of length] by simp
  have suffix: "has_suffix ''.so'' (map lower_byte (path_base path))"
    using e(2) by (simp add: e(1) has_suffix_def flip: rev_map)
  have name: "take (length (path_base path) - 3) (path_base path) = ident @ ''-v'' @ version" using l by (simp add: e(1))
  obtain k where k: "length ident = Suc k" using e(3) by (cases ident) (auto simp: plugin_id_ok_def)
  have "last_index_of ''-v'' (ident @ ''-v'' @ version) = Some (Suc k)" using k e(5) by (auto simp: last_dash_v)
  moreover have "\<not> has_prefix ''v'' version" "version \<noteq> []" using e(4)
    by (auto simp: plugin_version_ok_def is_digit_def split: list.splits)
  ultimately show "parsePluginFilename path = Some (ident, version) \<and> version \<noteq> []"
    using suffix e(3,4) k by (simp add: parsePluginFilename_def name Let_def)
qed

end
