(* ===== verification/RuntimeInv.thy ===== *)
theory RuntimeInv
  imports Abi Generations
begin

text \<open>
  What stays true of the counters and of the management handler over every history of a runtime.  The interface
  is what each single record and each management call keeps; the walk through the request path, the lifecycle
  calls and the management calls is done once.
\<close>

locale runtime_invariant =
  fixes R :: "registry \<Rightarrow> bool"
    and H :: "handler \<Rightarrow> bool"
  assumes recorded: "R m \<Longrightarrow> R (record_outcome st oc i j d r m)"
    and all_bypassed: "R m \<Longrightarrow> R (record_all_bypassed n r m)"
    and published: "R m \<Longrightarrow> R (PublishGeneration k m)"
    and begun: "R m \<Longrightarrow> R (Begin k m)"
    and ended: "R m \<Longrightarrow> R (End k m)"
    and fresh: "R (New now)"
    and handled: "H h \<Longrightarrow> H (snd (Handle env q h))"
    and new_handler: "H (NewHandler b v s)"
begin

lemma local_stage: "R m \<Longrightarrow> R (snd (runLocalStage env opts st enabled body r cfg apply m))"
  by (auto simp: runLocalStage_def Let_def recorded split: stage_reply.split option.split bool.split)

lemma headroom_stage: "R m \<Longrightarrow> R (snd (runHeadroomStage env opts runner cfg body r m))"
  by (auto simp: runHeadroomStage_def Let_def recorded split: runner_reply.split option.split bool.split)

lemma compress_stages: "R m \<Longrightarrow> R (snd (compress_stages env opts runner cfg body r m))"
  by (simp add: compress_stages_def case_prod_unfold Let_def headroom_stage local_stage)

lemma dedupe_do:
  assumes "R m" "\<And>m. R m \<Longrightarrow> R (snd (work m))"
  shows "R (snd (snd (dedupe_do env key work c m)))"
  using assms by (auto simp: dedupe_do_def Let_def case_prod_unfold split: entered.split)

lemma normalize_compress: "R m \<Longrightarrow> R (snd (snd (normalize_compress env opts runner generation cfg r c m)))"
proof -
  assume m: "R m"
  let ?do = "dedupe_do env (dedupeKey (ne_hash env) generation r) (Pipeline.compress_stages env opts runner cfg (rq_body r) r) c m"
  obtain v hit e c1 m1 where d: "?do = ((v, hit, e), c1, m1)" by (metis prod.collapse)
  have "R m1" using dedupe_do [OF m, of "Pipeline.compress_stages env opts runner cfg (rq_body r) r"] compress_stages d by (metis snd_conv)
  with d m show ?thesis
    by (auto simp: normalize_compress_def Let_def case_prod_unfold record_pipeline_def intro!: recorded local_stage)
qed

lemma normalize_finish: "R m \<Longrightarrow> R (snd (normalize_finish env opts working r m))"
  by (auto simp: normalize_finish_def Let_def record_pipeline_def recorded)

lemma Normalize: "R m \<Longrightarrow> R (snd (snd (Normalize env opts runner generation cfg r c m)))"
proof -
  assume m: "R m"
  have 1: "R (snd (snd (normalize_compress env opts runner generation cfg r c m)))" by (rule normalize_compress [OF m])
  show ?thesis
    by (auto simp: Normalize_def Let_def case_prod_unfold record_pipeline_def recorded all_bypassed m
        intro!: normalize_finish local_stage 1)
qed

text \<open>The service and the runtime.\<close>

definition holds :: "runtime \<Rightarrow> bool" where
  "holds rt \<longleftrightarrow> R (sv_metrics (rn_service rt)) \<and> H (rn_handler rt)"

lemma holds_active [simp]: "holds (rt\<lparr>rn_active := n\<rparr>) = holds rt" "holds (rt\<lparr>rn_stopped := b\<rparr>) = holds rt"
  "holds (rt\<lparr>rn_store := st\<rparr>) = holds rt" "holds (rt\<lparr>rn_cache := c\<rparr>) = holds rt"
  by (simp_all add: holds_def)

lemma service_normalize: "holds rt \<Longrightarrow> holds (snd (service_normalize env r rt))"
  by (auto simp: service_normalize_def holds_def Let_def case_prod_unfold acquire_def end_metric_def release_metrics
      intro!: ended Normalize begun split: option.split)

lemma Reconfigure: "R (sv_metrics s) \<Longrightarrow> R (sv_metrics (snd (Reconfigure cfg reply s)))"
  by (auto simp: Reconfigure_def publish_generation_def Let_def case_prod_unfold published split: factory_reply.split)

lemma configure_service: "holds rt \<Longrightarrow> holds (snd (configure_service env st rt))"
  using Reconfigure [of "rn_service rt"]
  by (auto simp: configure_service_def holds_def Let_def split: prod.split) (metis snd_conv)+

lemma manage: "holds rt \<Longrightarrow> holds (snd (manage env q rt))"
proof -
  assume h: "holds rt"
  let ?q = "self_test_request (config_Snapshot (rn_store rt))"
  have "holds (snd (service_normalize env ?q rt))" by (rule service_normalize [OF h])
  with h show ?thesis
    using handled [of "rn_handler rt" "management_env env rt" q]
    by (auto simp: manage_def holds_def split: prod.split)
qed

lemma dispatch: "holds rt \<Longrightarrow> holds (snd (dispatch env name data rt))"
proof -
  assume h: "holds rt"
  have n: "holds rt'" if "service_normalize env r rt = (body, rt')" for r body rt'
    using service_normalize [OF h, of env r] that by simp
  have m: "holds rt'" if "manage env q rt = (response, rt')" for q response rt'
    using manage [OF h, of env q] that by simp
  have "holds (snd (register env data rt))" "holds (snd (reconfigure env data rt))"
    using configure_service [OF h] h by (auto simp: register_def reconfigure_def split: sum.split prod.split)
  with n m h show ?thesis by (auto simp: dispatch_def split: option.split prod.split)
qed

theorem reach: "runtime_reach y g rt \<Longrightarrow> holds rt"
proof (induction rule: runtime_reach.induct)
  case (runtime_new hash now)
  show ?case by (simp add: holds_def NewRuntime_def NewService_def published fresh new_handler)
next
  case (runtime_call rt env name data)
  then show ?case using dispatch [of "rt\<lparr>rn_active := rn_active rt + 1\<rparr>" env name data]
    by (auto simp: Call_def call_acquire_def call_release_def split: prod.split)
next
  case (runtime_shutdown rt)
  then show ?case by (simp add: holds_def shutdown_begin_def shutdown_end_def Close_metrics)
qed

end

lemma self_test_records: "\<exists>at w. snd (self_test_attempts env k h) = recordSelfTestAt at w h"
proof (induction env k h rule: self_test_attempts.induct)
  case (1 env k h)
  obtain cfg valid digest where st: "StatusSnapshot (mn_hash env) (mn_store_at env k) = (cfg, valid, digest)"
    by (metis prod.collapse)
  consider "2 \<le> k" | "\<not> 2 \<le> k" "\<not> valid" | "\<not> 2 \<le> k" "valid" "mn_generation env (3 * k) \<noteq> mn_generation env (3 * k + 1)"
    | "\<not> 2 \<le> k" "valid" "mn_generation env (3 * k) = mn_generation env (3 * k + 1)" "mn_generation env (3 * k) \<noteq> mn_generation env (3 * k + 2)"
    | "\<not> 2 \<le> k" "valid" "mn_generation env (3 * k) = mn_generation env (3 * k + 1)" "mn_generation env (3 * k) = mn_generation env (3 * k + 2)"
    by blast
  then show ?case
  proof cases
    case 3
    then show ?thesis using 1(1) st by (subst self_test_attempts.simps) simp
  next
    case 4
    then show ?thesis using 1(2) st by (subst self_test_attempts.simps) (simp add: Let_def)
  qed (use st in \<open>subst self_test_attempts.simps; auto simp: Let_def\<close>)+
qed

subsection \<open>The interpretation\<close>

text \<open>
  The routes of the registry have known formats, and the last check of the handler, if any, has an outcome of the client.
\<close>

definition outcome_known :: "handler \<Rightarrow> bool" where
  "outcome_known h \<longleftrightarrow> hd_outcome h = ''unknown'' \<or> (\<exists>oc. hd_outcome h = outcome_name oc)"

lemma route_keys_known_fields:
  "reg_routes m' = reg_routes m \<Longrightarrow> route_keys_known m' = route_keys_known m"
  by (simp add: route_keys_known_def)

lemma self_test_outcome: "hd_outcome (snd (self_test_attempts env k h)) = hd_outcome h"
proof -
  obtain at w where "snd (self_test_attempts env k h) = recordSelfTestAt at w h" using self_test_records by blast
  then show ?thesis by (simp add: recordSelfTestAt_def)
qed

interpretation runtime_facts: runtime_invariant route_keys_known outcome_known
proof
  fix m st oc i j d r n
  assume k: "route_keys_known m"
  show "route_keys_known (record_outcome st oc i j d r m)"
    unfolding record_outcome_def by (rule route_keys_known_RecordRoute) (simp add: route_keys_known_fields k)
  show "route_keys_known (record_all_bypassed n r m)"
    unfolding record_all_bypassed_def
    by (rule route_keys_known_bypass_route) (simp add: route_keys_known_fields [of _ m] RecordAllBypassed_def k)
  show "route_keys_known (PublishGeneration w m)" "route_keys_known (Begin w m)" "route_keys_known (End w m)" for w
    by (simp_all add: route_keys_known_fields [of _ m] PublishGeneration_def Begin_def End_def Let_def k)
next
  show "route_keys_known (New now)" for now by (rule route_keys_known_New)
  show "outcome_known (NewHandler b v s)" for b v s by (simp add: outcome_known_def NewHandler_def)
next
  fix h env q
  assume "outcome_known h"
  then show "outcome_known (snd (Handle env q h))"
    using self_test_outcome [of env 0 h]
    by (auto simp: outcome_known_def Handle_def selfTest_def Let_def check_def check_enter_def check_finish_def recordCheck_def
        split: prod.splits option.splits if_splits)
qed

end
