(* ===== verification/Release.thy ===== *)
theory Release
  imports Verifier Wire RuntimeInv
begin

text \<open>
  The plugin's status as its management route writes it, and what the update verifier makes of it: the
  bytes of \<open>Wire\<close> against the structs of \<open>tools/update-verifier/verifier/types.go\<close>.
\<close>

subsection \<open>It reads back\<close>

definition observed_of :: "status_dto \<Rightarrow> observed_status" where
  "observed_of s = \<lparr>os_build_version = sd_build_version s, os_abi_version = sd_abi_version s, os_rpc_schema = sd_rpc_schema s,
     os_fixture_revision = sd_fixture_revision s, os_live = sd_live s, os_config = config_text (sd_config s),
     os_config_generation = sd_config_generation s, os_config_digest = sd_config_digest s,
     os_pipeline = pipeline_text (sd_pipeline s), os_dependency = dependency_text (sd_dependency s),
     os_headroom_desired = sd_headroom_desired s, os_headroom_effective = sd_headroom_effective s\<rparr>"

lemma status_decodes: "dec_object set_status (status_json fmt s) zero_status = Some (observed_of s)"
  by (simp add: dec_object_def status_json_def set_status_def names_field_def lower_byte_def dec_string_def dec_bool_def
      dec_word_json zero_status_def observed_of_def)

subsection \<open>Every reachable runtime\<close>

text \<open>The identity a runtime reports, and a store whose digest is hexadecimal text.\<close>

definition reports_release :: "runtime \<Rightarrow> bool" where
  "reports_release rt \<longleftrightarrow> hd_build_version (rn_handler rt) = PluginVersion \<and> hd_abi_version (rn_handler rt) = ABIVersion
     \<and> hd_rpc_schema (rn_handler rt) = RPCSchemaVersion \<and> (\<exists>st b. rn_store rt = Some st \<and> sst_digest st = hex_encode b)"

lemma self_test_identity:
  "hd_build_version (snd (selfTest env h)) = hd_build_version h \<and> hd_abi_version (snd (selfTest env h)) = hd_abi_version h
   \<and> hd_rpc_schema (snd (selfTest env h)) = hd_rpc_schema h"
  using self_test_records [of env 0 h] by (auto simp: selfTest_def recordSelfTestAt_def)

lemma Handle_identity:
  "hd_build_version (snd (Handle env q h)) = hd_build_version h \<and> hd_abi_version (snd (Handle env q h)) = hd_abi_version h
   \<and> hd_rpc_schema (snd (Handle env q h)) = hd_rpc_schema h"
  using self_test_identity [of env h]
  by (auto simp: Handle_def Let_def check_def check_enter_def check_finish_def recordCheck_def split: prod.splits option.splits if_splits)

lemma NewStore_hex: "\<exists>st b. fst (NewStore y hash raw) = Some st \<and> sst_digest st = hex_encode b"
  by (auto simp: NewStore_def Let_def publish_def newStoreState_def Digest_def split: sum.split)

lemma service_normalize_kept:
  "rn_handler (snd (service_normalize env r rt)) = rn_handler rt \<and> rn_store (snd (service_normalize env r rt)) = rn_store rt"
  by (auto simp: service_normalize_def Let_def split: option.split prod.split)

lemma configure_service_kept:
  "configure_service env st rt = (reply, rt') \<Longrightarrow> rn_handler rt' = rn_handler rt \<and> (rn_store rt' = rn_store rt \<or> rn_store rt' = st)"
  by (auto simp: configure_service_def Let_def split: prod.splits if_splits)

lemma manage_kept:
  "reports_release rt \<Longrightarrow> reports_release (snd (manage env q rt))"
  using Handle_identity [of "management_env env rt" q "rn_handler rt"] service_normalize_kept [of env "self_test_request (config_Snapshot (rn_store rt))" rt]
  by (auto simp: manage_def reports_release_def split: prod.split)

lemma dispatch_reports:
  assumes "reports_release rt"
  shows "reports_release (snd (dispatch env name data rt))"
proof -
  have c: "reports_release (snd (configure_service env (fst (NewStore y hash raw)) rt))" for y hash raw
    using configure_service_kept [of env "fst (NewStore y hash raw)" rt] NewStore_hex [of y hash raw] assms
    unfolding reports_release_def by (metis prod.collapse)
  have n: "reports_release (snd (service_normalize env r rt))" for r
    using service_normalize_kept [of env r rt] assms by (simp add: reports_release_def)
  have n': "reports_release rt'" if "service_normalize env r rt = (body, rt')" for r body rt'
    using n [of r] that by simp
  have m': "reports_release rt'" if "manage env q rt = (response, rt')" for q response rt'
    using manage_kept [OF assms, of env q] that by simp
  have r: "reports_release (snd (register env data rt))"
    using c [of "ae_yaml env" "ae_hash env"] assms by (simp add: register_def split: sum.split)
  have "reports_release (snd (reconfigure env data rt))"
  proof (cases "decodeLifecycleRequest (ae_decode_error env) data")
    case (Inr q)
    obtain st e where "NewStore (ae_yaml env) (ae_hash env) (lr_config_yaml q) = (st, e)" by fastforce
    with Inr show ?thesis using c [of "ae_yaml env" "ae_hash env" "lr_config_yaml q"] assms by (simp add: reconfigure_def)
  qed (use assms in \<open>simp add: reconfigure_def\<close>)
  with r have "reports_release (snd (register env data rt))" "reports_release (snd (reconfigure env data rt))" by simp_all
  then show ?thesis
    using n' m' assms by (auto simp: dispatch_def split: option.split prod.split)
qed

lemma reports_release_active [simp]: "reports_release (rt\<lparr>rn_active := n\<rparr>) = reports_release rt"
  by (simp add: reports_release_def)

lemma runtime_reach_reports: "runtime_reach y g rt \<Longrightarrow> reports_release rt"
proof (induction rule: runtime_reach.induct)
  case (runtime_new hash now)
  show ?case using NewStore_hex [of y hash "[]"]
    by (simp add: reports_release_def NewRuntime_def NewHandler_def PluginVersion_def)
next
  case (runtime_call rt env name data)
  then show ?case
    using dispatch_reports [of "rt\<lparr>rn_active := rn_active rt + 1\<rparr>" env name data]
    by (auto simp: Call_def call_acquire_def call_release_def split: prod.split)
next
  case (runtime_shutdown rt)
  then show ?case by (simp add: reports_release_def shutdown_begin_def shutdown_end_def)
qed

subsection \<open>The verifier accepts the plugin\<close>

definition runtime_status :: "('n, 'r) abi_env \<Rightarrow> runtime \<Rightarrow> status_dto" where
  "runtime_status env rt = status (management_env env rt) (rn_handler rt)"

lemma runtime_status_fields:
  assumes "reports_release rt"
  shows "sd_build_version (runtime_status env rt) = PluginVersion" "sd_abi_version (runtime_status env rt) = ABIVersion"
    "sd_rpc_schema (runtime_status env rt) = RPCSchemaVersion" "sd_fixture_revision (runtime_status env rt) = VerifierFixture"
    "sd_live (runtime_status env rt)" "\<exists>b. sd_config_digest (runtime_status env rt) = hex_encode b"
  using assms
  by (auto simp: runtime_status_def status_def reports_release_def management_env_def StatusSnapshot_def FixtureRevision_def
      VerifierFixture_def Let_def split: prod.split)

text \<open>The words of a status are always a truth the verifier knows.\<close>

lemma status_healthy: "healthyTruth (observed_of (status env h))"
  by (auto simp: status_def observed_of_def healthyTruth_def Let_def split: prod.split)

lemma hex_digit_ascii: "d < 16 \<Longrightarrow> hex_digit d < CHR 0x80"
proof -
  have "list_all (\<lambda>d. hex_digit d < CHR 0x80) [0..<16]" by code_simp
  then show "d < 16 \<Longrightarrow> ?thesis" by (simp add: list_all_iff)
qed

lemma valid_hex: "valid_utf8 (hex_encode b)"
proof -
  have "list_all (\<lambda>c. c < CHR 0x80) (hex_encode b)"
    using of_char_lt by (auto simp: hex_encode_def list_all_iff hex_digit_ascii less_mult_imp_div_less)
  then show ?thesis by (rule valid_utf8_ascii)
qed

lemma approval_identity:
  assumes "ParseApproval raw = Inr a"
  shows "pg_version (aa_plugin a) = ''1.2.7''" "pg_abi (aa_plugin a) = 1" "pg_rpc (aa_plugin a) = 3"
  using assms validApprovalDocument_facts(2) by (auto simp: ParseApproval_def split: option.splits if_splits)

lemma runtime_status_accepted:
  assumes "reports_release rt" "ParseApproval raw = Inr a"
  shows "status_accepted a (observed_of (runtime_status env rt)) \<longleftrightarrow> sd_config (runtime_status env rt) = ConfigValid"
proof -
  have w: "config_text w = ''valid'' \<longleftrightarrow> w = ConfigValid" for w by (cases w) simp_all
  have h: "healthyTruth (observed_of (runtime_status env rt))" unfolding runtime_status_def by (rule status_healthy)
  show ?thesis
    using runtime_status_fields [OF assms(1), of env] approval_identity [OF assms(2)] h w
    by (simp add: status_accepted_def observed_of_def PluginVersion_def ABIVersion_def RPCSchemaVersion_def)
qed

lemma runtime_status_reads_back:
  assumes "reports_release rt" "\<And>t. valid_utf8 (fmt t)"
  shows "unmarshal set_status zero_status (json_marshal (status_json fmt (runtime_status env rt))) = Some (observed_of (runtime_status env rt))"
proof -
  note f = runtime_status_fields [OF assms(1), of env]
  obtain b where b: "sd_config_digest (runtime_status env rt) = hex_encode b" using f(6) by blast
  have "good_json (status_json fmt (runtime_status env rt)) 0"
    by (rule good_status) (use f b assms(2) in \<open>simp_all add: valid_hex valid_utf8_ascii PluginVersion_def VerifierFixture_def\<close>)
  then show ?thesis by (simp add: unmarshal_def json_parse_marshal status_decodes)
qed

lemma self_test_reads_back:
  assumes "\<And>t. valid_utf8 (fmt t)"
  shows "unmarshal set_self_test \<lparr>ot_fixture_revision = [], ot_result = []\<rparr> (json_marshal (self_test_json fmt at w))
    = Some \<lparr>ot_fixture_revision = FixtureRevision, ot_result = self_test_text w\<rparr>"
proof -
  have "good_json (self_test_json fmt at w) 0"
    by (simp add: self_test_json_def max_depth_def FixtureRevision_def valid_utf8_ascii assms)
  then have "json_parse (json_marshal (self_test_json fmt at w)) = Some (self_test_json fmt at w)" by (rule json_parse_marshal)
  then show ?thesis
    by (simp add: unmarshal_def dec_object_def self_test_json_def set_self_test_def names_field_def lower_byte_def dec_string_def)
qed


text \<open>A new runtime with the defaults, before and after.\<close>

definition demo_runtime :: runtime where
  "demo_runtime = NewRuntime demo_yaml id 0"

lemma demo_runtime_status:
  "sd_config (runtime_status demo_abi_env demo_runtime) = ConfigValid"
  "sd_config_digest (runtime_status demo_abi_env demo_runtime) = Digest id Defaults"
proof -
  have "trim_space [] = []" by code_simp
  then show "sd_config (runtime_status demo_abi_env demo_runtime) = ConfigValid"
    "sd_config_digest (runtime_status demo_abi_env demo_runtime) = Digest id Defaults"
    by (simp_all add: runtime_status_def status_def demo_runtime_def NewRuntime_def NewStore_def Parse_def publish_def newStoreState_def
        StatusSnapshot_def management_env_def Let_def)
qed


end
