(* ===== verification/ProbeContract.thy ===== *)
theory ProbeContract
  imports ProbeChecks Release RuntimeInv
begin

text \<open>
  The plugin against the compatibility probe: the dashboard, the public status and the status a plugin of this source
  writes (\<open>Wire\<close>) are read back by the probe (\<open>ProbeChecks\<close>) as what they were written from, and its tests of form
  never fail; what is left to them are the values the probe is after.
\<close>

subsection \<open>What the probe reads\<close>

definition counters_of :: "dashboard_stage \<Rightarrow> probe_counters" where
  "counters_of s = \<lparr>pc_executed = ds_executed s, pc_bypassed = ds_bypassed s, pc_fail_open = ds_fail_open s, pc_timeout = ds_timeout s,
     pc_saturated = ds_saturated s, pc_input = ds_input_bytes s, pc_output = ds_output_bytes s, pc_saved = ds_saved_bytes s,
     pc_duration = ds_duration_nano s\<rparr>"

definition outcomes_of :: "outcome_projection \<Rightarrow> probe_outcomes" where
  "outcomes_of c = \<lparr>po_executed = op_executed c, po_bypassed = op_bypassed c, po_fail_open = op_fail_open c,
     po_timeout = op_timeout c, po_saturated = op_saturated c\<rparr>"

definition route_of :: "route_snapshot \<Rightarrow> probe_route" where
  "route_of r = \<lparr>po_from = rs_from r, po_to = rs_to r,
     po_stages = \<lparr>pr_pipeline = outcomes_of (rp_pipeline (rs_stages r)), pr_rtk = outcomes_of (rp_rtk (rs_stages r)),
       pr_headroom = outcomes_of (rp_headroom (rs_stages r)), pr_caveman = outcomes_of (rp_caveman (rs_stages r)),
       pr_ponytail = outcomes_of (rp_ponytail (rs_stages r))\<rparr>\<rparr>"

definition probe_view :: "dashboard_dto \<Rightarrow> probe_dashboard" where
  "probe_view d = \<lparr>pb_started_at = dd_started_at d,
     pb_headroom = \<lparr>ph_enabled = dh_enabled (dd_headroom d), ph_url = dh_url (dd_headroom d),
       ph_status = status_text (dh_status (dd_headroom d)), ph_circuit = circuit_text (dh_circuit (dd_headroom d)),
       ph_last_checked_at = dh_last_checked_at (dd_headroom d), ph_last_latency_ms = dh_last_latency_ms (dd_headroom d),
       ph_last_outcome = dh_last_outcome (dd_headroom d)\<rparr>,
     pb_stages = \<lparr>pt_rtk = counters_of (dd_rtk d), pt_headroom = counters_of (dd_headroom_stage d),
       pt_caveman = counters_of (dd_caveman d), pt_ponytail = counters_of (dd_ponytail d)\<rparr>,
     pb_routes = \<lparr>gs_memory = map route_of (dd_route_outcomes d), gs_length = length (dd_route_outcomes d)\<rparr>\<rparr>"

text \<open>A codec that reads the times it writes.\<close>

definition reads_times :: "(gotime \<Rightarrow> bytes) \<Rightarrow> time_codec \<Rightarrow> bool" where
  "reads_times fmt tc \<longleftrightarrow> (\<forall>t. valid_utf8 (fmt t) \<and> tc_parse tc (fmt t) = Some t)"

named_theorems reading
  \<open>evaluation of the probe's decoders on written values\<close>

lemma names_simps [reading]: "names_field a b = (fold_name b = fold_name a)"
  by (simp add: names_field_def)

declare fold_name.simps [reading] lower_byte_def [reading] dec_object_def [reading] dec_string_def [reading] dec_bool_def [reading]

lemma dec_u64_word [reading]: "dec_u64 (word_json (v :: u64)) cur = Some v"
  by (rule dec_word_json(2))

lemma counters_read: "dec_object set_counters (dashboard_stage_json s) c = Some (counters_of s)"
  by (simp add: dashboard_stage_json_def set_counters_def counters_of_def reading)

lemma stages_read:
  "dec_object set_stages (dashboard_stages_json d) p = Some \<lparr>pt_rtk = counters_of (dd_rtk d), pt_headroom = counters_of (dd_headroom_stage d),
     pt_caveman = counters_of (dd_caveman d), pt_ponytail = counters_of (dd_ponytail d)\<rparr>"
  by (simp add: dashboard_stages_json_def set_stages_def counters_read names_simps fold_name.simps lower_byte_def dec_object_def [of set_stages])

lemma outcomes_read: "dec_object set_outcomes (outcome_json c) p = Some (outcomes_of c)"
  by (simp add: outcome_json_def set_outcomes_def outcomes_of_def reading)

lemma route_read: "dec_object set_route (route_json r) zero_route = Some (route_of r)"
proof -
  have "dec_object set_route_stages (route_stages_json p) q = Some \<lparr>pr_pipeline = outcomes_of (rp_pipeline p), pr_rtk = outcomes_of (rp_rtk p),
      pr_headroom = outcomes_of (rp_headroom p), pr_caveman = outcomes_of (rp_caveman p), pr_ponytail = outcomes_of (rp_ponytail p)\<rparr>" for p q
    by (simp add: route_stages_json_def set_route_stages_def outcomes_read names_simps fold_name.simps lower_byte_def
        dec_object_def [of set_route_stages])
  then show ?thesis
    by (simp add: route_json_def set_route_def route_of_def zero_route_def names_simps fold_name.simps lower_byte_def dec_string_def
        dec_object_def [of set_route])
qed

lemma routes_read:
  "dec_slice (dec_object set_route) zero_route (JArr (map route_json rs)) nil_slice =
     Some \<lparr>gs_memory = map route_of rs, gs_length = length rs\<rparr>"
proof -
  have "dec_items (dec_object set_route) zero_route (map route_json rs) [] = Some (map route_of rs)"
    by (induction rs) (simp_all add: route_read)
  then show ?thesis by (cases rs) (simp_all add: dec_slice_def nil_slice_def)
qed

lemma headroom_read:
  assumes "reads_times fmt tc"
  shows "dec_object (set_headroom tc) (dashboard_headroom_json fmt h)
      \<lparr>ph_enabled = False, ph_url = [], ph_status = [], ph_circuit = [], ph_last_checked_at = None, ph_last_latency_ms = None, ph_last_outcome = []\<rparr> =
    Some \<lparr>ph_enabled = dh_enabled h, ph_url = dh_url h, ph_status = status_text (dh_status h), ph_circuit = circuit_text (dh_circuit h),
      ph_last_checked_at = dh_last_checked_at h, ph_last_latency_ms = dh_last_latency_ms h, ph_last_outcome = dh_last_outcome h\<rparr>"
proof -
  have t: "dec_pointer (dec_time tc) z (nullable (\<lambda>t. JStr (fmt t)) at) None = Some at" for z at
    using assms by (cases at) (simp_all add: nullable_def dec_pointer_def dec_time_def reads_times_def)
  have l: "dec_pointer dec_u64 0 (nullable word_json v) None = Some v" for v :: "u64 option"
    by (cases v) (simp_all add: nullable_def dec_pointer_def dec_u64_word, simp add: word_json_def)
  show ?thesis by (simp add: dashboard_headroom_json_def set_headroom_def t l reading)
qed

lemma dashboard_read:
  assumes "reads_times fmt tc"
  shows "dec_object (set_dashboard tc) (dashboard_json fmt d) (zero_dashboard tc) = Some (probe_view d)"
proof -
  have "dec_time tc (JStr (fmt t)) cur = Some t" for t cur
    using assms by (simp add: dec_time_def reads_times_def)
  then show ?thesis
    by (simp add: dashboard_json_def set_dashboard_def zero_dashboard_def headroom_read [OF assms] stages_read routes_read
        names_simps fold_name.simps lower_byte_def dec_object_def [of "set_dashboard tc"] probe_view_def)
qed

subsection \<open>The tests of form\<close>

lemma route_form: "validRouteOutcomeRaw (route_json r)"
  by (simp add: validRouteOutcomeRaw_def raw_fields_def raw_map_def exactRawFields_def route_json_def route_stages_json_def outcome_json_def)

lemma dashboard_forms:
  "raw_fields [''started_at'', ''headroom'', ''stages'', ''route_outcomes''] (dashboard_json fmt d) =
     Some [(''started_at'', JStr (fmt (dd_started_at d))), (''headroom'', dashboard_headroom_json fmt (dd_headroom d)),
       (''stages'', dashboard_stages_json d), (''route_outcomes'', JArr (map route_json (dd_route_outcomes d)))]"
  "raw_fields [''rtk'', ''headroom'', ''caveman'', ''ponytail''] (dashboard_stages_json d) \<noteq> None"
  "raw_fields [''enabled'', ''url'', ''status'', ''circuit'', ''last_checked_at'', ''last_latency_ms'', ''last_outcome'']
     (dashboard_headroom_json fmt h) \<noteq> None"
  by (simp_all add: raw_fields_def raw_map_def exactRawFields_def dashboard_json_def dashboard_stages_json_def dashboard_headroom_json_def)

lemma texts_not_empty [simp]: "status_text s \<noteq> []" "circuit_text c \<noteq> []"
  by (cases s; cases c; simp)+

lemma saved_bytes_valid: "validStageCounters (counters_of (projectStage s))"
  by (auto simp: validStageCounters_def counters_of_def projectStage_def SavedBytes_def)

subsection \<open>The texts are well-formed\<close>

lemma ascii_append: "list_all (\<lambda>c. c < CHR 0x80) (s @ t) \<longleftrightarrow> list_all (\<lambda>c. c < CHR 0x80) s \<and> list_all (\<lambda>c. c < CHR 0x80) t"
  by simp

lemma digits_ascii: "list_all is_digit ds \<Longrightarrow> list_all (\<lambda>c. c < CHR 0x80) ds"
  by (auto simp: list_all_iff is_digit_def less_eq_char_def less_char_def)

lemma loopback_ascii: "loopback_authority h \<Longrightarrow> list_all (\<lambda>c. c < CHR 0x80) h"
  unfolding loopback_authority_def loopback_hosts_def
  by (auto simp: less_char_def dest: digits_ascii)

lemma config_url_utf8: "config_ok c \<Longrightarrow> valid_utf8 (HeadroomURL c)"
proof -
  assume "config_ok c"
  then obtain h where "loopback_authority h" "HeadroomURL c = ''http://'' @ h"
    using normalize_accepts unfolding config_ok_def by blast
  then show ?thesis using loopback_ascii by (intro valid_utf8_ascii) (simp add: less_char_def)
qed

lemma valid_labels: "f \<in> set label_formats \<Longrightarrow> valid_utf8 f \<and> validRouteFormat f"
  by (auto simp: label_formats_def known_formats_def validRouteFormat_def intro!: valid_utf8_ascii)

lemma valid_status_text [simp]: "valid_utf8 (status_text s)"
  by (cases s) (simp_all add: valid_utf8_ascii)

lemma outcome_known_text: "outcome_known h \<Longrightarrow> valid_utf8 (hd_outcome h) \<and> hd_outcome h \<noteq> []"
proof -
  have "valid_utf8 (outcome_name oc) \<and> outcome_name oc \<noteq> []" for oc by (cases oc) (simp_all add: valid_utf8_ascii)
  moreover have "valid_utf8 ''unknown''" by (simp add: valid_utf8_ascii)
  ultimately show "outcome_known h \<Longrightarrow> ?thesis" unfolding outcome_known_def by (metis list.distinct(1))
qed

lemma good_dashboard:
  assumes "\<And>t. valid_utf8 (fmt t)" "valid_utf8 (dh_url (dd_headroom d))" "valid_utf8 (dh_last_outcome (dd_headroom d))"
    "list_all (\<lambda>r. valid_utf8 (rs_from r) \<and> valid_utf8 (rs_to r)) (dd_route_outcomes d)"
  shows "good_json (dashboard_json fmt d) 0"
proof -
  have stage: "good_json (dashboard_stages_json d) 1" "good_json (dashboard_headroom_json fmt (dd_headroom d)) 1"
    using assms(1-3)
    by (simp_all add: dashboard_stages_json_def dashboard_stage_json_def dashboard_headroom_json_def nullable_def max_depth_def valid_utf8_ascii
        split: option.split)
  have route: "good_json (route_json r) 2" if "valid_utf8 (rs_from r) \<and> valid_utf8 (rs_to r)" for r
    using that by (simp add: route_json_def route_stages_json_def outcome_json_def max_depth_def valid_utf8_ascii)
  have "list_all (\<lambda>p. p 2) (map good_json (map route_json (dd_route_outcomes d)))"
    using assms(4) route by (simp add: list_all_iff)
  then show ?thesis using stage assms(1) by (simp add: dashboard_json_def max_depth_def valid_utf8_ascii numeral_2_eq_2)
qed

subsection \<open>The probe reads the plugin\<close>

definition runtime_dashboard :: "('n, 'r) abi_env \<Rightarrow> runtime \<Rightarrow> dashboard_dto" where
  "runtime_dashboard env rt = dashboard (management_env env rt) (rn_handler rt)"

lemma runtime_dashboard_facts:
  assumes "runtime_reach y g rt" "set (ae_routes env) \<subseteq> dom (reg_routes (sv_metrics (rn_service rt)))"
  shows "valid_utf8 (dh_url (dd_headroom (runtime_dashboard env rt)))"
    "valid_utf8 (dh_last_outcome (dd_headroom (runtime_dashboard env rt))) \<and> dh_last_outcome (dd_headroom (runtime_dashboard env rt)) \<noteq> []"
    "list_all (\<lambda>r. rs_from r \<in> set label_formats \<and> rs_to r \<in> set label_formats) (dd_route_outcomes (runtime_dashboard env rt))"
    "validStageCounters (counters_of (dd_rtk (runtime_dashboard env rt)))" "validStageCounters (counters_of (dd_headroom_stage (runtime_dashboard env rt)))"
    "validStageCounters (counters_of (dd_caveman (runtime_dashboard env rt)))" "validStageCounters (counters_of (dd_ponytail (runtime_dashboard env rt)))"
proof -
  have h: "runtime_facts.holds rt" by (rule runtime_facts.reach [OF assms(1)])
  then have k: "route_keys_known (sv_metrics (rn_service rt))" "outcome_known (rn_handler rt)" by (simp_all add: runtime_facts.holds_def)
  have "config_ok (config_Snapshot (rn_store rt))" using runtime_reach_ok [OF assms(1)] unfolding runtime_ok_def by blast
  then have u: "valid_utf8 (HeadroomURL (config_Snapshot (rn_store rt)))" by (rule config_url_utf8)
  show "valid_utf8 (dh_url (dd_headroom (runtime_dashboard env rt)))"
    using u by (auto simp: runtime_dashboard_def dashboard_def management_env_def StatusSnapshot_def config_Snapshot_def Let_def split: option.split)
  show "valid_utf8 (dh_last_outcome (dd_headroom (runtime_dashboard env rt))) \<and> dh_last_outcome (dd_headroom (runtime_dashboard env rt)) \<noteq> []"
    using outcome_known_text [OF k(2)] by (simp add: runtime_dashboard_def dashboard_def Let_def split: prod.split)
  show "list_all (\<lambda>r. rs_from r \<in> set label_formats \<and> rs_to r \<in> set label_formats) (dd_route_outcomes (runtime_dashboard env rt))"
    using k(1) assms(2)
    by (auto simp: runtime_dashboard_def dashboard_def Let_def management_env_def RouteOutcomes_def route_snapshot_of_def route_keys_known_def list_all_iff
        split: prod.split)
  show "validStageCounters (counters_of (dd_rtk (runtime_dashboard env rt)))" "validStageCounters (counters_of (dd_headroom_stage (runtime_dashboard env rt)))"
    "validStageCounters (counters_of (dd_caveman (runtime_dashboard env rt)))" "validStageCounters (counters_of (dd_ponytail (runtime_dashboard env rt)))"
    by (simp_all add: runtime_dashboard_def dashboard_def Let_def saved_bytes_valid split: prod.split)
qed

definition counters_ok :: "outcome_projection \<Rightarrow> bool" where
  "counters_ok c = (op_fail_open c \<ge> op_timeout c + op_saturated c)"

definition route_counters_ok :: "route_snapshot \<Rightarrow> bool" where
  "route_counters_ok r = (counters_ok (rp_pipeline (rs_stages r)) \<and> counters_ok (rp_rtk (rs_stages r)) \<and> counters_ok (rp_headroom (rs_stages r))
     \<and> counters_ok (rp_caveman (rs_stages r)) \<and> counters_ok (rp_ponytail (rs_stages r)))"

lemma route_stages_valid: "validRouteStages (po_stages (route_of r)) = route_counters_ok r"
  by (simp add: validRouteStages_def validOutcomeCounters_def route_counters_ok_def counters_ok_def route_of_def outcomes_of_def)

lemma dashboard_verdict:
  assumes "reads_times fmt tc" "dh_last_outcome (dd_headroom d) \<noteq> []"
    "list_all (\<lambda>r. rs_from r \<in> set label_formats \<and> rs_to r \<in> set label_formats) (dd_route_outcomes d)"
    "validStageCounters (counters_of (dd_rtk d))" "validStageCounters (counters_of (dd_headroom_stage d))"
    "validStageCounters (counters_of (dd_caveman d))" "validStageCounters (counters_of (dd_ponytail d))"
  shows "validDashboardRaw tc (dashboard_json fmt d) url =
    (if dd_started_at d \<noteq> tc_zero tc \<and> dh_enabled (dd_headroom d) \<and> dh_url (dd_headroom d) = url
        \<and> list_all route_counters_ok (dd_route_outcomes d) then Some (probe_view d) else None)"
proof -
  have raws: "list_all validRouteOutcomeRaw (map route_json (dd_route_outcomes d))" by (simp add: list_all_iff route_form)
  have routes: "list_all (\<lambda>route. validRouteFormat (po_from route) \<and> validRouteFormat (po_to route) \<and> validRouteStages (po_stages route))
      (slice_items (pb_routes (probe_view d))) = list_all route_counters_ok (dd_route_outcomes d)"
    using assms(3) valid_labels by (auto simp: probe_view_def slice_items_def list_all_iff route_stages_valid) (auto simp: route_of_def)
  have view: "pb_started_at (probe_view d) = dd_started_at d" "ph_enabled (pb_headroom (probe_view d)) = dh_enabled (dd_headroom d)"
    "ph_url (pb_headroom (probe_view d)) = dh_url (dd_headroom d)" "ph_status (pb_headroom (probe_view d)) \<noteq> []"
    "ph_circuit (pb_headroom (probe_view d)) \<noteq> []" "ph_last_outcome (pb_headroom (probe_view d)) \<noteq> []"
    "pt_rtk (pb_stages (probe_view d)) = counters_of (dd_rtk d)" "pt_headroom (pb_stages (probe_view d)) = counters_of (dd_headroom_stage d)"
    "pt_caveman (pb_stages (probe_view d)) = counters_of (dd_caveman d)" "pt_ponytail (pb_stages (probe_view d)) = counters_of (dd_ponytail d)"
    using assms(2) by (simp_all add: probe_view_def)
  show ?thesis
    unfolding validDashboardRaw_def dashboard_forms(1)
    using raws assms(4-7)
    by (simp add: dashboard_forms(2,3) dashboard_read [OF assms(1)] routes view)
qed

lemma public_verdict:
  "raw_map (public_json p) = Some [(''enabled'', JBool (pd_enabled p)), (''status'', JStr (status_text (pd_status p))), (''circuit'', JStr (circuit_text (pd_circuit p)))]"
  "validPublicStatus [(''enabled'', JBool (pd_enabled p)), (''status'', JStr (status_text (pd_status p))), (''circuit'', JStr (circuit_text (pd_circuit p)))] e st ci
     = (pd_enabled p = e \<and> status_text (pd_status p) = st \<and> circuit_text (pd_circuit p) = ci)"
  by (simp_all add: raw_map_def public_json_def validPublicStatus_def set_public_def reading)

definition status_view :: "status_dto \<Rightarrow> management_status" where
  "status_view s = \<lparr>mt_build_version = sd_build_version s, mt_abi_version = sd_abi_version s, mt_rpc_schema = sd_rpc_schema s,
     mt_fixture_revision = sd_fixture_revision s, mt_live = sd_live s, mt_config = config_text (sd_config s),
     mt_config_generation = sd_config_generation s, mt_config_digest = sd_config_digest s\<rparr>"

lemma status_view_read: "dec_object set_management_status (status_json fmt s) zero_management_status = Some (status_view s)"
  by (simp add: status_json_def set_management_status_def zero_management_status_def status_view_def dec_word_json(1) reading)


text \<open>Times as decimal numbers.\<close>

definition demo_codec :: time_codec where
  "demo_codec = \<lparr>tc_parse = (\<lambda>s. case s of [] \<Rightarrow> None
      | c # ds \<Rightarrow> if c = CHR ''-'' then Some (- int (digits_val ds)) else Some (int (digits_val s))), tc_zero = 1\<rparr>"

lemma demo_codec_reads: "reads_times show_int demo_codec"
proof -
  have "valid_utf8 (show_int t) \<and> tc_parse demo_codec (show_int t) = Some t" for t
  proof -
    obtain c ds where n: "show_nat (nat \<bar>t\<bar>) = c # ds" "is_digit c" using show_nat_head by blast
    have d: "list_all (\<lambda>c. c < CHR 0x80) (show_nat (nat \<bar>t\<bar>))" using digits_ascii [OF show_nat_digits] .
    have "c \<noteq> CHR ''-''" using n(2) by (auto simp: is_digit_def)
    moreover have "digits_val (c # ds) = nat \<bar>t\<bar>" using digits_val_show_nat [of "nat \<bar>t\<bar>"] n(1) by simp
    ultimately show ?thesis using n(1) d digits_val_show_nat [of "nat \<bar>t\<bar>"]
      by (cases "t < 0") (simp_all add: show_int_def demo_codec_def valid_utf8_ascii less_char_def)
  qed
  then show ?thesis by (simp add: reads_times_def)
qed


end
