(* ===== verification/Spec2Isabelle.thy ===== *)
theory Spec2Isabelle
  imports RtkSpec Inject Dedupe Metrics HeadroomClient HeadroomAdapter Config Pipeline Generations
    Native ProbeSpec ProbeContract
begin

text \<open>
  The token saver is a plugin of the CLI proxy API.  The host loads it as a shared library, hands it
  every provider request, and sends on what the plugin returns.  The plugin shortens what it can
  prove it may shorten and otherwise returns the bytes it was given: each stage fails open.  Beside
  the plugin the repository holds two commands: the update verifier inspects an installed release over the host's
  management interface, and the compatibility probe starts a candidate of the host and drives the plugin through it.

  \<^bold>\<open>A request\<close> crosses from C memory through the entry points of \<open>Native\<close> (\<open>main.go\<close>) into \<open>Abi\<close>
  (\<open>internal/abi/envelope.go\<close>): the runtime's gate admits the call, the request is
  decoded and its limits checked.  \<open>Service\<close> (\<open>internal/saver/pipeline.go\<close>, \<open>Service\<close>) takes a reference to
  the current configuration generation, and \<open>Pipeline\<close> (same file, \<open>Pipeline\<close>) runs the stages in order:
  tool-result filters (\<open>Rtk\<close>), the external compressor (\<open>HeadroomAdapter\<close> over \<open>HeadroomClient\<close> and
  \<open>Circuit\<close>), instruction blocks (\<open>Inject\<close>, \<open>Prompts\<close>).  A stage's result is used when a validator accepts the
  transition.  Equal requests in flight share one run through the cache of \<open>Dedupe\<close>.  \<open>Metrics\<close> counts what
  happened; the reply is put into a buffer of \<open>Buffers\<close>, which the host frees.

  \<^bold>\<open>A lifecycle call\<close> of the host (\<open>plugin.register\<close>, \<open>plugin.reconfigure\<close>) goes through \<open>Abi\<close> to
  \<open>Config\<close>, which parses, publishes and digests the configuration and keeps the last valid one; then
  \<open>Service\<close> installs a new generation, and the retired one is closed when its last request has left
  (\<open>Generations\<close>).

  \<^bold>\<open>A management call\<close> (\<open>Management\<close>) reads the status, runs the self-test or probes the compressor;
  \<open>Wire\<close> writes its JSON.  \<^bold>\<open>The update verifier\<close> (\<open>Verifier\<close>) reads the same JSON from outside, with the
  approval document of \<open>Approval\<close>, and so does \<^bold>\<open>the compatibility probe\<close> (\<open>ProbeChecks\<close>, \<open>ProbeRun\<close>), which also plays the
  provider and the compressor the candidate talks to.  \<open>Release\<close> and \<open>ProbeContract\<close> put writer and reader together.
\<close>

text \<open>
  \<^bold>\<open>Theories and sources.\<close>

  The language and its library, as far as the program uses them: \<open>Prelude\<close> (the types, map reads,
  list facts, the collections of the development), \<open>GoStrings\<close> (\<open>strings\<close>, \<open>strconv\<close>, \<open>path\<close>), \<open>GoRegexp\<close>
  (\<open>regexp\<close> with leftmost-first matching), \<open>GoJson\<close> (\<open>encoding/json\<close> on untyped values, \<open>unicode/utf8\<close>),
  \<open>GoJsonRoundtrip\<close> (decoding inverts encoding), \<open>GoDecode\<close> (\<open>encoding/json\<close> into structs, \<open>encoding/base64\<close>),
  \<open>GoUrl\<close> (\<open>net/url\<close>).

  The program, by directory of the source:
  \<^item> \<open>internal/metrics\<close>: \<open>Metrics\<close>, the registry as the record \<open>registry\<close>, one function per locked operation.
  \<^item> \<open>internal/headroom\<close>: \<open>Circuit\<close> (\<open>circuitBreaker\<close>), \<open>HeadroomClient\<close> (\<open>client.go\<close>, \<open>check.go\<close>),
    \<open>HeadroomAdapter\<close> (\<open>adapter.go\<close>).
  \<^item> \<open>internal/protocol\<close>: \<open>Payload\<close>, the text slots of a body and their replacement.
  \<^item> \<open>internal/prompt\<close>: \<open>Prompts\<close> (the texts), \<open>Inject\<close>.
  \<^item> \<open>internal/rtk\<close>: \<open>RtkFilters\<close>, \<open>RtkGit\<close> (\<open>filters/\<close>), \<open>Rtk\<close> (detection, registry, application), \<open>RtkSpec\<close> (what the
    stage promises).
  \<^item> \<open>internal/config\<close>: \<open>Config\<close>; \<open>Endpoint\<close> compares its URL check with the two others of the repository.
  \<^item> \<open>internal/saver\<close>: \<open>Dedupe\<close>, \<open>Pipeline\<close>, \<open>Service\<close>, \<open>Generations\<close>.
  \<^item> \<open>internal/management\<close>: \<open>Management\<close> (routes and their limits), \<open>Wire\<close> (the JSON of every answer of the plugin).
  \<^item> \<open>internal/abi\<close>: \<open>Buffers\<close>, \<open>Abi\<close>; \<open>RuntimeInv\<close> proves invariants of a reachable runtime.
  \<^item> \<open>main.go\<close>: \<open>Native\<close>, the record \<open>native\<close> of runtime, pool and C heap.
  \<^item> \<open>tools/update-verifier\<close>: \<open>Approval\<close>, \<open>Verifier\<close>; \<open>Release\<close> (the plugin against the verifier).
  \<^item> \<open>tools/compat-probe\<close>: \<open>ProbeChecks\<close> (tests, fixtures, the two servers), \<open>ProbeRun\<close> (a run), \<open>ProbeSpec\<close> (what it
    promises), \<open>ProbeContract\<close> (the plugin against the probe).

  A Go struct is a record whose fields carry a short prefix (\<open>gn_inflight\<close> of a generation), an
  enumeration is a datatype, a counter is a 64-bit word, a pointer to an object with a life of its own is
  an index into the state that holds it.  An operation that runs under a mutex is one function
  on the state; what runs between critical sections is interleaved by an inductive step relation
  (\<open>breaker_step\<close>, \<open>dedupe_step\<close>, \<open>service_step\<close>, the runtime's steps).  \<open>Gate\<close> holds the interface that the service and the
  runtime share (enter, leave, stop) as the locale \<open>admission_gate\<close>, interpreted on both; the locale
  \<open>runtime_invariant\<close> of \<open>RuntimeInv\<close> lifts facts that the metrics and the handler keep to every reachable runtime.
\<close>

text \<open>
  \<^bold>\<open>What the lemmas show.\<close>
  \<^item> The request path: whatever the stages do, panics included, the reply is the body, or what an accepted
    transition made of it; each stage is counted once; the reply fits its buffer or is refused.
  \<^item> The stages: the filters replace only tool results without error and only by shorter texts; the
    adapter writes only into the spans it projected; injection happens once and inserts one block.
  \<^item> Filters: truncation keeps both ends, grouping counts every match, duplicate lines collapse to a
    run-length encoding, the porcelain status is summarised by its letters.
  \<^item> Shared state: the cache never exceeds its bounds, serves no stale entry and runs a key once at a
    time; the breaker admits one probe and does not wedge; in-flight counters return to what they were;
    a generation is closed once, after its last user, and every one is closed after a shutdown; the C heap
    holds exactly the response buffers not yet freed.
  \<^item> Configuration: an invalid document leaves the last valid one in force, and the digest identifies the settings.
  \<^item> The network: the three URL checks accept loopback only and agree where they should; the verifier
    and the probe send only the requests of their lists, to one loopback base, each with the credential where it belongs.
  \<^item> Releases: the approval pins every file of the bundle; the status a plugin of this source writes is the one the
    verifier accepts as healthy, through the encoder and the decoder.
  \<^item> The probe: its report says what happened, and its strict readers accept what a plugin of this source writes.

  \<^bold>\<open>Bounds.\<close>  The JSON decoder recurses on fuel, the length of the text, which is enough: every step
  consumes a byte.  Nesting is limited to \<open>max_depth\<close> = 10000, the limit of \<open>encoding/json\<close>.  The eviction loops
  pass at most once per entry (\<open>makeRoom_enough\<close>, \<open>enforce_enough\<close>).  The self-test makes two attempts, as
  the source does.  \<open>ve_polls\<close>, \<open>cv_ready_ticks\<close> and \<open>cv_apply_ticks\<close> are the numbers of ticks that fit before the deadlines of
  the verifier and the probe.

  \<^bold>\<open>Parameters.\<close>  gjson and yaml.v3 are records of the accessors the code calls, SHA-256 is a function, the network
  answers through an environment, clocks and map iteration orders are arguments.  The laws a proof needs of
  them are hypotheses of the theorem, and its witness instantiates them.

  \<^bold>\<open>Not modelled.\<close>  \<open>main_nocgo.go\<close> is an empty main for builds without cgo, \<open>page.go\<close> embeds one asset, and
  \<open>test/abi-host\<close> is a test host in C calls that loads the library.  Sockets, DNS, processes, files, YAML encoding and the
  operating system stay behind the environments, and the texts of decoder errors are arguments.  \<open>validVersion\<close> of the
  verifier is never called; \<open>trust_other.go\<close> is the build for other systems.  Nil receivers are left out: every object
  comes from its constructor.
\<close>

end
